(* ===== verification/GoPrelude.thy ===== *)
theory GoPrelude
  imports Main "HOL-Library.Word"
begin

text \<open>
  What every component of the model shares: the Go types as HOL types, the printing and
  reading of numbers (\<open>%d\<close>, \<open>%x\<close> and the number readers behind \<open>net.ParseIP\<close>), and the
  generic facts about lists and separators that the components' proofs use.

  A Go string is a sequence of bytes, here \<^typ>\<open>string\<close>. Go's \<open>int\<close> and \<open>int64\<close> are
  64-bit words read with \<^term>\<open>sint\<close>, \<open>int32\<close> is a 32-bit word, a byte is an 8-bit word.
  An error value is the text its \<open>Error()\<close> method returns; a function that returns
  \<open>(x, error)\<close> gives \<^term>\<open>Inl e\<close> or \<^term>\<open>Inr x\<close>, one that returns an \<open>error\<close> gives
  \<^term>\<open>Some e\<close> or \<^term>\<open>None\<close> for \<open>nil\<close>.
\<close>

type_synonym byte = "8 word"
type_synonym int32 = "32 word"
type_synonym int64 = "64 word"
type_synonym goerror = string

named_theorems num_simps \<open>printing and reading numbers\<close>

section \<open>Separators\<close>

lemma append_sep_eq_iff:
  assumes "c \<notin> set ys" and "c \<notin> set ys'"
  shows "xs @ c # ys = xs' @ c # ys' \<longleftrightarrow> xs = xs' \<and> ys = ys'"
  using assms by (auto simp: append_eq_append_conv2 append_eq_Cons_conv Cons_eq_append_conv)

text \<open>\<open>join sep xs\<close> is Go's \<open>strings.Join\<close>: the pieces with the separator between them.\<close>

fun join :: "'a list \<Rightarrow> 'a list list \<Rightarrow> 'a list" where
  "join sep [] = []"
| "join sep [x] = x"
| "join sep (x # y # ys) = x @ sep @ join sep (y # ys)"

lemma join_Cons: "xs \<noteq> [] \<Longrightarrow> join sep (x # xs) = x @ sep @ join sep xs"
  by (cases xs) simp_all

section \<open>Digits\<close>

definition digit_char :: "nat \<Rightarrow> char" where
  "digit_char d = ''0123456789abcdef'' ! d"

text \<open>The value of a digit in a base, upper and lower case accepted as the readers do.\<close>

definition digit_val :: "nat \<Rightarrow> char \<Rightarrow> nat option" where
  "digit_val base c =
     (let n = of_char c :: nat;
          v = (if 48 \<le> n \<and> n \<le> 57 then Some (n - 48)
               else if 97 \<le> n \<and> n \<le> 102 then Some (n - 87)
               else if 65 \<le> n \<and> n \<le> 70 then Some (n - 55)
               else None)
      in case v of None \<Rightarrow> None | Some d \<Rightarrow> if d < base then Some d else None)"

lemma digit_val_16: "\<forall>d < 16. digit_val 16 (digit_char d) = Some d"
  by code_simp

lemma digit_val_base: "base \<le> 16 \<Longrightarrow>
  digit_val base c = (case digit_val 16 c of None \<Rightarrow> None | Some d \<Rightarrow> if d < base then Some d else None)"
  by (auto simp: digit_val_def Let_def split: option.splits if_splits)

lemma digit_val_digit_char [num_simps]:
  assumes "d < base" and "base \<le> 16"
  shows "digit_val base (digit_char d) = Some d"
  using assms digit_val_16 by (simp add: digit_val_base [of base])

text \<open>Numbers in a base, most significant digit first, as \<open>strconv\<close> prints them.\<close>

fun nat_str :: "nat \<Rightarrow> nat \<Rightarrow> string" where
  "nat_str base n =
     (if base < 2 \<or> n < base then [digit_char n]
      else nat_str base (n div base) @ [digit_char (n mod base)])"

declare nat_str.simps [simp del]

lemma nat_str_nonempty [simp]: "nat_str base n \<noteq> []"
  by (subst nat_str.simps) simp

lemma nat_str_digits:
  assumes "2 \<le> base"
  shows "set (nat_str base n) \<subseteq> digit_char ` {..<base}"
  using assms
proof (induction base n rule: nat_str.induct)
  case (1 base n)
  then show ?case
    by (subst nat_str.simps) (auto split: if_splits)
qed

text \<open>The number a string of digits denotes.\<close>

definition digits_val :: "nat \<Rightarrow> nat \<Rightarrow> string \<Rightarrow> nat" where
  "digits_val base a s = foldl (\<lambda>n c. n * base + the (digit_val base c)) a s"

lemma digits_val_Nil [num_simps]: "digits_val base a [] = a"
  and digits_val_Cons [num_simps]:
    "digits_val base a (c # s) = digits_val base (a * base + the (digit_val base c)) s"
  and digits_val_append [num_simps]:
    "digits_val base a (s @ t) = digits_val base (digits_val base a s) t"
  by (simp_all add: digits_val_def)

lemma digits_val_nat_str [num_simps]:
  assumes "2 \<le> base" and "base \<le> 16"
  shows "digits_val base 0 (nat_str base n) = n"
  using assms
proof (induction base n rule: nat_str.induct)
  case (1 base n)
  then show ?case
    by (subst nat_str.simps) (auto simp: num_simps)
qed

lemma nat_str_inject [simp]:
  "2 \<le> base \<Longrightarrow> base \<le> 16 \<Longrightarrow> nat_str base m = nat_str base n \<longleftrightarrow> m = n"
  by (metis digits_val_nat_str)

lemma digits_val_mono: "a \<le> digits_val base a s" if "0 < base"
proof (induction s arbitrary: a)
  case Nil
  show ?case by (simp add: num_simps)
next
  case (Cons c s)
  have "a \<le> a * base + the (digit_val base c)"
    using that by (simp add: trans_le_add1)
  also have "\<dots> \<le> digits_val base (a * base + the (digit_val base c)) s"
    by (rule Cons.IH)
  finally show ?case by (simp add: num_simps)
qed

section \<open>Decimal printing\<close>

text \<open>The verb \<open>%d\<close> of \<open>fmt\<close>, and \<open>strconv.FormatInt\<close> in base ten.\<close>

definition fmt_d :: "int \<Rightarrow> string" where
  "fmt_d i = (if i < 0 then CHR ''-'' # nat_str 10 (nat (- i)) else nat_str 10 (nat i))"

lemma decimal_no_sep:
  assumes "c \<notin> digit_char ` {..<10}"
  shows "c \<notin> set (nat_str 10 n)"
  using nat_str_digits [of 10 n] assms by auto

lemma digit_chars_10: "digit_char ` {..<10} = set ''0123456789''"
  by (simp add: lessThan_nat_numeral lessThan_Suc digit_char_def) auto

lemma digit_chars_16: "digit_char ` {..<16} = set ''0123456789abcdef''"
  by (simp add: lessThan_nat_numeral lessThan_Suc digit_char_def) auto

lemma fmt_d_nonneg: "0 \<le> i \<Longrightarrow> fmt_d i = nat_str 10 (nat i)"
  by (simp add: fmt_d_def)

lemma fmt_d_nonempty [simp]: "fmt_d i \<noteq> []"
  by (simp add: fmt_d_def)

lemma fmt_d_no_dash: "0 \<le> i \<Longrightarrow> CHR ''-'' \<notin> set (fmt_d i)"
  by (simp add: fmt_d_nonneg decimal_no_sep digit_chars_10)

lemma fmt_d_no_colon: "CHR '':'' \<notin> set (fmt_d i)"
  by (simp add: fmt_d_def decimal_no_sep digit_chars_10)

lemma fmt_d_inject [simp]: "fmt_d i = fmt_d j \<longleftrightarrow> i = j"
proof
  assume eq: "fmt_d i = fmt_d j"
  have dash: "CHR ''-'' \<notin> set (nat_str 10 n)" for n
    by (simp add: decimal_no_sep digit_chars_10)
  have "CHR ''-'' # xs \<noteq> nat_str 10 n" for xs n
    using dash [of n] by (metis list.set_intros(1))
  with eq show "i = j"
    by (auto simp: fmt_d_def split: if_splits) (metis)+
qed simp

section \<open>Conversions between integer widths\<close>

text \<open>\<open>int(x)\<close> of an \<open>int32\<close> keeps the value; \<open>int32(x)\<close> of an \<open>int\<close> keeps it when it fits.\<close>

lemma sint_widen [simp]: "sint (scast (x :: int32) :: int64) = sint x"
proof -
  have "- (2 ^ 63) \<le> sint x" "sint x < 2 ^ 63"
    using sint_ge [of x] sint_lt [of x] by simp_all
  then show ?thesis
    by (simp add: signed_scast_eq signed_take_bit_int_eq_self_iff)
qed

lemma sint_narrow:
  assumes "- (2 ^ 31) \<le> sint x" and "sint x < 2 ^ 31"
  shows "sint (scast (x :: int64) :: int32) = sint x"
  using assms by (simp add: signed_scast_eq signed_take_bit_int_eq_self_iff)

section \<open>Slices\<close>

text \<open>A slice is \<^const>\<open>None\<close> while it is nil; \<open>append\<close> makes a nil slice a real one.\<close>

definition slice_append :: "'a list option \<Rightarrow> 'a \<Rightarrow> 'a list option" where
  "slice_append sl x = Some ((case sl of None \<Rightarrow> [] | Some xs \<Rightarrow> xs) @ [x])"

lemma fold_slice_append:
  "fold (\<lambda>x sl. slice_append sl (g x)) xs sl =
     (if xs = [] then sl else Some ((case sl of None \<Rightarrow> [] | Some ys \<Rightarrow> ys) @ map g xs))"
  by (induction xs arbitrary: sl) (auto simp: slice_append_def split: option.split)

section \<open>Sequences of states\<close>

text \<open>What changes only with a loss of rank stays the same from some moment on.\<close>

lemma eventually_constant:
  assumes "\<And>k. f (Suc k) = f k \<or> (rank (f (Suc k)) :: nat) < rank (f k)"
  shows "\<exists>K. \<forall>j\<ge>K. f j = f K"
proof -
  obtain K where least: "\<And>k. rank (f K) \<le> rank (f k)"
    using ex_has_least_nat [of "\<lambda>_. True" 0 "\<lambda>k. rank (f k)"] by auto
  have "f j = f K" if "K \<le> j" for j
    using that
  proof (induction rule: dec_induct)
    case (step m)
    with assms [of m] least [of "Suc m"] show ?case by auto
  qed simp
  then show ?thesis by blast
qed

end
