(* ===== verification/GoNet.thy ===== *)
theory GoNet
  imports GoPrelude
begin

text \<open>
  The part of Go's package \<open>net\<close> that the program relies on, as the standard library of the
  Go version the build uses (1.10) defines it: IP addresses as byte sequences, the printing of
  an address (\<open>IP.String\<close>), the reading of one (\<open>ParseIP\<close>), and the TCP and UDP addresses
  that the shim and the registrar pass around. The shim sends addresses to the registrar as
  text, so the theorem the program rests on is the round trip \<open>ParseIP (IP_String ip)\<close>.
\<close>

section \<open>Addresses\<close>

text \<open>\<open>net.IP\<close> is a byte slice; \<open>nil\<close> is the empty list.\<close>

type_synonym IP = "byte list"

record SockAddr =
  IP :: IP
  Port :: int64

text \<open>
  The values of the interface \<open>net.Addr\<close> that the program makes: a pointer to a \<open>TCPAddr\<close> or to
  a \<open>UDPAddr\<close>. No code of the program sets the zone of an address.
\<close>

datatype Addr = TCPAddr SockAddr | UDPAddr SockAddr

definition v4InV6Prefix :: IP where
  "v4InV6Prefix = replicate 10 0 @ [255, 255]"

definition To4 :: "IP \<Rightarrow> IP" where
  "To4 ip =
     (if length ip = 4 then ip
      else if length ip = 16 \<and> take 12 ip = v4InV6Prefix then drop 12 ip
      else [])"

definition To16 :: "IP \<Rightarrow> IP" where
  "To16 ip =
     (if length ip = 4 then v4InV6Prefix @ ip
      else if length ip = 16 then ip
      else [])"

section \<open>Printing: IP.String\<close>

abbreviation hex :: "nat \<Rightarrow> string" where
  "hex \<equiv> nat_str 16"

definition dotted :: "byte list \<Rightarrow> string" where
  "dotted p = join ''.'' (map (\<lambda>b. nat_str 10 (unat b)) p)"

definition hexString :: "byte list \<Rightarrow> string" where
  "hexString p = concat (map (\<lambda>b. [digit_char (unat b div 16), digit_char (unat b mod 16)]) p)"

text \<open>The eight 16-bit groups of an address of sixteen bytes.\<close>

fun groups :: "byte list \<Rightarrow> nat list" where
  "groups (a # b # p) = (unat a * 256 + unat b) # groups p"
| "groups _ = []"

text \<open>
  The search for the longest run of zero groups, the first of the longest. The position is
  a group's index, half of the byte index of the Go code. The run is \<open>[e0, e1)\<close>, and
  \<open>None\<close> stands for \<open>e0 = e1 = -1\<close>.
\<close>

definition run_length :: "(nat \<times> nat) option \<Rightarrow> nat" where
  "run_length e = (case e of None \<Rightarrow> 0 | Some (e0, e1) \<Rightarrow> e1 - e0)"

function longest_run :: "nat list \<Rightarrow> nat \<Rightarrow> (nat \<times> nat) option \<Rightarrow> (nat \<times> nat) option" where
  "longest_run gs i e =
     (if length gs \<le> i then e
      else let j = i + length (takeWhile (\<lambda>g. g = 0) (drop i gs))
           in if i < j \<and> run_length e < j - i
              then longest_run gs (Suc j) (Some (i, j))
              else longest_run gs (Suc i) e)"
  by pat_completeness auto
termination
  by (relation "measure (\<lambda>(gs, i, e). length gs - i)") (auto simp: Let_def)

declare longest_run.simps [simp del]

text \<open>The run is dropped when it is a single group.\<close>

definition ellipsis :: "nat list \<Rightarrow> (nat \<times> nat) option" where
  "ellipsis gs = (let e = longest_run gs 0 None in if run_length e \<le> 1 then None else e)"

text \<open>
  The loop that prints the groups. The test \<open>e0 < e1\<close> always holds for the run that
  \<^const>\<open>longest_run\<close> finds (\<open>longest_run_zeros\<close> below); it makes the recursion total.
\<close>

function fmt_groups :: "nat list \<Rightarrow> (nat \<times> nat) option \<Rightarrow> nat \<Rightarrow> string" where
  "fmt_groups gs e i =
     (if length gs \<le> i then []
      else case e of
        Some (e0, e1) \<Rightarrow>
          if i = e0 \<and> e0 < e1
          then ''::'' @ (if length gs \<le> e1 then [] else hex (gs ! e1) @ fmt_groups gs e (Suc e1))
          else (if 0 < i then '':'' else []) @ hex (gs ! i) @ fmt_groups gs e (Suc i)
      | None \<Rightarrow> (if 0 < i then '':'' else []) @ hex (gs ! i) @ fmt_groups gs e (Suc i))"
  by pat_completeness auto
termination
  by (relation "measure (\<lambda>(gs, e, i). length gs - i)") auto

declare fmt_groups.simps [simp del]

definition IP_String :: "IP \<Rightarrow> string" where
  "IP_String ip =
     (if ip = [] then ''<nil>''
      else if length (To4 ip) = 4 then dotted (To4 ip)
      else if length ip \<noteq> 16 then CHR ''?'' # hexString ip
      else fmt_groups (groups ip) (ellipsis (groups ip)) 0)"

section \<open>Reading: ParseIP\<close>

text \<open>
  \<open>dtoi\<close> and \<open>xtoi\<close> read digits up to the first other character and give the number, how many
  characters it took, and whether it is a number below \<open>big\<close>.
\<close>

definition big :: nat where
  "big = 0xFFFFFF"

fun read_digits :: "nat \<Rightarrow> nat \<Rightarrow> nat \<Rightarrow> string \<Rightarrow> nat \<times> nat \<times> bool" where
  "read_digits base n i [] = (n, i, True)"
| "read_digits base n i (c # s) =
     (case digit_val base c of
        None \<Rightarrow> (n, i, True)
      | Some d \<Rightarrow>
          if big \<le> n * base + d then (n * base + d, i, False)
          else read_digits base (n * base + d) (Suc i) s)"

definition dtoi :: "string \<Rightarrow> nat \<times> nat \<times> bool" where
  "dtoi s =
     (case read_digits 10 0 0 s of (n, i, ok) \<Rightarrow>
        if \<not> ok then (big, i, False) else if i = 0 then (0, 0, False) else (n, i, True))"

definition xtoi :: "string \<Rightarrow> nat \<times> nat \<times> bool" where
  "xtoi s =
     (case read_digits 16 0 0 s of (n, i, ok) \<Rightarrow>
        if \<not> ok then (0, i, False) else if i = 0 then (0, i, False) else (n, i, True))"

text \<open>\<open>k\<close> octets are left to read; \<open>first\<close> is the test \<open>i > 0\<close> of the loop, negated.\<close>

fun parse_octets :: "nat \<Rightarrow> bool \<Rightarrow> string \<Rightarrow> (byte list \<times> string) option" where
  "parse_octets 0 first s = Some ([], s)"
| "parse_octets (Suc k) first s =
     (if s = [] then None
      else if \<not> first \<and> hd s \<noteq> CHR ''.'' then None
      else let s' = (if first then s else tl s)
           in case dtoi s' of (n, c, ok) \<Rightarrow>
                if \<not> ok \<or> 255 < n then None
                else case parse_octets k False (drop c s') of
                       None \<Rightarrow> None
                     | Some (p, r) \<Rightarrow> Some (of_nat n # p, r))"

definition parseIPv4 :: "string \<Rightarrow> IP" where
  "parseIPv4 s =
     (case parse_octets 4 True s of
        Some (p, r) \<Rightarrow> if r = [] then v4InV6Prefix @ p else []
      | None \<Rightarrow> [])"

text \<open>
  The loop over the groups of an IPv6 address. \<open>k\<close> groups are left, \<open>acc\<close> holds the bytes
  written so far (so \<open>i\<close> is its length), \<open>e\<close> is the position of the ellipsis. The result
  is what the loop leaves, or \<open>None\<close> for a \<open>return nil\<close> inside it.
\<close>

fun parse_groups ::
  "nat \<Rightarrow> byte list \<Rightarrow> nat option \<Rightarrow> string \<Rightarrow> (byte list \<times> nat option \<times> string) option" where
  "parse_groups 0 acc e s = Some (acc, e, s)"
| "parse_groups (Suc k) acc e s =
     (case xtoi s of (n, c, ok) \<Rightarrow>
        if \<not> ok \<or> 0xFFFF < n then None
        else if c < length s \<and> s ! c = CHR ''.'' then
          (if e = None \<and> length acc \<noteq> 12 then None
           else if 16 < length acc + 4 then None
           else if parseIPv4 s = [] then None
           else Some (acc @ drop 12 (parseIPv4 s), e, []))
        else
          let acc' = acc @ [of_nat (n div 256), of_nat n]; s' = drop c s
          in if s' = [] then Some (acc', e, [])
             else if hd s' \<noteq> CHR '':'' \<or> length s' = 1 then None
             else if hd (tl s') = CHR '':'' then
               (if e \<noteq> None then None
                else if tl (tl s') = [] then Some (acc', Some (length acc'), [])
                else parse_groups k acc' (Some (length acc')) (tl (tl s')))
             else parse_groups k acc' e (tl s'))"

definition expand_ellipsis :: "byte list \<Rightarrow> nat option \<Rightarrow> IP" where
  "expand_ellipsis acc e =
     (if length acc < 16
      then (case e of
              None \<Rightarrow> []
            | Some j \<Rightarrow> take j acc @ replicate (16 - length acc) 0 @ drop j acc)
      else if e \<noteq> None then [] else acc)"

definition parseIPv6 :: "string \<Rightarrow> IP" where
  "parseIPv6 s =
     (let lead = take 2 s = ''::''; s' = (if lead then drop 2 s else s)
      in if lead \<and> s' = [] then replicate 16 0
         else case parse_groups 8 [] (if lead then Some 0 else None) s' of
                None \<Rightarrow> []
              | Some (acc, e, r) \<Rightarrow> if r \<noteq> [] then [] else expand_ellipsis acc e)"

text \<open>The first dot or colon decides which of the two syntaxes is read.\<close>

fun parse_dispatch :: "string \<Rightarrow> string \<Rightarrow> IP" where
  "parse_dispatch s [] = []"
| "parse_dispatch s (c # cs) =
     (if c = CHR ''.'' then parseIPv4 s
      else if c = CHR '':'' then parseIPv6 s
      else parse_dispatch s cs)"

definition ParseIP :: "string \<Rightarrow> IP" where
  "ParseIP s = parse_dispatch s s"

section \<open>Reading back what was printed: numbers\<close>

lemma read_digits_append:
  assumes "set ds \<subseteq> digit_char ` {..<base}" and "base \<le> 16" and "0 < base"
    and "digits_val base a ds < big"
    and "s = [] \<or> digit_val base (hd s) = None"
  shows "read_digits base a i (ds @ s) = (digits_val base a ds, i + length ds, True)"
  using assms(1,4)
proof (induction ds arbitrary: a i)
  case Nil
  with assms(5) show ?case by (cases s) (auto simp: num_simps)
next
  case (Cons c ds)
  then obtain d where d: "d < base" "c = digit_char d" by auto
  with assms(2) have v: "digit_val base c = Some d" by (simp add: num_simps)
  with Cons.prems have val: "digits_val base (a * base + d) ds < big"
    by (simp add: num_simps)
  then have "\<not> big \<le> a * base + d"
    using digits_val_mono [OF assms(3), of "a * base + d" ds] by linarith
  moreover have "read_digits base (a * base + d) (Suc i) (ds @ s)
      = (digits_val base (a * base + d) ds, Suc i + length ds, True)"
    using Cons.prems val by (intro Cons.IH) simp_all
  ultimately show ?case by (simp add: v num_simps)
qed

lemma read_nat_str:
  assumes "2 \<le> base" and "base \<le> 16" and "n < big"
    and "s = [] \<or> digit_val base (hd s) = None"
  shows "read_digits base 0 0 (nat_str base n @ s) = (n, length (nat_str base n), True)"
  using read_digits_append [of "nat_str base n" base 0 s 0] assms nat_str_digits [of base n]
  by (simp add: num_simps)

lemma dtoi_nat_str:
  assumes "n < big" and "s = [] \<or> digit_val 10 (hd s) = None"
  shows "dtoi (nat_str 10 n @ s) = (n, length (nat_str 10 n), True)"
  using read_nat_str [of 10 n s] assms by (simp add: dtoi_def)

lemma xtoi_hex:
  assumes "n < big" and "s = [] \<or> digit_val 16 (hd s) = None"
  shows "xtoi (hex n @ s) = (n, length (hex n), True)"
  using read_nat_str [of 16 n s] assms by (simp add: xtoi_def)

lemma hex_chars: "set (hex n) \<subseteq> set ''0123456789abcdef''"
  using nat_str_digits [of 16 n] by (simp add: digit_chars_16)

lemma hex_no_sep:
  "CHR ''.'' \<notin> set (hex n)" "CHR '':'' \<notin> set (hex n)" "CHR ''%'' \<notin> set (hex n)"
  using hex_chars [of n] by auto

lemma hd_hex_not_sep:
  "hd (hex n) \<noteq> CHR '':''" "hd (hex n @ s) \<noteq> CHR '':''" "hd (hex n @ s) \<noteq> CHR ''.''"
  using hex_no_sep [of n] by (cases "hex n"; auto)+

section \<open>Reading back what was printed: IPv4\<close>

lemma parse_octets_dotted:
  assumes "p \<noteq> []"
  shows "parse_octets (length p) first ((if first then [] else ''.'') @ dotted p) = Some (p, [])"
  using assms
proof (induction p arbitrary: first)
  case Nil
  then show ?case by simp
next
  case (Cons b p)
  let ?r = "if p = [] then [] else ''.'' @ dotted p"
  have split: "dotted (b # p) = nat_str 10 (unat b) @ ?r"
    by (cases p) (simp_all add: dotted_def)
  have b: "unat b < 256"
    using unsigned_less [of b] by simp
  then have rd: "dtoi (nat_str 10 (unat b) @ ?r) = (unat b, length (nat_str 10 (unat b)), True)"
    by (intro dtoi_nat_str) (auto simp: big_def digit_val_def Let_def)
  have "parse_octets (length p) False ?r = Some (p, [])"
    using Cons.IH [of False] by (cases p) auto
  with b rd show ?case
    by (simp add: split)
qed

lemma parseIPv4_dotted:
  assumes "length p = 4"
  shows "parseIPv4 (dotted p) = v4InV6Prefix @ p"
proof -
  have "p \<noteq> []" using assms by auto
  then show ?thesis
    using parse_octets_dotted [of p True] assms by (simp add: parseIPv4_def)
qed

lemma parse_dispatch_skip:
  assumes "CHR ''.'' \<notin> set xs" and "CHR '':'' \<notin> set xs"
  shows "parse_dispatch s (xs @ ys) = parse_dispatch s ys"
  using assms by (induction xs) auto

lemma ParseIP_dotted:
  assumes "length p = 4"
  shows "ParseIP (dotted p) = v4InV6Prefix @ p"
proof -
  obtain a b q where p: "p = a # b # q"
    using assms by (cases p; cases "tl p") auto
  have "ParseIP (dotted p) = parse_dispatch (dotted p) (nat_str 10 (unat a) @ ''.'' @ dotted (b # q))"
    by (simp add: ParseIP_def dotted_def p)
  also have "\<dots> = parseIPv4 (dotted p)"
    by (subst parse_dispatch_skip) (simp_all add: decimal_no_sep digit_chars_10)
  finally show ?thesis
    by (simp add: parseIPv4_dotted assms)
qed

lemma ParseIP_nil: "ParseIP ''<nil>'' = []"
  by (simp add: ParseIP_def)

section \<open>Reading back what was printed: IPv6\<close>

text \<open>The bytes of a list of groups, and the groups as text.\<close>

definition group_bytes :: "nat list \<Rightarrow> byte list" where
  "group_bytes gs = concat (map (\<lambda>g. [of_nat (g div 256), of_nat g]) gs)"

definition hex_groups :: "nat list \<Rightarrow> string" where
  "hex_groups gs = join '':'' (map hex gs)"

lemma hex_groups_simps [simp]:
  "hex_groups [] = []" "hex_groups [g] = hex g"
  "hex_groups (g # h # gs) = hex g @ CHR '':'' # hex_groups (h # gs)"
  by (simp_all add: hex_groups_def)

lemma hex_groups_Cons: "hex_groups (g # gs) = hex g @ (if gs = [] then [] else CHR '':'' # hex_groups gs)"
  by (cases gs) simp_all

lemma hex_groups_nonempty [simp]: "hex_groups gs = [] \<longleftrightarrow> gs = []"
  by (cases gs) (auto simp: hex_groups_Cons)

lemma hd_hex_groups: "gs \<noteq> [] \<Longrightarrow> hd (hex_groups gs @ s) \<noteq> CHR '':''"
  by (cases gs) (auto simp: hex_groups_Cons hd_hex_not_sep)

lemma hex_groups_no_dot: "CHR ''.'' \<notin> set (hex_groups gs)"
  by (induction gs) (auto simp: hex_groups_Cons hex_no_sep)

lemma group_bytes_simps [simp]:
  "group_bytes [] = []"
  "group_bytes (g # gs) = of_nat (g div 256) # of_nat g # group_bytes gs"
  "group_bytes (gs @ hs) = group_bytes gs @ group_bytes hs"
  by (simp_all add: group_bytes_def)

lemma length_group_bytes [simp]: "length (group_bytes gs) = 2 * length gs"
  by (induction gs) auto

lemma group_bytes_zeros: "group_bytes (replicate n 0) = replicate (2 * n) 0"
  by (induction n) simp_all

lemma of_nat_high_byte: "of_nat ((unat a * 256 + unat b) div 256) = (a :: byte)" for b :: byte
proof -
  have "unat b < 256" using unsigned_less [of b] by simp
  then have "(unat a * 256 + unat b) div 256 = unat a" by simp
  then show ?thesis by simp
qed

lemma of_nat_low_byte: "of_nat (unat a * 256 + unat b) = (b :: byte)" for a :: byte
proof -
  have "(256 :: byte) = 0" by transfer simp
  then have "a * 256 = 0" by (metis mult_zero_right)
  then show ?thesis by simp
qed

lemma groups_bytes: "even (length p) \<Longrightarrow> group_bytes (groups p) = p"
proof (induction p rule: groups.induct)
  case (1 a b p)
  then show ?case
    by (simp only: groups.simps group_bytes_simps of_nat_high_byte of_nat_low_byte) simp
qed simp_all

lemma length_groups: "length (groups p) = length p div 2"
  by (induction p rule: groups.induct) auto

lemma groups_bound: "g \<in> set (groups p) \<Longrightarrow> g < 0x10000"
proof (induction p rule: groups.induct)
  case (1 a b p)
  have "unat a < 256" "unat b < 256"
    using unsigned_less [of a] unsigned_less [of b] by simp_all
  with 1 show ?case by auto
qed simp_all

subsection \<open>The run of zero groups\<close>

definition zero_run :: "nat list \<Rightarrow> nat \<times> nat \<Rightarrow> bool" where
  "zero_run gs e =
     (fst e < snd e \<and> snd e \<le> length gs \<and> (\<forall>i. fst e \<le> i \<and> i < snd e \<longrightarrow> gs ! i = 0))"

lemma zero_run_split:
  assumes "zero_run gs (a, b)"
  shows "gs = take a gs @ replicate (b - a) 0 @ drop b gs"
proof -
  have "take b gs = take a gs @ replicate (b - a) 0"
    using assms by (intro nth_equalityI) (auto simp: zero_run_def nth_append)
  then show ?thesis
    by (metis append.assoc append_take_drop_id)
qed

lemma takeWhile_zero_run:
  assumes "i < j" and "j = i + length (takeWhile (\<lambda>g. g = 0) (drop i gs))"
  shows "zero_run gs (i, j)"
proof -
  let ?t = "takeWhile (\<lambda>g. g = 0) (drop i gs)"
  have "length ?t \<le> length gs - i"
    using length_takeWhile_le [of "\<lambda>g. g = 0" "drop i gs"] by simp
  moreover have "gs ! k = 0" if "i \<le> k" "k < j" for k
  proof -
    have "k - i < length ?t" using that assms(2) by simp
    then have "?t ! (k - i) = drop i gs ! (k - i)" "?t ! (k - i) = 0"
      using nth_mem set_takeWhileD by (fastforce simp: takeWhile_nth)+
    then show ?thesis using that calculation \<open>k - i < length ?t\<close> by simp
  qed
  moreover have "j \<le> length gs"
    using calculation(1) assms by linarith
  ultimately show ?thesis
    using assms(1) by (simp add: zero_run_def)
qed

lemma longest_run_zeros:
  "longest_run gs i e = Some r \<Longrightarrow> (\<And>r'. e = Some r' \<Longrightarrow> zero_run gs r') \<Longrightarrow> zero_run gs r"
proof (induction gs i e rule: longest_run.induct)
  case (1 gs i e)
  let ?j = "i + length (takeWhile (\<lambda>g. g = 0) (drop i gs))"
  show ?case
  proof (cases "length gs \<le> i")
    case True
    with "1.prems" show ?thesis by (simp add: longest_run.simps)
  next
    case False
    with "1.prems"(1) have eq: "(if i < ?j \<and> run_length e < ?j - i
        then longest_run gs (Suc ?j) (Some (i, ?j)) else longest_run gs (Suc i) e) = Some r"
      by (subst (asm) longest_run.simps) (simp add: Let_def)
    show ?thesis
    proof (cases "i < ?j \<and> run_length e < ?j - i")
      case True
      then have "zero_run gs (i, ?j)" by (intro takeWhile_zero_run) simp_all
      with True False eq show ?thesis
        by (intro "1.IH"(1) [OF False refl True]) auto
    next
      case no: False
      with eq "1.prems"(2) show ?thesis
        by (intro "1.IH"(2) [OF False refl no]) (auto split: if_splits)
    qed
  qed
qed

lemma ellipsis_zeros: "ellipsis gs = Some (a, b) \<Longrightarrow> zero_run gs (a, b) \<and> a + 2 \<le> b"
  using longest_run_zeros [of gs 0 None "(a, b)"]
  by (auto simp: ellipsis_def Let_def run_length_def split: if_splits)

subsection \<open>The printed form\<close>

text \<open>What the printing loop produces from group \<open>i\<close> on, without and with an ellipsis ahead.\<close>

lemma fmt_groups_after:
  assumes "\<forall>e0 e1. e = Some (e0, e1) \<longrightarrow> e0 < i" and "0 < i"
  shows "fmt_groups gs e i = (if length gs \<le> i then [] else CHR '':'' # hex_groups (drop i gs))"
  using assms
proof (induction "length gs - i" arbitrary: i)
  case 0
  then show ?case by (simp add: fmt_groups.simps)
next
  case (Suc n)
  then have lt: "i < length gs" by simp
  have "fmt_groups gs e (Suc i)
      = (if length gs \<le> Suc i then [] else CHR '':'' # hex_groups (drop (Suc i) gs))"
    using Suc by (intro Suc.hyps(1)) (auto simp: less_Suc_eq)
  moreover have "fmt_groups gs e i = CHR '':'' # hex (gs ! i) @ fmt_groups gs e (Suc i)"
    using lt Suc.prems by (subst fmt_groups.simps) (auto split: option.splits)
  ultimately show ?case
    using lt by (auto simp: hex_groups_Cons simp flip: Cons_nth_drop_Suc)
qed

lemma fmt_groups_None:
  assumes "gs \<noteq> []"
  shows "fmt_groups gs None 0 = hex_groups gs"
proof -
  have "fmt_groups gs None (Suc 0)
      = (if length gs \<le> Suc 0 then [] else CHR '':'' # hex_groups (drop (Suc 0) gs))"
    by (rule fmt_groups_after) simp_all
  then show ?thesis
    using assms by (subst fmt_groups.simps) (cases gs, auto simp: hex_groups_Cons)
qed

lemma fmt_groups_ellipsis:
  assumes "e0 < e1" and "e1 \<le> length gs"
  shows "fmt_groups gs (Some (e0, e1)) e0 = ''::'' @ hex_groups (drop e1 gs)"
proof (cases "e1 = length gs")
  case True
  with assms show ?thesis by (subst fmt_groups.simps) simp
next
  case False
  with assms have lt: "e1 < length gs" by simp
  with assms have "fmt_groups gs (Some (e0, e1)) (Suc e1)
      = (if length gs \<le> Suc e1 then [] else CHR '':'' # hex_groups (drop (Suc e1) gs))"
    by (intro fmt_groups_after) auto
  then show ?thesis
    using assms lt by (subst fmt_groups.simps) (auto simp: hex_groups_Cons simp flip: Cons_nth_drop_Suc)
qed

lemma fmt_groups_Some:
  assumes "i \<le> e0" and "e0 < e1" and "e1 \<le> length gs"
  shows "fmt_groups gs (Some (e0, e1)) i
    = (if i < e0 \<and> 0 < i then '':'' else []) @ hex_groups (take (e0 - i) (drop i gs))
      @ ''::'' @ hex_groups (drop e1 gs)"
  using assms(1)
proof (induction "e0 - i" arbitrary: i)
  case 0
  with assms show ?case by (simp add: fmt_groups_ellipsis)
next
  case (Suc n)
  then have lt: "i < e0" "i < length gs" using assms by simp_all
  have "drop i gs = gs ! i # drop (Suc i) gs"
    using lt by (simp add: Cons_nth_drop_Suc)
  moreover have "e0 - i = Suc (e0 - Suc i)" using lt by simp
  ultimately have tk: "take (e0 - i) (drop i gs) = gs ! i # take (e0 - Suc i) (drop (Suc i) gs)"
    by simp
  have "fmt_groups gs (Some (e0, e1)) (Suc i)
      = (if Suc i < e0 \<and> 0 < Suc i then '':'' else []) @ hex_groups (take (e0 - Suc i) (drop (Suc i) gs))
        @ ''::'' @ hex_groups (drop e1 gs)"
    using Suc lt by (intro Suc.hyps(1)) simp_all
  then show ?case
    using lt assms by (subst fmt_groups.simps) (auto simp: tk hex_groups_Cons)
qed

subsection \<open>The reading loop on the printed form\<close>

lemma xtoi_group:
  assumes "g < 0x10000" and "s = [] \<or> hd s = CHR '':''"
  shows "xtoi (hex g @ s) = (g, length (hex g), True)"
  using assms by (intro xtoi_hex) (auto simp: big_def digit_val_def Let_def)

lemma parse_groups_step:
  assumes "g < 0x10000"
  shows "parse_groups (Suc k) acc e (hex g) = Some (acc @ group_bytes [g], e, [])"
    and "t \<noteq> [] \<Longrightarrow> hd t \<noteq> CHR '':'' \<Longrightarrow>
      parse_groups (Suc k) acc e (hex g @ CHR '':'' # t) = parse_groups k (acc @ group_bytes [g]) e t"
    and "parse_groups (Suc k) acc None (hex g @ CHR '':'' # CHR '':'' # t)
      = (if t = [] then Some (acc @ group_bytes [g], Some (length acc + 2), [])
         else parse_groups k (acc @ group_bytes [g]) (Some (length acc + 2)) t)"
  using assms xtoi_group [of g "[]"] xtoi_group [of g "CHR '':'' # t"]
    xtoi_group [of g "CHR '':'' # CHR '':'' # t"]
  by (simp_all add: Let_def nth_append)

lemma parse_groups_plain:
  assumes "gs \<noteq> []" and "\<forall>g \<in> set gs. g < 0x10000" and "length gs \<le> k"
  shows "parse_groups k acc e (hex_groups gs) = Some (acc @ group_bytes gs, e, [])"
  using assms
proof (induction gs arbitrary: k acc)
  case Nil
  then show ?case by simp
next
  case (Cons g gs)
  then obtain k' where k: "k = Suc k'" by (cases k) auto
  show ?case
  proof (cases "gs = []")
    case True
    with Cons show ?thesis by (simp add: k parse_groups_step del: parse_groups.simps)
  next
    case False
    then have "parse_groups k acc e (hex_groups (g # gs))
        = parse_groups k' (acc @ group_bytes [g]) e (hex_groups gs)"
      using Cons.prems hd_hex_groups [of gs "[]"]
      by (simp add: hex_groups_Cons k parse_groups_step del: parse_groups.simps)
    also have "\<dots> = Some ((acc @ group_bytes [g]) @ group_bytes gs, e, [])"
      using Cons False k by (intro Cons.IH) simp_all
    finally show ?thesis by simp
  qed
qed

lemma parse_groups_ellipsis:
  assumes "gs \<noteq> []" and "\<forall>g \<in> set gs \<union> set hs. g < 0x10000" and "length gs + length hs \<le> k"
  shows "parse_groups k acc None (hex_groups gs @ ''::'' @ hex_groups hs)
    = Some (acc @ group_bytes gs @ group_bytes hs, Some (length acc + 2 * length gs), [])"
  using assms
proof (induction gs arbitrary: k acc)
  case Nil
  then show ?case by simp
next
  case (Cons g gs)
  then obtain k' where k: "k = Suc k'" by (cases k) auto
  show ?case
  proof (cases "gs = []")
    case True
    show ?thesis
    proof (cases "hs = []")
      case True
      with \<open>gs = []\<close> Cons.prems k show ?thesis
        by (simp add: parse_groups_step del: parse_groups.simps)
    next
      case False
      then have "parse_groups k' (acc @ group_bytes [g]) (Some (length acc + 2)) (hex_groups hs)
          = Some ((acc @ group_bytes [g]) @ group_bytes hs, Some (length acc + 2), [])"
        using Cons.prems k by (intro parse_groups_plain) auto
      with False \<open>gs = []\<close> Cons.prems k show ?thesis
        by (simp add: parse_groups_step del: parse_groups.simps)
    qed
  next
    case False
    then have "parse_groups k acc None (hex_groups (g # gs) @ ''::'' @ hex_groups hs)
        = parse_groups k' (acc @ group_bytes [g]) None (hex_groups gs @ ''::'' @ hex_groups hs)"
      using Cons.prems hd_hex_groups [of gs "''::'' @ hex_groups hs"]
      by (simp add: hex_groups_Cons [of g gs] k parse_groups_step del: parse_groups.simps)
    also have "\<dots> = Some ((acc @ group_bytes [g]) @ group_bytes gs @ group_bytes hs,
        Some (length (acc @ group_bytes [g]) + 2 * length gs), [])"
      using Cons.prems False k by (intro Cons.IH) simp_all
    finally show ?thesis by simp
  qed
qed

subsection \<open>The round trip\<close>

lemma ParseIP_colon:
  assumes "CHR ''.'' \<notin> set s" and "CHR '':'' \<in> set s"
  shows "ParseIP s = parseIPv6 s"
proof -
  have "parse_dispatch t xs = parseIPv6 t" if "CHR ''.'' \<notin> set xs" "CHR '':'' \<in> set xs" for t xs
    using that by (induction xs) auto
  then show ?thesis using assms by (simp add: ParseIP_def)
qed

lemma take_2_hex_groups:
  assumes "gs \<noteq> []"
  shows "take 2 (hex_groups gs @ s) \<noteq> ''::''"
proof -
  have "hex_groups gs @ s \<noteq> []" using assms by simp
  then show ?thesis
    using hd_hex_groups [OF assms, of s] by (cases "hex_groups gs @ s") auto
qed

lemma parseIPv6_plain:
  assumes "\<forall>g \<in> set gs. g < 0x10000" and "length gs = 8"
  shows "parseIPv6 (hex_groups gs) = group_bytes gs"
proof -
  have "gs \<noteq> []" using assms(2) by auto
  then show ?thesis
    using parse_groups_plain [of gs 8 "[]" None] take_2_hex_groups [of gs "[]"] assms
    by (simp add: parseIPv6_def expand_ellipsis_def)
qed

lemma parseIPv6_ellipsis:
  assumes "\<forall>g \<in> set gs \<union> set hs. g < 0x10000" and "length gs + length hs < 8"
  shows "parseIPv6 (hex_groups gs @ ''::'' @ hex_groups hs)
    = group_bytes (gs @ replicate (8 - (length gs + length hs)) 0 @ hs)"
proof (cases "gs = []")
  case True
  show ?thesis
  proof (cases "hs = []")
    case True
    with \<open>gs = []\<close> show ?thesis
      by (simp add: parseIPv6_def group_bytes_zeros)
  next
    case False
    then have "parse_groups 8 [] (Some 0) (hex_groups hs) = Some ([] @ group_bytes hs, Some 0, [])"
      using assms by (intro parse_groups_plain) auto
    with \<open>gs = []\<close> assms(2) False show ?thesis
      by (simp add: parseIPv6_def expand_ellipsis_def group_bytes_zeros diff_mult_distrib2)
  qed
next
  case False
  have "parse_groups 8 [] None (hex_groups gs @ ''::'' @ hex_groups hs)
      = Some (group_bytes gs @ group_bytes hs, Some (2 * length gs), [])"
    using assms False parse_groups_ellipsis [of gs hs 8 "[]"] by simp
  with False assms(2) take_2_hex_groups [OF False, of "''::'' @ hex_groups hs"] show ?thesis
    by (simp add: parseIPv6_def expand_ellipsis_def group_bytes_zeros diff_mult_distrib2)
qed

lemma ParseIP_fmt_groups:
  assumes "\<forall>g \<in> set gs. g < 0x10000" and "length gs = 8"
  shows "ParseIP (fmt_groups gs (ellipsis gs) 0) = group_bytes gs"
proof (cases "ellipsis gs")
  case None
  obtain g h t where gs: "gs = g # h # t"
    using assms(2) by (cases gs; cases "tl gs") auto
  have "ParseIP (hex_groups gs) = parseIPv6 (hex_groups gs)"
    by (intro ParseIP_colon hex_groups_no_dot) (simp add: gs)
  then show ?thesis
    using None assms parseIPv6_plain [of gs] gs by (simp add: fmt_groups_None)
next
  case (Some r)
  then obtain a b where r: "ellipsis gs = Some (a, b)" by (cases r) auto
  then have z: "zero_run gs (a, b)" by (simp add: ellipsis_zeros)
  then have ab: "a < b" "b \<le> 8" by (simp_all add: zero_run_def assms(2))
  let ?s = "hex_groups (take a gs) @ ''::'' @ hex_groups (drop b gs)"
  have "fmt_groups gs (ellipsis gs) 0 = ?s"
    using ab assms(2) fmt_groups_Some [of 0 a b gs] by (simp add: r)
  moreover have "ParseIP ?s = parseIPv6 ?s"
    by (rule ParseIP_colon) (simp_all add: hex_groups_no_dot)
  moreover have "parseIPv6 ?s = group_bytes (take a gs @ replicate (b - a) 0 @ drop b gs)"
    using assms ab by (subst parseIPv6_ellipsis)
      (auto dest: in_set_takeD in_set_dropD simp: diff_diff_left)
  ultimately show ?thesis
    by (simp only: zero_run_split [OF z, symmetric])
qed

theorem ParseIP_IP_String:
  assumes "length ip \<in> {0, 4, 16}"
  shows "ParseIP (IP_String ip) = To16 ip"
proof -
  consider "ip = []" | "length ip = 4" | "length ip = 16" "take 12 ip = v4InV6Prefix"
    | "length ip = 16" "take 12 ip \<noteq> v4InV6Prefix"
    using assms by auto
  then show ?thesis
  proof cases
    case 1
    then show ?thesis by (simp add: IP_String_def ParseIP_nil To16_def)
  next
    case 2
    then have "IP_String ip = dotted ip" by (auto simp: IP_String_def To4_def)
    then show ?thesis by (simp add: ParseIP_dotted To16_def 2)
  next
    case 3
    then have "IP_String ip = dotted (drop 12 ip)" by (auto simp: IP_String_def To4_def)
    then show ?thesis
      using 3 ParseIP_dotted [of "drop 12 ip"] append_take_drop_id [of 12 ip] by (simp add: To16_def)
  next
    case 4
    then have "IP_String ip = fmt_groups (groups ip) (ellipsis (groups ip)) 0"
      by (auto simp: IP_String_def To4_def)
    moreover have "\<forall>g \<in> set (groups ip). g < 0x10000" by (simp add: groups_bound)
    ultimately show ?thesis
      using 4 ParseIP_fmt_groups [of "groups ip"] by (simp add: length_groups groups_bytes To16_def)
  qed
qed

section \<open>What a parsed address looks like\<close>

lemma parse_octets_length: "parse_octets k first s = Some (p, r) \<Longrightarrow> length p = k"
  by (induction k first s arbitrary: p r rule: parse_octets.induct)
    (auto simp: Let_def split: if_splits prod.splits option.splits)

lemma length_parseIPv4: "length (parseIPv4 s) = 0 \<or> length (parseIPv4 s) = 16"
  by (auto simp: parseIPv4_def v4InV6Prefix_def dest: parse_octets_length split: option.splits)

lemma parse_groups_length:
  assumes "parse_groups k acc e s = Some (acc', e', r)" and "length acc + 2 * k = 16"
    and "\<forall>j. e = Some j \<longrightarrow> j \<le> length acc"
  shows "length acc' \<le> 16 \<and> (\<forall>j. e' = Some j \<longrightarrow> j \<le> length acc')"
  using assms
proof (induction k acc e s rule: parse_groups.induct)
  case (1 acc e s)
  then show ?case by simp
next
  case (2 k acc e s)
  obtain n c ok where x: "xtoi s = (n, c, ok)" by (metis prod_cases3)
  have ip4: "length (parseIPv4 s) = 16" if "parseIPv4 s \<noteq> []"
    using that length_parseIPv4 [of s] by auto
  show ?case
  proof (cases "c < length s \<and> s ! c = CHR ''.''")
    case True
    with "2.prems" x ip4 show ?thesis
      by (auto split: if_splits)
  next
    case False
    let ?acc = "acc @ [of_nat (n div 256), of_nat n]"
    have ok: "ok" "\<not> 0xFFFF < n" using "2.prems"(1) x by (auto split: if_splits)
    have bound: "length ?acc + 2 * k = 16" using "2.prems"(2) by simp
    consider "drop c s = []" "acc' = ?acc" "e' = e"
      | "tl (tl (drop c s)) = []" "acc' = ?acc" "e' = Some (length ?acc)"
      | "parse_groups k ?acc (Some (length ?acc)) (tl (tl (drop c s))) = Some (acc', e', r)"
        "\<not> (drop c s = [])" "\<not> (hd (drop c s) \<noteq> CHR '':'' \<or> length (drop c s) = 1)"
        "hd (tl (drop c s)) = CHR '':''" "\<not> e \<noteq> None" "tl (tl (drop c s)) \<noteq> []"
      | "parse_groups k ?acc e (tl (drop c s)) = Some (acc', e', r)"
        "\<not> (drop c s = [])" "\<not> (hd (drop c s) \<noteq> CHR '':'' \<or> length (drop c s) = 1)"
        "hd (tl (drop c s)) \<noteq> CHR '':''"
      using "2.prems"(1) x ok False by (auto simp: Let_def split: if_splits)
    then show ?thesis
    proof cases
      case 1
      with "2.prems" bound show ?thesis by auto
    next
      case 2
      with bound show ?thesis by simp
    next
      case 3
      with bound ok False show ?thesis
        by (intro "2.IH"(1) [OF x [symmetric] refl _ _ refl refl]) simp_all
    next
      case 4
      with bound ok False "2.prems"(3) show ?thesis
        by (intro "2.IH"(2) [OF x [symmetric] refl _ _ refl refl]) auto
    qed
  qed
qed

lemma length_parseIPv6: "length (parseIPv6 s) = 0 \<or> length (parseIPv6 s) = 16"
proof -
  let ?e = "if take 2 s = ''::'' then Some 0 else None"
  let ?s = "if take 2 s = ''::'' then drop 2 s else s"
  have "length (expand_ellipsis acc e) = 0 \<or> length (expand_ellipsis acc e) = 16"
    if "parse_groups 8 [] ?e ?s = Some (acc, e, r)" for acc e r
  proof -
    have "length acc \<le> 16 \<and> (\<forall>j. e = Some j \<longrightarrow> j \<le> length acc)"
      by (rule parse_groups_length [OF that]) (auto split: if_splits)
    then show ?thesis by (auto simp: expand_ellipsis_def split: option.splits)
  qed
  then show ?thesis
    by (auto simp: parseIPv6_def Let_def split: option.splits if_splits)
qed

lemma length_ParseIP: "length (ParseIP s) = 0 \<or> length (ParseIP s) = 16"
proof -
  have "length (parse_dispatch s t) = 0 \<or> length (parse_dispatch s t) = 16" for t
    using length_parseIPv4 [of s] length_parseIPv6 [of s] by (induction t) auto
  then show ?thesis by (simp add: ParseIP_def)
qed

section \<open>The text of an address\<close>

lemma IP_String_To16:
  assumes "length ip \<in> {0, 4, 16}"
  shows "IP_String (To16 ip) = IP_String ip"
proof (cases "length ip = 4")
  case True
  then have "To4 (To16 ip) = ip" "length (To16 ip) = 16"
    by (simp_all add: To16_def To4_def v4InV6Prefix_def)
  with True show ?thesis by (auto simp: IP_String_def To4_def)
next
  case False
  with assms show ?thesis by (auto simp: To16_def)
qed

text \<open>
  The text of an address is faithful: two addresses have the same text exactly when they have the
  same 16-byte form.
\<close>

lemma IP_text_faithful:
  assumes "length a \<in> {0, 4, 16}" and "length b \<in> {0, 4, 16}"
  shows "IP_String a = IP_String b \<longleftrightarrow> To16 a = To16 b"
  using assms by (metis ParseIP_IP_String IP_String_To16)

end
