(* ===== verification/ShimRpc.thy ===== *)
theory ShimRpc
  imports GoPrelude
begin

text \<open>
  The remote call between the shim and the registrar (\<open>internal/shimrpc/shimrpc.pb.go\<close>): its
  two messages, the getters, the client stub and the server's method handler. The transport
  (\<open>grpc.Invoke\<close>, the decoder and the interceptor that the gRPC server passes to the handler)
  is not part of the repository and is an argument of the definitions that use it, as is the
  protobuf runtime: the printing of messages and the tables that the \<open>init\<close> functions fill.
\<close>

section \<open>Messages\<close>

text \<open>
  A proto3 enumeration is open: the field holds any \<open>int32\<close>, the two names are constants.
\<close>

type_synonym RegistrarRequest_Action = int32

definition RegistrarRequest_REGISTER :: RegistrarRequest_Action where
  "RegistrarRequest_REGISTER = 0"

definition RegistrarRequest_DEREGISTER :: RegistrarRequest_Action where
  "RegistrarRequest_DEREGISTER = 1"

definition RegistrarRequest_Action_name :: "int32 \<rightharpoonup> string" where
  "RegistrarRequest_Action_name = [0 \<mapsto> ''REGISTER'', 1 \<mapsto> ''DEREGISTER'']"

definition RegistrarRequest_Action_value :: "string \<rightharpoonup> int32" where
  "RegistrarRequest_Action_value = [''REGISTER'' \<mapsto> 0, ''DEREGISTER'' \<mapsto> 1]"

record RegistrarRequest =
  req_FrontendAddr :: string
  req_FrontendPort :: int32
  req_BackendAddr :: string
  req_BackendPort :: int32
  req_Action :: RegistrarRequest_Action
  req_EnvironmentName :: string
  req_ServiceName :: string
  req_ProxyMode :: string

record RegistrarReply =
  reply_StatusCode :: int32

text \<open>\<open>Reset\<close> and the zero values that \<open>new\<close> and the decoder start from.\<close>

definition RegistrarRequest_zero :: RegistrarRequest where
  "RegistrarRequest_zero = \<lparr>req_FrontendAddr = [], req_FrontendPort = 0, req_BackendAddr = [],
     req_BackendPort = 0, req_Action = 0, req_EnvironmentName = [], req_ServiceName = [],
     req_ProxyMode = []\<rparr>"

definition RegistrarReply_zero :: RegistrarReply where
  "RegistrarReply_zero = \<lparr>reply_StatusCode = 0\<rparr>"

text \<open>The getters accept a nil receiver, here \<^const>\<open>None\<close>.\<close>

definition GetFrontendAddr :: "RegistrarRequest option \<Rightarrow> string" where
  "GetFrontendAddr m = (case m of Some r \<Rightarrow> req_FrontendAddr r | None \<Rightarrow> [])"

definition GetFrontendPort :: "RegistrarRequest option \<Rightarrow> int32" where
  "GetFrontendPort m = (case m of Some r \<Rightarrow> req_FrontendPort r | None \<Rightarrow> 0)"

definition GetBackendAddr :: "RegistrarRequest option \<Rightarrow> string" where
  "GetBackendAddr m = (case m of Some r \<Rightarrow> req_BackendAddr r | None \<Rightarrow> [])"

definition GetBackendPort :: "RegistrarRequest option \<Rightarrow> int32" where
  "GetBackendPort m = (case m of Some r \<Rightarrow> req_BackendPort r | None \<Rightarrow> 0)"

definition GetAction :: "RegistrarRequest option \<Rightarrow> RegistrarRequest_Action" where
  "GetAction m = (case m of Some r \<Rightarrow> req_Action r | None \<Rightarrow> RegistrarRequest_REGISTER)"

definition GetEnvironmentName :: "RegistrarRequest option \<Rightarrow> string" where
  "GetEnvironmentName m = (case m of Some r \<Rightarrow> req_EnvironmentName r | None \<Rightarrow> [])"

definition GetServiceName :: "RegistrarRequest option \<Rightarrow> string" where
  "GetServiceName m = (case m of Some r \<Rightarrow> req_ServiceName r | None \<Rightarrow> [])"

definition GetProxyMode :: "RegistrarRequest option \<Rightarrow> string" where
  "GetProxyMode m = (case m of Some r \<Rightarrow> req_ProxyMode r | None \<Rightarrow> [])"

definition GetStatusCode :: "RegistrarReply option \<Rightarrow> int32" where
  "GetStatusCode m = (case m of Some r \<Rightarrow> reply_StatusCode r | None \<Rightarrow> 0)"

text \<open>A nil request reads like the zero request, as proto3 promises for an absent message.\<close>

lemma getters_nil:
  "GetFrontendAddr None = GetFrontendAddr (Some RegistrarRequest_zero)"
  "GetFrontendPort None = GetFrontendPort (Some RegistrarRequest_zero)"
  "GetBackendAddr None = GetBackendAddr (Some RegistrarRequest_zero)"
  "GetBackendPort None = GetBackendPort (Some RegistrarRequest_zero)"
  "GetAction None = GetAction (Some RegistrarRequest_zero)"
  "GetEnvironmentName None = GetEnvironmentName (Some RegistrarRequest_zero)"
  "GetServiceName None = GetServiceName (Some RegistrarRequest_zero)"
  "GetProxyMode None = GetProxyMode (Some RegistrarRequest_zero)"
  "GetStatusCode None = GetStatusCode (Some RegistrarReply_zero)"
  by (simp_all add: GetFrontendAddr_def GetFrontendPort_def GetBackendAddr_def GetBackendPort_def
      GetAction_def GetEnvironmentName_def GetServiceName_def GetProxyMode_def GetStatusCode_def
      RegistrarRequest_zero_def RegistrarReply_zero_def RegistrarRequest_REGISTER_def)

section \<open>Client stub and server handler\<close>

text \<open>
  \<open>'w\<close> is the state of the world the call runs in. \<open>Invoke method in out\<close> stands for
  \<open>grpc.Invoke\<close>: it gives the error and what it wrote to the reply.
\<close>

type_synonym 'w rpc = "'w \<Rightarrow> (RegistrarReply option \<times> goerror option) \<times> 'w"
type_synonym 'w invoke =
  "string \<Rightarrow> RegistrarRequest \<Rightarrow> RegistrarReply \<Rightarrow> 'w \<Rightarrow> (RegistrarReply \<times> goerror option) \<times> 'w"
type_synonym 's server = "RegistrarRequest \<Rightarrow> 's \<Rightarrow> (RegistrarReply \<times> goerror option) \<times> 's"

definition FullMethod :: string where
  "FullMethod = ''/shimrpc.Registrar/Register''"

definition Client_Register :: "'w invoke \<Rightarrow> RegistrarRequest \<Rightarrow> 'w rpc" where
  "Client_Register Invoke req w =
     (case Invoke ''/shimrpc.Registrar/Register'' req RegistrarReply_zero w of
        ((out, Some err), w') \<Rightarrow> ((None, Some err), w')
      | ((out, None), w') \<Rightarrow> ((Some out, None), w'))"

text \<open>A client on a connection is the interface \<open>RegistrarClient\<close>: the call of its one method.\<close>

definition NewRegistrarClient :: "('conn \<Rightarrow> 'w invoke) \<Rightarrow> 'conn \<Rightarrow> RegistrarRequest \<Rightarrow> 'w rpc" where
  [simp]: "NewRegistrarClient Invoke cc = Client_Register (Invoke cc)"

text \<open>The service description, its one method with the handler that the name stands for.\<close>

record Registrar_serviceDesc =
  desc_ServiceName :: string
  desc_MethodName :: string
  desc_Metadata :: string

definition serviceDesc :: Registrar_serviceDesc where
  "serviceDesc = \<lparr>desc_ServiceName = ''shimrpc.Registrar'', desc_MethodName = ''Register'',
     desc_Metadata = ''shimrpc.proto''\<rparr>"

text \<open>
  The method handler that the gRPC server calls. \<open>dec\<close> decodes the message into a fresh
  request; an interceptor gets the request, the method's name and the rest of the handler.
\<close>

definition lift_reply :: "'s server \<Rightarrow> RegistrarRequest \<Rightarrow> 's rpc" where
  "lift_reply srv req s = (case srv req s of ((r, e), s') \<Rightarrow> ((Some r, e), s'))"

definition Registrar_Register_Handler ::
  "'s server \<Rightarrow> (RegistrarRequest \<Rightarrow> goerror + RegistrarRequest)
   \<Rightarrow> (RegistrarRequest \<Rightarrow> string \<Rightarrow> (RegistrarRequest \<Rightarrow> 's rpc) \<Rightarrow> 's rpc) option \<Rightarrow> 's rpc" where
  "Registrar_Register_Handler srv dec interceptor s =
     (case dec RegistrarRequest_zero of
        Inl err \<Rightarrow> ((None, Some err), s)
      | Inr req \<Rightarrow>
          (case interceptor of
             None \<Rightarrow> lift_reply srv req s
           | Some ic \<Rightarrow> ic req ''/shimrpc.Registrar/Register'' (lift_reply srv) s))"

text \<open>The client calls the method that the service description declares.\<close>

lemma FullMethod_serviceDesc:
  "FullMethod = ''/'' @ desc_ServiceName serviceDesc @ ''/'' @ desc_MethodName serviceDesc"
  by (simp add: FullMethod_def serviceDesc_def)

lemma Client_Register_FullMethod:
  "Client_Register Invoke req w =
     (case Invoke FullMethod req RegistrarReply_zero w of
        ((out, err), w') \<Rightarrow> ((if err = None then Some out else None, err), w'))"
  by (auto simp: Client_Register_def FullMethod_def split: prod.splits option.splits)

text \<open>
  What gRPC documents of a unary call: the handler of the named method runs once on the decoded
  request, and the client gets its reply, or its error and no reply. \<open>view\<close> and \<open>put\<close> locate
  the server's state in the world of the client.
\<close>

definition delivers :: "'w invoke \<Rightarrow> 's server \<Rightarrow> ('w \<Rightarrow> 's) \<Rightarrow> ('s \<Rightarrow> 'w \<Rightarrow> 'w) \<Rightarrow> bool" where
  "delivers Invoke srv view put \<longleftrightarrow>
     (\<forall>req out w. \<exists>out'.
        Invoke FullMethod req out w =
          (case Registrar_Register_Handler srv (\<lambda>_. Inr req) None (view w) of
             ((reply, err), s') \<Rightarrow>
               ((case err of None \<Rightarrow> the reply | Some _ \<Rightarrow> out', err), put s' w)))"

lemma Client_Register_delivers:
  assumes "delivers Invoke srv view put"
  shows "Client_Register Invoke req w =
    (case srv req (view w) of
       ((reply, err), s') \<Rightarrow> ((if err = None then Some reply else None, err), put s' w))"
proof -
  obtain out' where "Invoke FullMethod req RegistrarReply_zero w =
      (case Registrar_Register_Handler srv (\<lambda>_. Inr req) None (view w) of
         ((reply, err), s') \<Rightarrow> ((case err of None \<Rightarrow> the reply | Some _ \<Rightarrow> out', err), put s' w))"
    using assms unfolding delivers_def by blast
  then show ?thesis
    by (auto simp: Client_Register_FullMethod Registrar_Register_Handler_def lift_reply_def
        split: prod.splits option.splits)
qed

section \<open>The protobuf runtime\<close>

text \<open>
  What the methods of the messages and of the enumeration give to the runtime, whose \<open>EnumName\<close> and
  \<open>CompactTextString\<close> are arguments. \<open>Reset\<close> overwrites the message with the zero value.
\<close>

definition fileDescriptor0 :: "byte list" where
  "fileDescriptor0 =
     [0x1f, 0x8b, 0x08, 0x00, 0x00, 0x09, 0x6e, 0x88, 0x02, 0xff, 0x74, 0x92, 0x41, 0x4f, 0xe2, 0x40,
      0x14, 0xc7, 0x29, 0xbb, 0x14, 0x78, 0x14, 0x96, 0xcc, 0x65, 0xcb, 0x26, 0x9b, 0xed, 0x76, 0x93,
      0x0d, 0xc6, 0xa4, 0x89, 0x78, 0xf1, 0x28, 0x28, 0x31, 0x1e, 0x30, 0xa4, 0x78, 0x6f, 0x4a, 0xe7,
      0x09, 0x8d, 0x74, 0x5e, 0x9d, 0x0e, 0xc4, 0x7e, 0x6c, 0xbf, 0x81, 0x61, 0xda, 0x22, 0x1a, 0x3d,
      0xbe, 0x7f, 0x7f, 0xfd, 0xf5, 0xdf, 0x97, 0x07, 0xdd, 0x6c, 0x1d, 0x27, 0x32, 0x8d, 0xbc, 0x54,
      0x92, 0x22, 0xd6, 0x2c, 0x47, 0xf7, 0xa5, 0x0e, 0x7d, 0x1f, 0x57, 0x71, 0xa6, 0x64, 0x28, 0x7d,
      0x7c, 0xda, 0x62, 0xa6, 0xd8, 0x3f, 0xe8, 0x3e, 0x48, 0x12, 0x0a, 0x05, 0x0f, 0x42, 0xce, 0xa5,
      0x6d, 0x38, 0xc6, 0xb0, 0xed, 0x5b, 0x55, 0x38, 0xe6, 0x5c, 0xbe, 0x83, 0x52, 0x92, 0xca, 0xae,
      0x3b, 0xc6, 0xb0, 0xf1, 0x06, 0xcd, 0x49, 0x2a, 0xf6, 0x17, 0xac, 0x65, 0x18, 0x3d, 0x1e, 0x44,
      0xdf, 0xb4, 0xa8, 0x53, 0x66, 0xda, 0x73, 0x84, 0x68, 0xcd, 0x77, 0xad, 0xa9, 0x10, 0x6d, 0xb9,
      0x00, 0x33, 0x8c, 0x54, 0x4c, 0xc2, 0x6e, 0x38, 0xc6, 0xb0, 0x37, 0x72, 0xbc, 0xea, 0x6f, 0x3e,
      0x56, 0xf7, 0xc6, 0x9a, 0xf3, 0x4b, 0x9e, 0x9d, 0x40, 0x1f, 0xc5, 0x2e, 0x96, 0x24, 0x12, 0x14,
      0x2a, 0x10, 0x61, 0x82, 0xb6, 0xa9, 0x3b, 0xfc, 0x38, 0xca, 0xef, 0xc2, 0x04, 0xf7, 0x3d, 0x32,
      0x94, 0xbb, 0x38, 0xc2, 0x02, 0x6b, 0x16, 0x55, 0xcb, 0x4c, 0x23, 0xbf, 0x01, 0x52, 0x49, 0xcf,
      0x79, 0x90, 0x10, 0x47, 0xbb, 0xa5, 0x81, 0xb6, 0x4e, 0x66, 0xc4, 0xd1, 0xfd, 0x0f, 0x66, 0xf1,
      0x79, 0x66, 0x41, 0xcb, 0x9f, 0xde, 0xdc, 0x2e, 0xee, 0xa7, 0x7e, 0xbf, 0xc6, 0x7a, 0x00, 0xd7,
      0xd3, 0xc3, 0x6c, 0xb8, 0x67, 0xd0, 0x3b, 0xea, 0x9d, 0x6e, 0x72, 0xf6, 0x07, 0x3a, 0x99, 0x0a,
      0xd5, 0x36, 0x0b, 0xa2, 0xbd, 0xd9, 0xd0, 0x2b, 0x80, 0x22, 0xba, 0x22, 0x8e, 0xa3, 0x19, 0xb4,
      0x0f, 0xaf, 0xb0, 0x4b, 0x68, 0x15, 0x03, 0x4a, 0x36, 0xf8, 0x72, 0x15, 0xbf, 0x7e, 0x7e, 0xf6,
      0x28, 0xdd, 0xe4, 0x6e, 0x6d, 0x72, 0x0a, 0x83, 0x88, 0x12, 0x6f, 0x45, 0x22, 0x56, 0x92, 0x3c,
      0x14, 0x3b, 0xca, 0x2b, 0x7a, 0x62, 0x2d, 0xd6, 0x71, 0xe2, 0xa7, 0xd1, 0x7c, 0x7f, 0x29, 0x73,
      0x63, 0x69, 0xea, 0x93, 0x39, 0x7f, 0x0d, 0x00, 0x00, 0xff, 0xff, 0x60, 0xe9, 0x2c, 0x5c, 0x43,
      0x02, 0x00, 0x00]"

definition RegistrarRequest_Action_String :: "((int32 \<rightharpoonup> string) \<Rightarrow> int32 \<Rightarrow> string) \<Rightarrow> RegistrarRequest_Action \<Rightarrow> string" where
  "RegistrarRequest_Action_String EnumName x = EnumName RegistrarRequest_Action_name x"

definition RegistrarRequest_Action_EnumDescriptor :: "byte list \<times> nat list" where
  "RegistrarRequest_Action_EnumDescriptor = (fileDescriptor0, [0, 0])"

definition RegistrarRequest_Reset :: "RegistrarRequest \<Rightarrow> RegistrarRequest" where
  "RegistrarRequest_Reset m = RegistrarRequest_zero"

definition RegistrarRequest_String :: "(RegistrarRequest \<Rightarrow> string) \<Rightarrow> RegistrarRequest \<Rightarrow> string" where
  "RegistrarRequest_String CompactTextString m = CompactTextString m"

definition RegistrarRequest_Descriptor :: "byte list \<times> nat list" where
  "RegistrarRequest_Descriptor = (fileDescriptor0, [0])"

definition RegistrarReply_Reset :: "RegistrarReply \<Rightarrow> RegistrarReply" where
  "RegistrarReply_Reset m = RegistrarReply_zero"

definition RegistrarReply_String :: "(RegistrarReply \<Rightarrow> string) \<Rightarrow> RegistrarReply \<Rightarrow> string" where
  "RegistrarReply_String CompactTextString m = CompactTextString m"

definition RegistrarReply_Descriptor :: "byte list \<times> nat list" where
  "RegistrarReply_Descriptor = (fileDescriptor0, [1])"

text \<open>
  The two \<open>init\<close> functions, in the order of the file, on the tables of the runtime; a message type is
  given by the zero value that its nil pointer stands for.
\<close>

datatype message_type = RegistrarRequest_type | RegistrarReply_type

record 'p proto =
  pb_RegisterType :: "message_type \<Rightarrow> string \<Rightarrow> 'p \<Rightarrow> 'p"
  pb_RegisterEnum :: "string \<Rightarrow> (int32 \<rightharpoonup> string) \<Rightarrow> (string \<rightharpoonup> int32) \<Rightarrow> 'p \<Rightarrow> 'p"
  pb_RegisterFile :: "string \<Rightarrow> byte list \<Rightarrow> 'p \<Rightarrow> 'p"

definition init_types :: "'p proto \<Rightarrow> 'p \<Rightarrow> 'p" where
  "init_types P tables =
     (let tables = pb_RegisterType P RegistrarRequest_type ''shimrpc.RegistrarRequest'' tables;
          tables = pb_RegisterType P RegistrarReply_type ''shimrpc.RegistrarReply'' tables
      in pb_RegisterEnum P ''shimrpc.RegistrarRequest_Action'' RegistrarRequest_Action_name
           RegistrarRequest_Action_value tables)"

definition init_file :: "'p proto \<Rightarrow> 'p \<Rightarrow> 'p" where
  "init_file P tables = pb_RegisterFile P ''shimrpc.proto'' fileDescriptor0 tables"

text \<open>The service is registered with the gRPC server under its description.\<close>

definition RegisterRegistrarServer ::
  "(Registrar_serviceDesc \<Rightarrow> 's server \<Rightarrow> 'g \<Rightarrow> 'g) \<Rightarrow> 'g \<Rightarrow> 's server \<Rightarrow> 'g" where
  "RegisterRegistrarServer RegisterService s srv = RegisterService serviceDesc srv s"

text \<open>The two maps of the enumeration are each other's inverse; a reset message reads like a nil one.\<close>

lemma Action_names_inverse:
  "RegistrarRequest_Action_name a = Some s \<longleftrightarrow> RegistrarRequest_Action_value s = Some a"
  by (auto simp: RegistrarRequest_Action_name_def RegistrarRequest_Action_value_def split: if_splits)

lemma Reset_getters:
  "GetFrontendAddr (Some (RegistrarRequest_Reset m)) = GetFrontendAddr None"
  "GetFrontendPort (Some (RegistrarRequest_Reset m)) = GetFrontendPort None"
  "GetAction (Some (RegistrarRequest_Reset m)) = GetAction None"
  "GetStatusCode (Some (RegistrarReply_Reset r)) = GetStatusCode None"
  by (simp_all add: RegistrarRequest_Reset_def RegistrarReply_Reset_def getters_nil)

text \<open>As the comment in the file says; the bytes begin as a \<open>gzip\<close> file does.\<close>

lemma fileDescriptor0_length: "length fileDescriptor0 = 355"
  and fileDescriptor0_gzip: "take 3 fileDescriptor0 = [0x1f, 0x8b, 0x08]"
  by (simp_all add: fileDescriptor0_def)

end
