(* ===== verification/Registrar.thy ===== *)
theory Registrar
  imports GoNet ShimRpc
begin

text \<open>
  The registrar (\<open>internal/envoyhttp/registrar.go\<close>): the map from service names to entries, its
  look-up and its iteration, the conversion of a request to an entry, the name of an entry, and
  the gRPC method \<open>Register\<close>. An entry is never changed after it is stored, so a pointer to one
  is the entry itself. \<open>PrintRequests\<close> and the log lines are not modelled; the lock is the
  subject of the theory \<open>RegistrarLock\<close>.
\<close>

section \<open>State and operations\<close>

record Entry =
  entry_FrontendAddr :: SockAddr
  entry_BackendAddr :: SockAddr
  entry_ServiceName :: string
  entry_EnvironmentName :: string
  entry_ProxyMode :: string

record Registrar =
  entries :: "string \<rightharpoonup> Entry"

definition NewRegistrar :: Registrar where
  "NewRegistrar = \<lparr>entries = Map.empty\<rparr>"

definition GetEntry :: "Registrar \<Rightarrow> string \<Rightarrow> Entry option" where
  "GetEntry r svcName = entries r svcName"

text \<open>
  Go does not fix the order in which \<open>range\<close> visits a map, so the order is an argument: any
  list that holds each key once.
\<close>

definition range_order :: "('k \<rightharpoonup> 'v) \<Rightarrow> 'k list \<Rightarrow> bool" where
  "range_order m ks \<longleftrightarrow> distinct ks \<and> set ks = dom m"

text \<open>
  \<open>EachEntry\<close> calls \<open>fn\<close> on each entry until one call fails. \<open>fn\<close> is a closure over
  variables of the caller, whose values are the state \<open>a\<close>.
\<close>

fun each_loop ::
  "(string \<rightharpoonup> Entry) \<Rightarrow> (string \<Rightarrow> Entry \<Rightarrow> 'a \<Rightarrow> goerror option \<times> 'a) \<Rightarrow> string list \<Rightarrow> 'a
   \<Rightarrow> goerror option \<times> 'a" where
  "each_loop m fn [] a = (None, a)"
| "each_loop m fn (svcName # ks) a =
     (case m svcName of
        None \<Rightarrow> each_loop m fn ks a
      | Some entry \<Rightarrow>
          (case fn svcName entry a of
             (Some err, a') \<Rightarrow> (Some err, a')
           | (None, a') \<Rightarrow> each_loop m fn ks a'))"

definition EachEntry ::
  "string list \<Rightarrow> Registrar \<Rightarrow> (string \<Rightarrow> Entry \<Rightarrow> 'a \<Rightarrow> goerror option \<times> 'a) \<Rightarrow> 'a
   \<Rightarrow> goerror option \<times> 'a" where
  "EachEntry ks r fn a = each_loop (entries r) fn ks a"

definition RequestToEntry :: "RegistrarRequest \<Rightarrow> Entry" where
  "RequestToEntry req =
     \<lparr>entry_FrontendAddr = \<lparr>IP = ParseIP (req_FrontendAddr req), Port = scast (req_FrontendPort req)\<rparr>,
      entry_BackendAddr = \<lparr>IP = ParseIP (req_BackendAddr req), Port = scast (req_BackendPort req)\<rparr>,
      entry_ServiceName = req_ServiceName req,
      entry_EnvironmentName = req_EnvironmentName req,
      entry_ProxyMode = req_ProxyMode req\<rparr>"

definition SvcName :: "Entry \<Rightarrow> string" where
  "SvcName entry =
     (let svcName = [];
          svcName = (if 0 < length (entry_ServiceName entry) then entry_ServiceName entry else svcName);
          svcName = (if 0 < length (entry_EnvironmentName entry)
                     then svcName @ ''-'' @ entry_EnvironmentName entry else svcName);
          svcName = (if length svcName < 1 then ''unknown-'' else svcName)
      in svcName @ ''-'' @ fmt_d (sint (Port (entry_FrontendAddr entry))))"

definition unknown_action :: goerror where
  "unknown_action = ''Unknown request action. No idea what to do with it.''"

definition Register ::
  "RegistrarRequest \<Rightarrow> Registrar \<Rightarrow> (RegistrarReply \<times> goerror option) \<times> Registrar" where
  "Register req r =
     (if req_Action req = RegistrarRequest_REGISTER then
        let entry = RequestToEntry req; name = SvcName entry
        in ((\<lparr>reply_StatusCode = 1\<rparr>, None), r\<lparr>entries := (entries r)(name \<mapsto> entry)\<rparr>)
      else if req_Action req = RegistrarRequest_DEREGISTER then
        let entry = RequestToEntry req; name = SvcName entry
        in ((\<lparr>reply_StatusCode = 1\<rparr>, None), r\<lparr>entries := (entries r)(name := None)\<rparr>)
      else ((\<lparr>reply_StatusCode = 0\<rparr>, Some unknown_action), r))"

text \<open>The state after a sequence of calls.\<close>

fun registrar_run :: "RegistrarRequest list \<Rightarrow> Registrar \<Rightarrow> Registrar" where
  "registrar_run [] r = r"
| "registrar_run (req # reqs) r = registrar_run reqs (snd (Register req r))"

section \<open>Names\<close>

text \<open>The part of a name before the port.\<close>

definition svc_base :: "Entry \<Rightarrow> string" where
  "svc_base entry =
     (if entry_ServiceName entry = [] \<and> entry_EnvironmentName entry = [] then ''unknown-''
      else if entry_EnvironmentName entry = [] then entry_ServiceName entry
      else entry_ServiceName entry @ ''-'' @ entry_EnvironmentName entry)"

abbreviation front_port :: "Entry \<Rightarrow> int" where
  "front_port entry \<equiv> sint (Port (entry_FrontendAddr entry))"

lemma SvcName_base: "SvcName entry = svc_base entry @ CHR ''-'' # fmt_d (front_port entry)"
  by (auto simp: SvcName_def svc_base_def Let_def)

lemma SvcName_nonempty [simp]: "SvcName entry \<noteq> []"
  by (simp add: SvcName_base)

lemma SvcName_eq_iff:
  assumes "0 \<le> front_port e1" and "0 \<le> front_port e2"
  shows "SvcName e1 = SvcName e2 \<longleftrightarrow> svc_base e1 = svc_base e2 \<and> front_port e1 = front_port e2"
  using assms by (simp add: SvcName_base append_sep_eq_iff fmt_d_no_dash)

text \<open>The name that a request is filed under, which its addresses do not influence.\<close>

definition request_name :: "RegistrarRequest \<Rightarrow> string" where
  "request_name req = SvcName (RequestToEntry req)"

lemma front_port_RequestToEntry [simp]:
  "front_port (RequestToEntry req) = sint (req_FrontendPort req)"
  by (simp add: RequestToEntry_def sint_widen)

lemma request_name_cong:
  assumes "req_ServiceName r1 = req_ServiceName r2"
    and "req_EnvironmentName r1 = req_EnvironmentName r2"
    and "req_FrontendPort r1 = req_FrontendPort r2"
  shows "request_name r1 = request_name r2"
  using assms by (simp add: request_name_def SvcName_def RequestToEntry_def)

section \<open>The contract of the gRPC method\<close>

text \<open>
  What a caller of \<open>Register\<close> relies on: which names have which entries after a call. The facts
  about sequences of calls follow from it alone.
\<close>

definition is_register :: "RegistrarRequest \<Rightarrow> bool" where
  "is_register req \<longleftrightarrow> req_Action req = RegistrarRequest_REGISTER"

definition is_deregister :: "RegistrarRequest \<Rightarrow> bool" where
  "is_deregister req \<longleftrightarrow> req_Action req = RegistrarRequest_DEREGISTER"

lemma register_not_deregister: "is_register req \<Longrightarrow> \<not> is_deregister req"
  by (simp add: is_register_def is_deregister_def RegistrarRequest_REGISTER_def
      RegistrarRequest_DEREGISTER_def)

definition touches :: "string \<Rightarrow> RegistrarRequest \<Rightarrow> bool" where
  "touches name req \<longleftrightarrow> (is_register req \<or> is_deregister req) \<and> request_name req = name"

text \<open>
  The specification of the registrar's state: an entry is stored under a name exactly when
  some request registered it and no later request registered or deregistered that name.
\<close>

definition registered_by :: "RegistrarRequest list \<Rightarrow> string \<Rightarrow> Entry \<Rightarrow> bool" where
  "registered_by reqs name entry \<longleftrightarrow>
     (\<exists>i < length reqs. is_register (reqs ! i) \<and> request_name (reqs ! i) = name
        \<and> entry = RequestToEntry (reqs ! i)
        \<and> (\<forall>j < length reqs. i < j \<longrightarrow> \<not> touches name (reqs ! j)))"

lemma registered_by_Nil [simp]: "\<not> registered_by [] name entry"
  by (simp add: registered_by_def)

lemma registered_by_snoc:
  "registered_by (reqs @ [req]) name entry \<longleftrightarrow>
     (if touches name req then is_register req \<and> entry = RequestToEntry req
      else registered_by reqs name entry)"
proof -
  have "registered_by (reqs @ [req]) name entry \<longleftrightarrow>
      (is_register req \<and> request_name req = name \<and> entry = RequestToEntry req)
      \<or> (\<not> touches name req \<and> registered_by reqs name entry)"
    unfolding registered_by_def
    by (simp add: Ex_less_Suc All_less_Suc nth_append imp_conjL cong: conj_cong) blast
  then show ?thesis by (auto simp: touches_def)
qed

locale register_service =
  fixes reg :: "RegistrarRequest \<Rightarrow> 's \<Rightarrow> (RegistrarReply \<times> goerror option) \<times> 's"
    and lookup :: "'s \<Rightarrow> string \<Rightarrow> Entry option"
    and fresh :: 's
  assumes lookup_fresh: "lookup fresh name = None"
    and lookup_register: "is_register req \<Longrightarrow>
      lookup (snd (reg req s)) name
        = (if name = request_name req then Some (RequestToEntry req) else lookup s name)"
    and lookup_deregister: "is_deregister req \<Longrightarrow>
      lookup (snd (reg req s)) name = (if name = request_name req then None else lookup s name)"
    and other_rejected: "\<not> is_register req \<Longrightarrow> \<not> is_deregister req \<Longrightarrow>
      snd (reg req s) = s \<and> snd (fst (reg req s)) \<noteq> None"
    and accepted: "is_register req \<or> is_deregister req \<Longrightarrow>
      fst (reg req s) = (\<lparr>reply_StatusCode = 1\<rparr>, None)"
begin

abbreviation after :: "RegistrarRequest list \<Rightarrow> 's \<Rightarrow> 's" where
  "after reqs s \<equiv> fold (\<lambda>req s. snd (reg req s)) reqs s"

lemma lookup_untouched: "\<not> touches name req \<Longrightarrow> lookup (snd (reg req s)) name = lookup s name"
  by (cases "is_register req"; cases "is_deregister req")
    (auto simp: touches_def lookup_register lookup_deregister other_rejected)

lemma lookup_after: "lookup (after reqs fresh) name = Some entry \<longleftrightarrow> registered_by reqs name entry"
proof (induction reqs arbitrary: entry rule: rev_induct)
  case Nil
  show ?case by (simp add: lookup_fresh)
next
  case (snoc req reqs)
  then show ?case
    by (auto simp: registered_by_snoc touches_def lookup_register lookup_deregister
        lookup_untouched register_not_deregister)
qed

lemma reply_status: "reply_StatusCode (fst (fst (reg req s))) = 1 \<and> snd (fst (reg req s)) = None"
  if "is_register req \<or> is_deregister req"
  using accepted [OF that] by simp

lemma lookup_register_twice:
  assumes "is_register r1" "is_register r2" "request_name r1 = request_name r2"
  shows "lookup (after [r1, r2] s) = lookup (after [r2] s)"
  using assms by (auto simp: fun_eq_iff lookup_register)

lemma lookup_register_deregister:
  assumes "is_register r1" "is_deregister r2" "request_name r1 = request_name r2"
  shows "lookup (after [r1, r2] s) name = (if name = request_name r1 then None else lookup s name)"
  using assms by (simp add: lookup_register lookup_deregister)

lemma lookup_commute:
  assumes "request_name r1 \<noteq> request_name r2"
  shows "lookup (after [r1, r2] s) = lookup (after [r2, r1] s)"
proof
  fix name
  have "\<not> touches name r1 \<or> \<not> touches name r2"
    using assms by (auto simp: touches_def)
  then show "lookup (after [r1, r2] s) name = lookup (after [r2, r1] s) name"
    by (cases "is_register r1"; cases "is_deregister r1"; cases "is_register r2";
        cases "is_deregister r2")
      (auto simp: lookup_register lookup_deregister lookup_untouched touches_def other_rejected)
qed

end

lemma entries_Register:
  "entries (snd (Register req r)) =
     (if is_register req then (entries r)(request_name req \<mapsto> RequestToEntry req)
      else if is_deregister req then (entries r)(request_name req := None)
      else entries r)"
  by (simp add: Register_def is_register_def is_deregister_def request_name_def Let_def)

lemma Register_reply:
  "fst (Register req r) =
     (if is_register req \<or> is_deregister req then (\<lparr>reply_StatusCode = 1\<rparr>, None)
      else (\<lparr>reply_StatusCode = 0\<rparr>, Some unknown_action))"
  by (simp add: Register_def is_register_def is_deregister_def Let_def)

interpretation registrar: register_service Register GetEntry NewRegistrar
proof (unfold_locales, goal_cases)
  case (4 req s)
  then show ?case
    by (simp add: Register_reply) (simp add: Register_def is_register_def is_deregister_def)
qed (auto simp: GetEntry_def NewRegistrar_def entries_Register Register_reply
    dest: register_not_deregister)

lemma registrar_run_fold: "registrar_run reqs r = fold (\<lambda>req s. snd (Register req s)) reqs r"
  by (induction reqs arbitrary: r) simp_all

section \<open>The contract of look-up and iteration\<close>

text \<open>
  What the HTTP service relies on: \<open>EachEntry\<close> visits exactly the entries that \<open>GetEntry\<close> finds,
  each once, in the order of the keys that Go picked. The callers collect a slice.
\<close>

locale entry_source =
  fixes get :: "'r \<Rightarrow> string \<Rightarrow> Entry option"
    and order :: "'r \<Rightarrow> string list \<Rightarrow> bool"
    and each :: "string list \<Rightarrow> 'r \<Rightarrow> (string \<Rightarrow> Entry \<Rightarrow> 'x list option \<Rightarrow> goerror option \<times> 'x list option)
      \<Rightarrow> 'x list option \<Rightarrow> goerror option \<times> 'x list option"
  assumes order_keys: "order r ks \<Longrightarrow> distinct ks \<and> set ks = {k. get r k \<noteq> None}"
    and each_entry: "each ks r (\<lambda>k e a. (None, f k e a)) a =
      (None, fold (\<lambda>k a. case get r k of None \<Rightarrow> a | Some e \<Rightarrow> f k e a) ks a)"
begin

definition listed :: "string list \<Rightarrow> 'r \<Rightarrow> Entry list" where
  "listed ks r = List.map_filter (get r) ks"

lemma listed_simps [simp]:
  "listed [] r = []"
  "listed (k # ks) r = (case get r k of None \<Rightarrow> listed ks r | Some e \<Rightarrow> e # listed ks r)"
  by (simp_all add: listed_def map_filter_simps split: option.split)

lemma collect:
  "each ks r (\<lambda>k e sl. (None, slice_append sl (g e))) None =
     (None, if listed ks r = [] then None else Some (map g (listed ks r)))"
proof -
  have "fold (\<lambda>k sl. case get r k of None \<Rightarrow> sl | Some e \<Rightarrow> slice_append sl (g e)) ks sl
      = fold (\<lambda>e sl. slice_append sl (g e)) (listed ks r) sl" for sl
    by (induction ks arbitrary: sl) (auto split: option.split)
  then show ?thesis
    by (simp add: each_entry fold_slice_append)
qed

lemma set_listed: "order r ks \<Longrightarrow> set (listed ks r) = {e. \<exists>k. get r k = Some e}"
proof -
  assume o: "order r ks"
  have "set (listed ks r) = {e. \<exists>k \<in> set ks. get r k = Some e}"
    by (induction ks) (auto split: option.split)
  with order_keys [OF o] show ?thesis by auto
qed

lemma listed_order: "order r ks \<Longrightarrow> listed ks r = map (\<lambda>k. the (get r k)) ks"
proof -
  assume o: "order r ks"
  have "listed js r = map (\<lambda>k. the (get r k)) js" if "set js \<subseteq> {k. get r k \<noteq> None}" for js
    using that by (induction js) auto
  with order_keys [OF o] show ?thesis by auto
qed

end

text \<open>A source whose entries are filed under their own names.\<close>

locale named_source = entry_source get order each
  for get :: "'r \<Rightarrow> string \<Rightarrow> Entry option"
    and order :: "'r \<Rightarrow> string list \<Rightarrow> bool"
    and each :: "string list \<Rightarrow> 'r \<Rightarrow> (string \<Rightarrow> Entry \<Rightarrow> 'x list option \<Rightarrow> goerror option \<times> 'x list option)
      \<Rightarrow> 'x list option \<Rightarrow> goerror option \<times> 'x list option" +
  fixes inv :: "'r \<Rightarrow> bool"
  assumes named: "inv r \<Longrightarrow> get r k = Some e \<Longrightarrow> SvcName e = k"
begin

lemma listed_names: "inv r \<Longrightarrow> order r ks \<Longrightarrow> map SvcName (listed ks r) = ks"
proof -
  assume i: "inv r" and o: "order r ks"
  have "SvcName (the (get r k)) = k" if "k \<in> set ks" for k
    using order_keys [OF o] that named [OF i, of k] by auto
  then show ?thesis
    by (simp add: listed_order [OF o] map_idI)
qed

lemma listed_distinct: "inv r \<Longrightarrow> order r ks \<Longrightarrow> distinct (map SvcName (listed ks r))"
  using order_keys by (simp add: listed_names)

lemma get_listed: "inv r \<Longrightarrow> order r ks \<Longrightarrow> e \<in> set (listed ks r) \<Longrightarrow> get r (SvcName e) = Some e"
  using named set_listed by fastforce

end

section \<open>The invariant\<close>

text \<open>
  Every entry is filed under its own name; its ports fit an \<open>int32\<close>; its addresses are nil or
  have sixteen bytes; and there are finitely many.
\<close>

definition int32_range :: "int64 \<Rightarrow> bool" where
  "int32_range p \<longleftrightarrow> - (2 ^ 31) \<le> sint p \<and> sint p < 2 ^ 31"

definition addr_wf :: "SockAddr \<Rightarrow> bool" where
  "addr_wf a \<longleftrightarrow> (length (IP a) = 0 \<or> length (IP a) = 16) \<and> int32_range (Port a)"

definition registrar_inv :: "Registrar \<Rightarrow> bool" where
  "registrar_inv r \<longleftrightarrow>
     finite (dom (entries r))
     \<and> (\<forall>k e. entries r k = Some e \<longrightarrow>
          SvcName e = k \<and> addr_wf (entry_FrontendAddr e) \<and> addr_wf (entry_BackendAddr e))"

lemma int32_range_widen: "int32_range (scast (p :: int32))"
  using sint_ge [of p] sint_lt [of p] by (simp add: int32_range_def)

lemma RequestToEntry_wf:
  "addr_wf (entry_FrontendAddr (RequestToEntry req))" "addr_wf (entry_BackendAddr (RequestToEntry req))"
  using length_ParseIP by (auto simp: addr_wf_def RequestToEntry_def int32_range_widen)

lemma registrar_inv_new: "registrar_inv NewRegistrar"
  by (simp add: registrar_inv_def NewRegistrar_def)

lemma registrar_inv_Register: "registrar_inv r \<Longrightarrow> registrar_inv (snd (Register req r))"
  unfolding registrar_inv_def entries_Register
  by (auto simp: request_name_def RequestToEntry_wf dom_fun_upd split: if_splits)

lemma registrar_inv_run: "registrar_inv r \<Longrightarrow> registrar_inv (registrar_run reqs r)"
  by (induction reqs arbitrary: r) (simp_all add: registrar_inv_Register)

lemma each_loop_total:
  "each_loop m (\<lambda>k e a. (None, f k e a)) ks a =
     (None, fold (\<lambda>k a. case m k of None \<Rightarrow> a | Some e \<Rightarrow> f k e a) ks a)"
  by (induction ks arbitrary: a) (simp_all split: option.split)

interpretation source: named_source GetEntry "\<lambda>r. range_order (entries r)" EachEntry registrar_inv
proof (unfold_locales, goal_cases)
  case (1 r ks)
  then show ?case by (auto simp: range_order_def GetEntry_def)
next
  case (2 ks r f a)
  then show ?case by (simp add: EachEntry_def each_loop_total GetEntry_def)
next
  case (3 r k e)
  then show ?case by (simp add: registrar_inv_def GetEntry_def)
qed

text \<open>There is always an order to visit the entries in.\<close>

lemma range_order_exists: "registrar_inv r \<Longrightarrow> \<exists>ks. range_order (entries r) ks"
  unfolding registrar_inv_def range_order_def by (metis finite_distinct_list)

section \<open>Properties\<close>

text \<open>
  C8: The registrar keeps exactly what it was told: after any sequence of requests an entry is found
  under a name if and only if some request registered it there and no later request registered or
  deregistered that name; requests with an unknown action leave no trace.
\<close>

theorem registrar_keeps_last:
  "GetEntry (registrar_run reqs NewRegistrar) name = Some entry \<longleftrightarrow> registered_by reqs name entry"
  by (simp add: registrar_run_fold registrar.lookup_after)

text \<open>
  C17: In every state the registrar can reach, each entry is filed under its own name, its ports are in
  the range of an \<open>int32\<close>, its addresses are absent or have sixteen bytes, and the entries are
  finitely many, so that an iteration over them exists and ends.
\<close>

theorem registrar_wellformed:
  "registrar_inv (registrar_run reqs NewRegistrar)
   \<and> (\<exists>ks. range_order (entries (registrar_run reqs NewRegistrar)) ks)"
  using registrar_inv_run [OF registrar_inv_new] range_order_exists by blast

text \<open>
  Two entries with ports that are not negative have the same name exactly when they agree in the
  port and in the part made of the service and environment labels; the host address has no share.
\<close>

lemma SvcName_identifies:
  assumes "0 \<le> sint (Port (entry_FrontendAddr e1))" and "0 \<le> sint (Port (entry_FrontendAddr e2))"
  shows "SvcName e1 = SvcName e2 \<longleftrightarrow>
    svc_base e1 = svc_base e2 \<and> sint (Port (entry_FrontendAddr e1)) = sint (Port (entry_FrontendAddr e2))"
  using assms by (rule SvcName_eq_iff)

definition sample_entry :: "int64 \<Rightarrow> Entry" where
  "sample_entry port =
     \<lparr>entry_FrontendAddr = \<lparr>IP = [], Port = port\<rparr>, entry_BackendAddr = \<lparr>IP = [], Port = 80\<rparr>,
      entry_ServiceName = ''web'', entry_EnvironmentName = ''dev'', entry_ProxyMode = ''http''\<rparr>"

lemma SvcName_identifies_witness: "SvcName (sample_entry 8080) \<noteq> SvcName (sample_entry 8081)"
  using SvcName_identifies [of "sample_entry 8080" "sample_entry 8081"] by (simp add: sample_entry_def)

text \<open>
  C33: Requests for the same labels and port share one entry whatever their host addresses are: of two
  registrations only the second is kept, and deregistering the first port then removes the second
  as well.
\<close>

theorem same_port_shares_entry:
  assumes "is_register r1" and "is_register r2" and "is_deregister d1"
    and "req_ServiceName r1 = req_ServiceName r2" and "req_EnvironmentName r1 = req_EnvironmentName r2"
    and "req_FrontendPort r1 = req_FrontendPort r2"
    and "d1 = r1\<lparr>req_Action := RegistrarRequest_DEREGISTER\<rparr>"
  shows "GetEntry (registrar_run [r1, r2] r) (request_name r1) = Some (RequestToEntry r2)
    \<and> GetEntry (registrar_run [r1, r2, d1] r) (request_name r2) = None"
proof -
  have "request_name r1 = request_name r2" "request_name d1 = request_name r2"
    using assms by (auto intro: request_name_cong)
  with assms(1-3) show ?thesis
    by (simp add: GetEntry_def entries_Register register_not_deregister)
      (metis register_not_deregister)
qed

definition sample_request :: "string \<Rightarrow> RegistrarRequest" where
  "sample_request host = RegistrarRequest_zero
     \<lparr>req_FrontendAddr := host, req_FrontendPort := 8080, req_BackendAddr := ''172.17.0.2'',
      req_BackendPort := 80, req_ServiceName := ''web'', req_ProxyMode := ''http''\<rparr>"

lemma sample_request_actions:
  "is_register (sample_request host)"
  "is_deregister ((sample_request host)\<lparr>req_Action := RegistrarRequest_DEREGISTER\<rparr>)"
  by (simp_all add: is_register_def is_deregister_def sample_request_def RegistrarRequest_zero_def
      RegistrarRequest_REGISTER_def)

lemma same_port_shares_entry_witness:
  "GetEntry
     (registrar_run
        [sample_request ''10.0.0.1'', sample_request ''10.0.0.2'',
         (sample_request ''10.0.0.1'')\<lparr>req_Action := RegistrarRequest_DEREGISTER\<rparr>] NewRegistrar)
     (request_name (sample_request ''10.0.0.2'')) = None"
proof -
  have "req_ServiceName (sample_request h) = ''web''" "req_EnvironmentName (sample_request h) = []"
    "req_FrontendPort (sample_request h) = 8080" for h
    by (simp_all add: sample_request_def RegistrarRequest_zero_def)
  then show ?thesis
    using same_port_shares_entry [OF sample_request_actions(1) sample_request_actions(1)
        sample_request_actions(2), of "''10.0.0.1''" "''10.0.0.2''" "''10.0.0.1''" NewRegistrar]
    by simp
qed

text \<open>
  Requests for different names do not disturb each other: in either order they leave the same
  state, and the state's other names are untouched.
\<close>

lemma different_names_commute:
  assumes "request_name r1 \<noteq> request_name r2"
  shows "registrar_run [r1, r2] r = registrar_run [r2, r1] r
    \<and> (name \<notin> {request_name r1, request_name r2} \<longrightarrow>
         GetEntry (registrar_run [r1, r2] r) name = GetEntry r name)"
proof -
  have "entries (registrar_run [r1, r2] r) = entries (registrar_run [r2, r1] r)"
    using registrar.lookup_commute [OF assms, of r] by (simp add: GetEntry_def [abs_def])
  then show ?thesis
    by (auto simp: GetEntry_def entries_Register)
qed

lemma different_names_commute_witness:
  "registrar_run [sample_request ''10.0.0.1'', (sample_request [])\<lparr>req_FrontendPort := 81\<rparr>] NewRegistrar
   = registrar_run [(sample_request [])\<lparr>req_FrontendPort := 81\<rparr>, sample_request ''10.0.0.1''] NewRegistrar"
proof -
  have "request_name (sample_request ''10.0.0.1'') \<noteq> request_name ((sample_request [])\<lparr>req_FrontendPort := 81\<rparr>)"
    unfolding request_name_def
    by (subst SvcName_eq_iff) (simp_all add: sample_request_def RegistrarRequest_zero_def)
  from different_names_commute [OF this] show ?thesis by blast
qed

text \<open>
  A request whose action is neither of the two leaves the registrar as it is, and its sender gets the
  error and no reply: the status code zero that the method returns beside the error never arrives.
\<close>

lemma unknown_action_refused:
  assumes "delivers Invoke Register view put" and "\<not> is_register req" and "\<not> is_deregister req"
  shows "Client_Register Invoke req w = ((None, Some unknown_action), put (view w) w)
    \<and> Register req r = ((\<lparr>reply_StatusCode = 0\<rparr>, Some unknown_action), r)"
proof -
  have "Register req r = ((\<lparr>reply_StatusCode = 0\<rparr>, Some unknown_action), r)" for r
    using assms(2,3) by (simp add: Register_def is_register_def is_deregister_def)
  then show ?thesis by (simp add: Client_Register_delivers [OF assms(1)])
qed

text \<open>gRPC without a network: the handler runs on the state itself.\<close>

definition direct_invoke :: "Registrar invoke" where
  "direct_invoke method req out r =
     (case Registrar_Register_Handler Register (\<lambda>_. Inr req) None r of
        ((reply, err), r') \<Rightarrow> ((case reply of None \<Rightarrow> out | Some reply \<Rightarrow> reply, err), r'))"

lemma direct_delivers: "delivers direct_invoke Register id (\<lambda>r x. r)"
  unfolding delivers_def
  by (auto simp: direct_invoke_def Registrar_Register_Handler_def lift_reply_def split: prod.split option.split)

lemma unknown_action_refused_witness:
  "Client_Register direct_invoke (RegistrarRequest_zero\<lparr>req_Action := 7\<rparr>) NewRegistrar =
     ((None, Some unknown_action), NewRegistrar)"
  using unknown_action_refused [OF direct_delivers, of "RegistrarRequest_zero\<lparr>req_Action := 7\<rparr>" NewRegistrar]
  by (simp add: is_register_def is_deregister_def RegistrarRequest_REGISTER_def RegistrarRequest_DEREGISTER_def)

end
