(* ===== verification/EnvoyObjects.thy ===== *)
theory EnvoyObjects
  imports GoPrelude
begin

text \<open>
  The objects of Envoy's version 1 API that the server reports
  (\<open>internal/envoyhttp/envoy_api_objects.go\<close>). A pointer is an \<open>option\<close>. A slice is an
  \<open>option\<close> of a list, since the code tells a nil slice from an empty one; a map likewise. The
  names of the fields carry a prefix for their struct.
\<close>

section \<open>Discovery of hosts and clusters\<close>

record EnvoyService =
  svc_IPAddress :: string
  svc_LastCheckIn :: string
  svc_Port :: int64
  svc_Revision :: string
  svc_Service :: string
  svc_ServiceRepoName :: string
  svc_Tags :: "(string \<rightharpoonup> string) option"

record EnvoyCluster =
  cl_Name :: string
  cl_Type :: string
  cl_ConnectTimeoutMs :: int64
  cl_LBType :: string
  cl_ServiceName :: string

section \<open>Routes\<close>

record EnvoyRouteDecorator =
  dec_Operation :: string

record EnvoyTracingConfig =
  tr_OperationName :: string

record EnvoyTCPRoute =
  tcp_Cluster :: string
  tcp_DestinationIPList :: "string list option"
  tcp_DestinationPorts :: string
  tcp_SourceIPList :: "string list option"
  tcp_SourcePorts :: "string list option"

record EnvoyRoute =
  rt_TimeoutMs :: int64
  rt_Prefix :: string
  rt_HostRewrite :: string
  rt_Cluster :: string
  rt_Decorator :: "EnvoyRouteDecorator option"

record EnvoyHTTPVirtualHost =
  vh_Name :: string
  vh_Domains :: "string list option"
  vh_Routes :: "EnvoyRoute option list option"

record EnvoyRouteConfig =
  rc_VirtualHosts :: "EnvoyHTTPVirtualHost option list option"
  rc_Routes :: "EnvoyTCPRoute option list option"

section \<open>Filters and listeners\<close>

text \<open>A filter holds a configuration, which may hold filters again.\<close>

datatype EnvoyFilter =
  EnvoyFilter (flt_Name: string) (flt_Config: "EnvoyFilterConfig option")
and EnvoyFilterConfig =
  EnvoyFilterConfig
    (cfg_CodecType: string)
    (cfg_StatPrefix: string)
    (cfg_RouteConfig: "EnvoyRouteConfig option")
    (cfg_Filters: "EnvoyFilter option list option")
    (cfg_Tracing: "EnvoyTracingConfig option")

record EnvoyListener =
  ls_Name :: string
  ls_Address :: string
  ls_Filters :: "EnvoyFilter option list option"

section \<open>Results\<close>

record SDSResult =
  sds_Env :: string
  sds_Hosts :: "EnvoyService option list option"
  sds_Service :: string

record CDSResult =
  cds_Clusters :: "EnvoyCluster option list option"

record LDSResult =
  lds_Listeners :: "EnvoyListener option list option"

end
