(* ===== verification/FFJsonEncode.thy ===== *)
theory FFJsonEncode
  imports EnvoyObjects
begin

text \<open>
  The generated JSON encoders (\<open>MarshalJSON\<close> and \<open>MarshalJSONBuf\<close> of
  \<open>internal/envoyhttp/envoy_api_objects_ffjson.go\<close>). The buffer and the routines that print a
  string and a number belong to ffjson's library and are an argument \<open>L\<close> of the encoders; what
  the encoders rely on is \<open>fflib_ok\<close>. Go's order of a map's keys is the argument \<open>ord\<close>.
\<close>

section \<open>The library of ffjson\<close>

record 'b fflib =
  ff_new :: 'b
  ff_Bytes :: "'b \<Rightarrow> string"
  ff_WriteString :: "string \<Rightarrow> 'b \<Rightarrow> 'b"
  ff_WriteByte :: "char \<Rightarrow> 'b \<Rightarrow> 'b"
  ff_Rewind :: "nat \<Rightarrow> 'b \<Rightarrow> 'b"
  ff_WriteJsonString :: "string \<Rightarrow> 'b \<Rightarrow> 'b"
  ff_FormatBits2 :: "int64 \<Rightarrow> nat \<Rightarrow> bool \<Rightarrow> 'b \<Rightarrow> 'b"

text \<open>
  An encoder gives its error and the buffer. Inside a function a piece of code either runs to
  its end or returns from the function.
\<close>

type_synonym 'b marshalled = "goerror option \<times> 'b"

datatype 'b flow = Return "goerror option" 'b | Next 'b

fun flow_then :: "'b flow \<Rightarrow> ('b \<Rightarrow> 'b marshalled) \<Rightarrow> 'b marshalled" where
  "flow_then (Return e b) k = (e, b)"
| "flow_then (Next b) k = k b"

fun flow_bind :: "'b flow \<Rightarrow> ('b \<Rightarrow> 'b flow) \<Rightarrow> 'b flow" where
  "flow_bind (Return e b) k = Return e b"
| "flow_bind (Next b) k = k b"

text \<open>A call of another encoder, with the return of its error.\<close>

definition flow_call :: "'b marshalled \<Rightarrow> 'b flow" where
  "flow_call r = (case r of (Some err, b) \<Rightarrow> Return (Some err) b | (None, b) \<Rightarrow> Next b)"

section \<open>Slices\<close>

text \<open>
  The loop over a slice of pointers, which every struct with such a slice repeats. Its body
  returns from the whole function after it writes \<open>null\<close> for a nil element.
\<close>

fun write_ptrs ::
  "'b fflib \<Rightarrow> ('a option \<Rightarrow> 'b \<Rightarrow> 'b marshalled) \<Rightarrow> nat \<Rightarrow> 'a option list \<Rightarrow> 'b \<Rightarrow> 'b flow" where
  "write_ptrs L marshal i [] b = Next b"
| "write_ptrs L marshal i (v # vs) b =
     (let b = (if i \<noteq> 0 then ff_WriteString L '','' b else b)
      in if v = None then Return None (ff_WriteString L ''null'' b)
         else flow_bind (flow_call (marshal v b)) (write_ptrs L marshal (Suc i) vs))"

definition write_ptr_slice ::
  "'b fflib \<Rightarrow> ('a option \<Rightarrow> 'b \<Rightarrow> 'b marshalled) \<Rightarrow> 'a option list option \<Rightarrow> 'b \<Rightarrow> 'b flow" where
  "write_ptr_slice L marshal sl b =
     (case sl of
        Some vs \<Rightarrow>
          flow_bind (write_ptrs L marshal 0 vs (ff_WriteString L ''['' b))
            (\<lambda>b. Next (ff_WriteString L '']'' b))
      | None \<Rightarrow> Next (ff_WriteString L ''null'' b))"

fun write_strings :: "'b fflib \<Rightarrow> nat \<Rightarrow> string list \<Rightarrow> 'b \<Rightarrow> 'b" where
  "write_strings L i [] b = b"
| "write_strings L i (v # vs) b =
     (let b = (if i \<noteq> 0 then ff_WriteString L '','' b else b)
      in write_strings L (Suc i) vs (ff_WriteJsonString L v b))"

definition write_string_slice :: "'b fflib \<Rightarrow> string list option \<Rightarrow> 'b \<Rightarrow> 'b" where
  "write_string_slice L sl b =
     (case sl of
        Some vs \<Rightarrow> ff_WriteString L '']'' (write_strings L 0 vs (ff_WriteString L ''['' b))
      | None \<Rightarrow> ff_WriteString L ''null'' b)"

text \<open>\<open>len\<close> of a slice, zero for a nil slice.\<close>

definition slice_len :: "'a list option \<Rightarrow> nat" where
  "slice_len s = (case s of None \<Rightarrow> 0 | Some xs \<Rightarrow> length xs)"

text \<open>
  The fields tagged \<open>omitempty\<close>: nothing for an empty value, else the key, the value and a comma
  that a later \<open>Rewind(1)\<close> takes back.
\<close>

definition omitempty_string :: "'b fflib \<Rightarrow> string \<Rightarrow> string \<Rightarrow> 'b \<Rightarrow> 'b" where
  "omitempty_string L key v buf =
     (if length v \<noteq> 0
      then let buf = ff_WriteString L key buf;
               buf = ff_WriteJsonString L v buf
           in ff_WriteByte L CHR '','' buf
      else buf)"

definition omitempty_strings :: "'b fflib \<Rightarrow> string \<Rightarrow> string list option \<Rightarrow> 'b \<Rightarrow> 'b" where
  "omitempty_strings L key v buf =
     (if slice_len v \<noteq> 0
      then let buf = ff_WriteString L key buf;
               buf = write_string_slice L v buf
           in ff_WriteByte L CHR '','' buf
      else buf)"

definition omitempty_ptrs ::
  "'b fflib \<Rightarrow> string \<Rightarrow> ('a option \<Rightarrow> 'b \<Rightarrow> 'b marshalled) \<Rightarrow> 'a option list option \<Rightarrow> 'b \<Rightarrow> 'b flow" where
  "omitempty_ptrs L key marshal v buf =
     (if slice_len v \<noteq> 0
      then flow_bind (write_ptr_slice L marshal v (ff_WriteString L key buf))
             (\<lambda>buf. Next (ff_WriteByte L CHR '','' buf))
      else Next buf)"

definition omitempty_ptr ::
  "'b fflib \<Rightarrow> string \<Rightarrow> ('a option \<Rightarrow> 'b \<Rightarrow> 'b marshalled) \<Rightarrow> 'a option \<Rightarrow> 'b \<Rightarrow> 'b flow" where
  "omitempty_ptr L key marshal v buf =
     (if v \<noteq> None
      then flow_bind (flow_call (marshal v (ff_WriteString L key buf)))
             (\<lambda>buf. Next (ff_WriteByte L CHR '','' buf))
      else Next buf)"

text \<open>The end of a struct that may end in an omitted field.\<close>

definition close_rewound :: "'b fflib \<Rightarrow> 'b \<Rightarrow> 'b marshalled" where
  "close_rewound L buf =
     (let buf = ff_Rewind L 1 buf;
          buf = ff_WriteByte L CHR ''}'' buf
      in (None, buf))"

section \<open>The encoders\<close>

definition EnvoyCluster_MarshalJSONBuf ::
  "'b fflib \<Rightarrow> EnvoyCluster option \<Rightarrow> 'b \<Rightarrow> 'b marshalled" where
  "EnvoyCluster_MarshalJSONBuf L mj buf =
     (case mj of
        None \<Rightarrow> (None, ff_WriteString L ''null'' buf)
      | Some mj \<Rightarrow>
          let buf = ff_WriteString L ''{\"name\":'' buf;
              buf = ff_WriteJsonString L (cl_Name mj) buf;
              buf = ff_WriteString L '',\"type\":'' buf;
              buf = ff_WriteJsonString L (cl_Type mj) buf;
              buf = ff_WriteString L '',\"connect_timeout_ms\":'' buf;
              buf = ff_FormatBits2 L (cl_ConnectTimeoutMs mj) 10 (sint (cl_ConnectTimeoutMs mj) < 0) buf;
              buf = ff_WriteString L '',\"lb_type\":'' buf;
              buf = ff_WriteJsonString L (cl_LBType mj) buf;
              buf = ff_WriteString L '',\"service_name\":'' buf;
              buf = ff_WriteJsonString L (cl_ServiceName mj) buf;
              buf = ff_WriteByte L CHR ''}'' buf
          in (None, buf))"

definition CDSResult_MarshalJSONBuf ::
  "'b fflib \<Rightarrow> CDSResult option \<Rightarrow> 'b \<Rightarrow> 'b marshalled" where
  "CDSResult_MarshalJSONBuf L mj buf =
     (case mj of
        None \<Rightarrow> (None, ff_WriteString L ''null'' buf)
      | Some mj \<Rightarrow>
          let buf = ff_WriteString L ''{\"clusters\":'' buf
          in flow_then (write_ptr_slice L (EnvoyCluster_MarshalJSONBuf L) (cds_Clusters mj) buf)
               (\<lambda>buf. (None, ff_WriteByte L CHR ''}'' buf)))"

definition EnvoyTracingConfig_MarshalJSONBuf ::
  "'b fflib \<Rightarrow> EnvoyTracingConfig option \<Rightarrow> 'b \<Rightarrow> 'b marshalled" where
  "EnvoyTracingConfig_MarshalJSONBuf L mj buf =
     (case mj of
        None \<Rightarrow> (None, ff_WriteString L ''null'' buf)
      | Some mj \<Rightarrow>
          let buf = ff_WriteString L ''{\"operation_name\":'' buf;
              buf = ff_WriteJsonString L (tr_OperationName mj) buf;
              buf = ff_WriteByte L CHR ''}'' buf
          in (None, buf))"

definition EnvoyRouteDecorator_MarshalJSONBuf ::
  "'b fflib \<Rightarrow> EnvoyRouteDecorator option \<Rightarrow> 'b \<Rightarrow> 'b marshalled" where
  "EnvoyRouteDecorator_MarshalJSONBuf L mj buf =
     (case mj of
        None \<Rightarrow> (None, ff_WriteString L ''null'' buf)
      | Some mj \<Rightarrow>
          let buf = ff_WriteString L ''{ '' buf;
              buf = omitempty_string L ''\"operation\":'' (dec_Operation mj) buf
          in close_rewound L buf)"

definition EnvoyRoute_MarshalJSONBuf ::
  "'b fflib \<Rightarrow> EnvoyRoute option \<Rightarrow> 'b \<Rightarrow> 'b marshalled" where
  "EnvoyRoute_MarshalJSONBuf L mj buf =
     (case mj of
        None \<Rightarrow> (None, ff_WriteString L ''null'' buf)
      | Some mj \<Rightarrow>
          let buf = ff_WriteString L ''{ \"timeout_ms\":'' buf;
              buf = ff_FormatBits2 L (rt_TimeoutMs mj) 10 (sint (rt_TimeoutMs mj) < 0) buf;
              buf = ff_WriteString L '',\"prefix\":'' buf;
              buf = ff_WriteJsonString L (rt_Prefix mj) buf;
              buf = ff_WriteString L '',\"host_rewrite\":'' buf;
              buf = ff_WriteJsonString L (rt_HostRewrite mj) buf;
              buf = ff_WriteString L '',\"cluster\":'' buf;
              buf = ff_WriteJsonString L (rt_Cluster mj) buf;
              buf = ff_WriteByte L CHR '','' buf
          in flow_then
               (omitempty_ptr L ''\"decorator\":'' (EnvoyRouteDecorator_MarshalJSONBuf L) (rt_Decorator mj) buf)
               (close_rewound L))"

definition EnvoyTCPRoute_MarshalJSONBuf ::
  "'b fflib \<Rightarrow> EnvoyTCPRoute option \<Rightarrow> 'b \<Rightarrow> 'b marshalled" where
  "EnvoyTCPRoute_MarshalJSONBuf L mj buf =
     (case mj of
        None \<Rightarrow> (None, ff_WriteString L ''null'' buf)
      | Some mj \<Rightarrow>
          let buf = ff_WriteString L ''{ \"cluster\":'' buf;
              buf = ff_WriteJsonString L (tcp_Cluster mj) buf;
              buf = ff_WriteByte L CHR '','' buf;
              buf = omitempty_strings L ''\"destination_ip_list\":'' (tcp_DestinationIPList mj) buf;
              buf = omitempty_string L ''\"destination_ports\":'' (tcp_DestinationPorts mj) buf;
              buf = omitempty_strings L ''\"source_ip_list\":'' (tcp_SourceIPList mj) buf;
              buf = omitempty_strings L ''\"source_ports\":'' (tcp_SourcePorts mj) buf
          in close_rewound L buf)"

definition EnvoyHTTPVirtualHost_MarshalJSONBuf ::
  "'b fflib \<Rightarrow> EnvoyHTTPVirtualHost option \<Rightarrow> 'b \<Rightarrow> 'b marshalled" where
  "EnvoyHTTPVirtualHost_MarshalJSONBuf L mj buf =
     (case mj of
        None \<Rightarrow> (None, ff_WriteString L ''null'' buf)
      | Some mj \<Rightarrow>
          let buf = ff_WriteString L ''{\"name\":'' buf;
              buf = ff_WriteJsonString L (vh_Name mj) buf;
              buf = ff_WriteString L '',\"domains\":'' buf;
              buf = write_string_slice L (vh_Domains mj) buf;
              buf = ff_WriteString L '',\"routes\":'' buf
          in flow_then (write_ptr_slice L (EnvoyRoute_MarshalJSONBuf L) (vh_Routes mj) buf)
               (\<lambda>buf. (None, ff_WriteByte L CHR ''}'' buf)))"

definition EnvoyRouteConfig_MarshalJSONBuf ::
  "'b fflib \<Rightarrow> EnvoyRouteConfig option \<Rightarrow> 'b \<Rightarrow> 'b marshalled" where
  "EnvoyRouteConfig_MarshalJSONBuf L mj buf =
     (case mj of
        None \<Rightarrow> (None, ff_WriteString L ''null'' buf)
      | Some mj \<Rightarrow>
          let buf = ff_WriteString L ''{ '' buf
          in flow_then
               (flow_bind
                  (omitempty_ptrs L ''\"virtual_hosts\":'' (EnvoyHTTPVirtualHost_MarshalJSONBuf L)
                     (rc_VirtualHosts mj) buf)
                  (omitempty_ptrs L ''\"routes\":'' (EnvoyTCPRoute_MarshalJSONBuf L) (rc_Routes mj)))
               (close_rewound L))"

text \<open>The two encoders that call each other, with the loop over the nested filters.\<close>

fun EnvoyFilter_MarshalJSONBuf :: "'b fflib \<Rightarrow> EnvoyFilter option \<Rightarrow> 'b \<Rightarrow> 'b marshalled"
  and EnvoyFilterConfig_MarshalJSONBuf ::
    "'b fflib \<Rightarrow> EnvoyFilterConfig option \<Rightarrow> 'b \<Rightarrow> 'b marshalled"
  and write_filters :: "'b fflib \<Rightarrow> nat \<Rightarrow> EnvoyFilter option list \<Rightarrow> 'b \<Rightarrow> 'b flow" where
  "EnvoyFilter_MarshalJSONBuf L None buf = (None, ff_WriteString L ''null'' buf)"
| "EnvoyFilter_MarshalJSONBuf L (Some (EnvoyFilter name config)) buf =
     (let buf = ff_WriteString L ''{\"name\":'' buf;
          buf = ff_WriteJsonString L name buf
      in flow_then
           (if config \<noteq> None
            then flow_call (EnvoyFilterConfig_MarshalJSONBuf L config (ff_WriteString L '',\"config\":'' buf))
            else Next (ff_WriteString L '',\"config\":null'' buf))
           (\<lambda>buf. (None, ff_WriteByte L CHR ''}'' buf)))"
| "EnvoyFilterConfig_MarshalJSONBuf L None buf = (None, ff_WriteString L ''null'' buf)"
| "EnvoyFilterConfig_MarshalJSONBuf L (Some (EnvoyFilterConfig codec prefix route filters tracing)) buf =
     (let buf = ff_WriteString L ''{ '' buf;
          buf = omitempty_string L ''\"codec_type\":'' codec buf;
          buf = omitempty_string L ''\"stat_prefix\":'' prefix buf
      in flow_then
           (flow_bind
              (flow_bind
                 (omitempty_ptr L ''\"route_config\":'' (EnvoyRouteConfig_MarshalJSONBuf L) route buf)
                 (\<lambda>buf.
                    case filters of
                      None \<Rightarrow> Next buf
                    | Some vs \<Rightarrow>
                        if length vs \<noteq> 0
                        then flow_bind
                               (write_filters L 0 vs
                                  (ff_WriteString L ''['' (ff_WriteString L ''\"filters\":'' buf)))
                               (\<lambda>buf. Next (ff_WriteByte L CHR '','' (ff_WriteString L '']'' buf)))
                        else Next buf))
              (omitempty_ptr L ''\"tracing\":'' (EnvoyTracingConfig_MarshalJSONBuf L) tracing))
           (close_rewound L))"
| "write_filters L i [] buf = Next buf"
| "write_filters L i (v # vs) buf =
     (let buf = (if i \<noteq> 0 then ff_WriteString L '','' buf else buf)
      in if v = None then Return None (ff_WriteString L ''null'' buf)
         else flow_bind (flow_call (EnvoyFilter_MarshalJSONBuf L v buf)) (write_filters L (Suc i) vs))"

definition EnvoyListener_MarshalJSONBuf ::
  "'b fflib \<Rightarrow> EnvoyListener option \<Rightarrow> 'b \<Rightarrow> 'b marshalled" where
  "EnvoyListener_MarshalJSONBuf L mj buf =
     (case mj of
        None \<Rightarrow> (None, ff_WriteString L ''null'' buf)
      | Some mj \<Rightarrow>
          let buf = ff_WriteString L ''{\"name\":'' buf;
              buf = ff_WriteJsonString L (ls_Name mj) buf;
              buf = ff_WriteString L '',\"address\":'' buf;
              buf = ff_WriteJsonString L (ls_Address mj) buf;
              buf = ff_WriteString L '',\"filters\":'' buf
          in flow_then (write_ptr_slice L (EnvoyFilter_MarshalJSONBuf L) (ls_Filters mj) buf)
               (\<lambda>buf. (None, ff_WriteByte L CHR ''}'' buf)))"

definition LDSResult_MarshalJSONBuf ::
  "'b fflib \<Rightarrow> LDSResult option \<Rightarrow> 'b \<Rightarrow> 'b marshalled" where
  "LDSResult_MarshalJSONBuf L mj buf =
     (case mj of
        None \<Rightarrow> (None, ff_WriteString L ''null'' buf)
      | Some mj \<Rightarrow>
          let buf = ff_WriteString L ''{\"listeners\":'' buf
          in flow_then (write_ptr_slice L (EnvoyListener_MarshalJSONBuf L) (lds_Listeners mj) buf)
               (\<lambda>buf. (None, ff_WriteByte L CHR ''}'' buf)))"

text \<open>The loop over the tags visits the map's keys in the order \<open>ord\<close> that the run picks.\<close>

fun write_tags :: "'b fflib \<Rightarrow> (string \<rightharpoonup> string) \<Rightarrow> string list \<Rightarrow> 'b \<Rightarrow> 'b" where
  "write_tags L m [] buf = buf"
| "write_tags L m (key # keys) buf =
     (let buf = ff_WriteJsonString L key buf;
          buf = ff_WriteString L '':'' buf;
          buf = ff_WriteJsonString L (the (m key)) buf;
          buf = ff_WriteByte L CHR '','' buf
      in write_tags L m keys buf)"

definition EnvoyService_MarshalJSONBuf ::
  "((string \<rightharpoonup> string) \<Rightarrow> string list) \<Rightarrow> 'b fflib \<Rightarrow> EnvoyService option \<Rightarrow> 'b \<Rightarrow> 'b marshalled" where
  "EnvoyService_MarshalJSONBuf ord L mj buf =
     (case mj of
        None \<Rightarrow> (None, ff_WriteString L ''null'' buf)
      | Some mj \<Rightarrow>
          let buf = ff_WriteString L ''{\"ip_address\":'' buf;
              buf = ff_WriteJsonString L (svc_IPAddress mj) buf;
              buf = ff_WriteString L '',\"last_check_in\":'' buf;
              buf = ff_WriteJsonString L (svc_LastCheckIn mj) buf;
              buf = ff_WriteString L '',\"port\":'' buf;
              buf = ff_FormatBits2 L (svc_Port mj) 10 (sint (svc_Port mj) < 0) buf;
              buf = ff_WriteString L '',\"revision\":'' buf;
              buf = ff_WriteJsonString L (svc_Revision mj) buf;
              buf = ff_WriteString L '',\"service\":'' buf;
              buf = ff_WriteJsonString L (svc_Service mj) buf;
              buf = ff_WriteString L '',\"service_repo_name\":'' buf;
              buf = ff_WriteJsonString L (svc_ServiceRepoName mj) buf;
              buf = (case svc_Tags mj of
                       None \<Rightarrow> ff_WriteString L '',\"tags\":null'' buf
                     | Some m \<Rightarrow>
                         let buf = ff_WriteString L '',\"tags\":{ '' buf;
                             buf = write_tags L m (ord m) buf;
                             buf = ff_Rewind L 1 buf
                         in ff_WriteByte L CHR ''}'' buf);
              buf = ff_WriteByte L CHR ''}'' buf
          in (None, buf))"

definition SDSResult_MarshalJSONBuf ::
  "((string \<rightharpoonup> string) \<Rightarrow> string list) \<Rightarrow> 'b fflib \<Rightarrow> SDSResult option \<Rightarrow> 'b \<Rightarrow> 'b marshalled" where
  "SDSResult_MarshalJSONBuf ord L mj buf =
     (case mj of
        None \<Rightarrow> (None, ff_WriteString L ''null'' buf)
      | Some mj \<Rightarrow>
          let buf = ff_WriteString L ''{\"env\":'' buf;
              buf = ff_WriteJsonString L (sds_Env mj) buf;
              buf = ff_WriteString L '',\"hosts\":'' buf
          in flow_then (write_ptr_slice L (EnvoyService_MarshalJSONBuf ord L) (sds_Hosts mj) buf)
               (\<lambda>buf. let buf = ff_WriteString L '',\"service\":'' buf;
                         buf = ff_WriteJsonString L (sds_Service mj) buf;
                         buf = ff_WriteByte L CHR ''}'' buf
                     in (None, buf)))"

text \<open>
  \<open>MarshalJSON\<close> runs the encoder on a fresh buffer. Every struct has its own copy of it, which
  differs in the receiver's type only.
\<close>

definition MarshalJSON ::
  "'b fflib \<Rightarrow> ('a option \<Rightarrow> 'b \<Rightarrow> 'b marshalled) \<Rightarrow> 'a option \<Rightarrow> goerror + string" where
  "MarshalJSON L marshal mj =
     (if mj = None then Inr (ff_Bytes L (ff_WriteString L ''null'' (ff_new L)))
      else case marshal mj (ff_new L) of
             (Some err, buf) \<Rightarrow> Inl err
           | (None, buf) \<Rightarrow> Inr (ff_Bytes L buf))"

definition EnvoyCluster_MarshalJSON :: "'b fflib \<Rightarrow> EnvoyCluster option \<Rightarrow> goerror + string" where
  "EnvoyCluster_MarshalJSON L = MarshalJSON L (EnvoyCluster_MarshalJSONBuf L)"

definition EnvoyFilter_MarshalJSON :: "'b fflib \<Rightarrow> EnvoyFilter option \<Rightarrow> goerror + string" where
  "EnvoyFilter_MarshalJSON L = MarshalJSON L (EnvoyFilter_MarshalJSONBuf L)"

definition EnvoyFilterConfig_MarshalJSON :: "'b fflib \<Rightarrow> EnvoyFilterConfig option \<Rightarrow> goerror + string" where
  "EnvoyFilterConfig_MarshalJSON L = MarshalJSON L (EnvoyFilterConfig_MarshalJSONBuf L)"

definition EnvoyHTTPVirtualHost_MarshalJSON :: "'b fflib \<Rightarrow> EnvoyHTTPVirtualHost option \<Rightarrow> goerror + string" where
  "EnvoyHTTPVirtualHost_MarshalJSON L = MarshalJSON L (EnvoyHTTPVirtualHost_MarshalJSONBuf L)"

definition EnvoyListener_MarshalJSON :: "'b fflib \<Rightarrow> EnvoyListener option \<Rightarrow> goerror + string" where
  "EnvoyListener_MarshalJSON L = MarshalJSON L (EnvoyListener_MarshalJSONBuf L)"

definition EnvoyRoute_MarshalJSON :: "'b fflib \<Rightarrow> EnvoyRoute option \<Rightarrow> goerror + string" where
  "EnvoyRoute_MarshalJSON L = MarshalJSON L (EnvoyRoute_MarshalJSONBuf L)"

definition EnvoyRouteConfig_MarshalJSON :: "'b fflib \<Rightarrow> EnvoyRouteConfig option \<Rightarrow> goerror + string" where
  "EnvoyRouteConfig_MarshalJSON L = MarshalJSON L (EnvoyRouteConfig_MarshalJSONBuf L)"

definition EnvoyRouteDecorator_MarshalJSON :: "'b fflib \<Rightarrow> EnvoyRouteDecorator option \<Rightarrow> goerror + string" where
  "EnvoyRouteDecorator_MarshalJSON L = MarshalJSON L (EnvoyRouteDecorator_MarshalJSONBuf L)"

definition EnvoyTCPRoute_MarshalJSON :: "'b fflib \<Rightarrow> EnvoyTCPRoute option \<Rightarrow> goerror + string" where
  "EnvoyTCPRoute_MarshalJSON L = MarshalJSON L (EnvoyTCPRoute_MarshalJSONBuf L)"

definition EnvoyTracingConfig_MarshalJSON :: "'b fflib \<Rightarrow> EnvoyTracingConfig option \<Rightarrow> goerror + string" where
  "EnvoyTracingConfig_MarshalJSON L = MarshalJSON L (EnvoyTracingConfig_MarshalJSONBuf L)"

definition CDSResult_MarshalJSON :: "'b fflib \<Rightarrow> CDSResult option \<Rightarrow> goerror + string" where
  "CDSResult_MarshalJSON L = MarshalJSON L (CDSResult_MarshalJSONBuf L)"

definition LDSResult_MarshalJSON :: "'b fflib \<Rightarrow> LDSResult option \<Rightarrow> goerror + string" where
  "LDSResult_MarshalJSON L = MarshalJSON L (LDSResult_MarshalJSONBuf L)"

definition EnvoyService_MarshalJSON ::
  "((string \<rightharpoonup> string) \<Rightarrow> string list) \<Rightarrow> 'b fflib \<Rightarrow> EnvoyService option \<Rightarrow> goerror + string" where
  "EnvoyService_MarshalJSON ord L = MarshalJSON L (EnvoyService_MarshalJSONBuf ord L)"

definition SDSResult_MarshalJSON ::
  "((string \<rightharpoonup> string) \<Rightarrow> string list) \<Rightarrow> 'b fflib \<Rightarrow> SDSResult option \<Rightarrow> goerror + string" where
  "SDSResult_MarshalJSON ord L = MarshalJSON L (SDSResult_MarshalJSONBuf ord L)"

end
