(* ===== verification/GoJson.thy ===== *)
theory GoJson
  imports GoPrelude "HOL-Library.List_Lexorder" "HOL-Library.Char_ord"
begin

text \<open>
  The part of Go's \<open>encoding/json\<close> that the server calls: the encoding of a string (with the
  escapes for HTML that \<open>json.Marshal\<close> applies, and the replacement of bytes that are no UTF-8)
  and of a \<open>map[string]string\<close>, whose keys are sorted. The theory also holds the JSON values that the
  specification of the encoders is written with.
\<close>

section \<open>Strings\<close>

abbreviation byte_of :: "char \<Rightarrow> nat" where
  "byte_of c \<equiv> of_char c"

abbreviation backslash :: char where
  "backslash \<equiv> CHR 0x5C"

text \<open>The number of bytes of the UTF-8 sequence at the front, zero if there is none.\<close>

definition in_range :: "nat \<Rightarrow> nat \<Rightarrow> char \<Rightarrow> bool" where
  "in_range lo hi c \<longleftrightarrow> lo \<le> byte_of c \<and> byte_of c \<le> hi"

definition utf8_second :: "nat \<Rightarrow> char \<Rightarrow> bool" where
  "utf8_second n =
     (if n = 0xE0 then in_range 0xA0 0xBF
      else if n = 0xED then in_range 0x80 0x9F
      else if n = 0xF0 then in_range 0x90 0xBF
      else if n = 0xF4 then in_range 0x80 0x8F
      else in_range 0x80 0xBF)"

fun utf8_len :: "string \<Rightarrow> nat" where
  "utf8_len [] = 0"
| "utf8_len (c # s) =
     (let n = byte_of c; second = utf8_second n; cont = in_range 0x80 0xBF
      in if n < 0x80 then 1
         else if 0xC2 \<le> n \<and> n \<le> 0xDF then
           (case s of a # _ \<Rightarrow> if second a then 2 else 0 | _ \<Rightarrow> 0)
         else if 0xE0 \<le> n \<and> n \<le> 0xEF then
           (case s of a # b # _ \<Rightarrow> if second a \<and> cont b then 3 else 0 | _ \<Rightarrow> 0)
         else if 0xF0 \<le> n \<and> n \<le> 0xF4 then
           (case s of a # b # d # _ \<Rightarrow> if second a \<and> cont b \<and> cont d then 4 else 0 | _ \<Rightarrow> 0)
         else 0)"

text \<open>The two separators that JavaScript does not allow in a string, U+2028 and U+2029.\<close>

definition line_separator :: "string \<Rightarrow> string option" where
  "line_separator s =
     (if map byte_of (take 3 s) = [0xE2, 0x80, 0xA8] then Some (backslash # ''u2028'')
      else if map byte_of (take 3 s) = [0xE2, 0x80, 0xA9] then Some (backslash # ''u2029'')
      else None)"

definition escape_ascii :: "char \<Rightarrow> string" where
  "escape_ascii c =
     (let n = byte_of c
      in if n = 34 \<or> n = 92 then [backslash, c]
         else if n = 10 then [backslash, CHR ''n'']
         else if n = 13 then [backslash, CHR ''r'']
         else if n = 9 then [backslash, CHR ''t'']
         else if n < 0x20 \<or> n = 60 \<or> n = 62 \<or> n = 38
              then backslash # ''u00'' @ [digit_char (n div 16), digit_char (n mod 16)]
         else [c])"

function json_escape :: "string \<Rightarrow> string" where
  "json_escape [] = []"
| "json_escape (c # s) =
     (if byte_of c < 0x80 then escape_ascii c @ json_escape s
      else if utf8_len (c # s) = 0 then (backslash # ''ufffd'') @ json_escape s
      else case line_separator (c # s) of
             Some t \<Rightarrow> t @ json_escape (drop 2 s)
           | None \<Rightarrow> take (utf8_len (c # s)) (c # s) @ json_escape (drop (utf8_len (c # s) - 1) s))"
  by pat_completeness auto
termination
  by (relation "measure length") (simp_all del: utf8_len.simps)

declare json_escape.simps [simp del] utf8_len.simps [simp del]

definition quoted :: "string \<Rightarrow> string" where
  "quoted s = CHR 0x22 # s @ [CHR 0x22]"

definition json_string :: "string \<Rightarrow> string" where
  "json_string s = quoted (json_escape s)"

text \<open>
  \<open>json.Marshal\<close> of a \<open>map[string]string\<close>, given as its pairs: never an error.
\<close>

definition Marshal_string_map :: "(string \<times> string) list \<Rightarrow> goerror + string" where
  "Marshal_string_map m =
     Inr (''{'' @ join '','' (map (\<lambda>(k, v). json_string k @ '':'' @ json_string v) (sort_key fst m)) @ ''}'')"

section \<open>The text of a string literal\<close>

text \<open>
  What may stand between the quotes of a JSON string: no control character, no bare quote, and
  a backslash only at the start of an escape.
\<close>

fun json_body :: "string \<Rightarrow> bool" where
  "json_body [] = True"
| "json_body (c # s) =
     (if byte_of c = 92 then
        (case s of
           [] \<Rightarrow> False
         | d # t \<Rightarrow>
             if d \<in> set [CHR 0x22, CHR 0x5C, CHR ''n'', CHR ''r'', CHR ''t''] then json_body t
             else d = CHR ''u'' \<and> 4 \<le> length t \<and> list_all (\<lambda>x. digit_val 16 x \<noteq> None) (take 4 t)
                  \<and> json_body t)
      else byte_of c \<noteq> 34 \<and> 0x20 \<le> byte_of c \<and> json_body s)"

lemma json_body_plain:
  "list_all (\<lambda>c. byte_of c \<noteq> 34 \<and> byte_of c \<noteq> 92 \<and> 0x20 \<le> byte_of c) s \<Longrightarrow> json_body (s @ t) = json_body t"
  by (induction s) auto

lemma utf8_len_le: "utf8_len (c # s) \<le> Suc (length s)"
  by (auto simp: utf8_len.simps Let_def split: list.splits)

lemma in_range_ge: "in_range 0x80 0xBF x \<Longrightarrow> 0x80 \<le> byte_of x"
  and utf8_second_ge: "utf8_second n x \<Longrightarrow> 0x80 \<le> byte_of x"
  by (simp_all add: in_range_def utf8_second_def split: if_splits)

lemma utf8_len_tail:
  assumes "0x80 \<le> byte_of c"
  shows "list_all (\<lambda>x. 0x80 \<le> byte_of x) (take (utf8_len (c # s)) (c # s))"
  using assms
  by (auto simp: utf8_len.simps Let_def in_range_ge dest: utf8_second_ge split: list.split)

lemma utf8_plain:
  "0x80 \<le> byte_of c \<Longrightarrow>
   list_all (\<lambda>c. byte_of c \<noteq> 34 \<and> byte_of c \<noteq> 92 \<and> 0x20 \<le> byte_of c)
     (take (utf8_len (c # s)) (c # s))"
  by (rule list.pred_mono_strong [OF utf8_len_tail]) auto

lemma hex_digit_plain:
  "\<forall>d < 16. byte_of (digit_char d) \<noteq> 34 \<and> byte_of (digit_char d) \<noteq> 92 \<and> 0x20 \<le> byte_of (digit_char d)
     \<and> digit_val 16 (digit_char d) \<noteq> None"
  by code_simp

lemma quote_backslash_chars: "char_of (34 :: nat) = CHR 0x22" "char_of (92 :: nat) = backslash"
  by code_simp+

lemma json_body_escape_ascii:
  assumes "byte_of c < 0x80"
  shows "json_body (escape_ascii c @ t) = json_body t"
proof -
  have "byte_of c div 16 < 16" using assms by simp
  then have hex: "json_body (backslash # ''u00'' @ [digit_char (byte_of c div 16), digit_char (byte_of c mod 16)] @ t)
      = json_body t"
    using hex_digit_plain by (simp add: digit_val_def)
  have c: "c = char_of (byte_of c)" by simp
  consider "byte_of c = 34" | "byte_of c = 92" | "byte_of c = 10" | "byte_of c = 13" | "byte_of c = 9"
    | "byte_of c < 0x20 \<or> byte_of c = 60 \<or> byte_of c = 62 \<or> byte_of c = 38"
      "byte_of c \<notin> {34, 92, 10, 13, 9}"
    | "0x20 \<le> byte_of c" "byte_of c \<notin> {34, 92, 60, 62, 38}"
    by fastforce
  then show ?thesis
  proof cases
    case 1
    with c have "c = char_of (34 :: nat)" by metis
    then show ?thesis by (simp add: escape_ascii_def quote_backslash_chars)
  next
    case 2
    with c have "c = char_of (92 :: nat)" by metis
    then show ?thesis by (simp add: escape_ascii_def quote_backslash_chars)
  next
    case 6
    then have "escape_ascii c = backslash # ''u00'' @ [digit_char (byte_of c div 16), digit_char (byte_of c mod 16)]"
      by (simp add: escape_ascii_def Let_def)
    with hex show ?thesis by simp
  qed (simp_all add: escape_ascii_def)
qed

lemma json_body_json_escape: "json_body (json_escape s @ t) = json_body t"
proof (induction s rule: json_escape.induct)
  case 1
  show ?case by (simp add: json_escape.simps)
next
  case (2 c s)
  show ?case
  proof (cases "byte_of c < 0x80")
    case True
    with 2(1) show ?thesis by (simp add: json_escape.simps(2) json_body_escape_ascii)
  next
    case high: False
    show ?thesis
    proof (cases "utf8_len (c # s) = 0")
      case True
      with high 2(2) show ?thesis
        by (simp add: json_escape.simps(2) digit_val_def)
    next
      case len: False
      show ?thesis
      proof (cases "line_separator (c # s)")
        case None
        have "json_body (take (utf8_len (c # s)) (c # s)
            @ json_escape (drop (utf8_len (c # s) - 1) s) @ t) = json_body t"
          using utf8_plain [of c s] high len None 2(3) by (subst json_body_plain) auto
        with None high len show ?thesis
          by (simp add: json_escape.simps(2))
      next
        case (Some u)
        then have "json_body (u @ json_escape (drop 2 s) @ t) = json_body (json_escape (drop 2 s) @ t)"
          by (auto simp: line_separator_def digit_val_def split: if_splits)
        with Some high len 2(4) show ?thesis
          by (simp add: json_escape.simps(2))
      qed
    qed
  qed
qed

lemma json_body_escape [simp]: "json_body (json_escape s)"
  using json_body_json_escape [of s "[]"] by simp

section \<open>JSON values and their text\<close>

text \<open>
  A JSON value. ffjson puts a blank after the opening brace of an object that may turn out empty
  (a struct with an omitted field, or a map); the flag of \<open>JObject\<close> records it. \<open>render js\<close> is the
  text of a value, for a printer \<open>js\<close> of strings.
\<close>

datatype json =
  JNull
| JNumber int
| JString string
| JArray "json list"
| JObject bool "(string \<times> json) list"

fun render :: "(string \<Rightarrow> string) \<Rightarrow> json \<Rightarrow> string"
  and render_list :: "(string \<Rightarrow> string) \<Rightarrow> json list \<Rightarrow> string list"
  and render_fields :: "(string \<Rightarrow> string) \<Rightarrow> (string \<times> json) list \<Rightarrow> string list" where
  "render js JNull = ''null''"
| "render js (JNumber i) = fmt_d i"
| "render js (JString s) = js s"
| "render js (JArray vs) = ''['' @ join '','' (render_list js vs) @ '']''"
| "render js (JObject spaced fs) =
     ''{'' @ (if spaced \<and> fs \<noteq> [] then '' '' else []) @ join '','' (render_fields js fs) @ ''}''"
| "render_list js [] = []"
| "render_list js (v # vs) = render js v # render_list js vs"
| "render_fields js [] = []"
| "render_fields js ((k, v) # fs) = (js k @ '':'' @ render js v) # render_fields js fs"

lemma render_list_map: "render_list js vs = map (render js) vs"
  by (induction vs) simp_all

lemma render_fields_map: "render_fields js fs = map (\<lambda>(k, v). js k @ '':'' @ render js v) fs"
  by (induction fs) auto

lemma render_fields_append [simp]: "render_fields js (fs @ gs) = render_fields js fs @ render_fields js gs"
  by (simp add: render_fields_map)

text \<open>The fields with a comma after each, as the encoders of \<open>omitempty\<close> structs write them.\<close>

definition commaed :: "string list \<Rightarrow> string" where
  "commaed ts = concat (map (\<lambda>t. t @ '','') ts)"

lemma commaed_simps [simp]:
  "commaed [] = []" "commaed (t # ts) = t @ CHR '','' # commaed ts"
  "commaed (ts @ us) = commaed ts @ commaed us"
  by (simp_all add: commaed_def)

lemma commaed_join: "ts \<noteq> [] \<Longrightarrow> commaed ts = join '','' ts @ '',''"
  by (induction ts rule: induct_list012) auto

end
