(* ===== verification/FFJsonSpec.thy ===== *)
theory FFJsonSpec
  imports FFJsonEncode GoJson
begin

text \<open>
  What the generated JSON encoders compute. The theory states what the encoders rely on of
  ffjson's library, gives the JSON value that each API object stands for according to its struct
  tags, and proves that every encoder writes the text of that value, as long as no slice holds a
  nil pointer. The contract between an encoder and the encoder that calls it is the locale
  \<open>json_encoder\<close>, interpreted on the encoder of every struct.
\<close>

section \<open>What the library promises\<close>

text \<open>The text of a string, as the library prints it into an empty buffer.\<close>

definition jstr :: "'b fflib \<Rightarrow> string \<Rightarrow> string" where
  "jstr L s = ff_Bytes L (ff_WriteJsonString L s (ff_new L))"

text \<open>A key of a struct, which needs no escape: small letters and underscores.\<close>

definition plain_key :: "string \<Rightarrow> bool" where
  "plain_key s = list_all (\<lambda>c. c \<in> set ''abcdefghijklmnopqrstuvwxyz_'') s"

text \<open>
  A buffer is the bytes written so far; \<open>Rewind\<close> takes the last ones back; a string is printed
  independently of what is in the buffer, and a plain one between quotes; \<open>FormatBits2\<close> in base
  ten prints the signed value.
\<close>

definition fflib_ok :: "'b fflib \<Rightarrow> bool" where
  "fflib_ok L \<longleftrightarrow>
     ff_Bytes L (ff_new L) = []
     \<and> (\<forall>s b. ff_Bytes L (ff_WriteString L s b) = ff_Bytes L b @ s)
     \<and> (\<forall>c b. ff_Bytes L (ff_WriteByte L c b) = ff_Bytes L b @ [c])
     \<and> (\<forall>n b. n \<le> length (ff_Bytes L b) \<longrightarrow>
          ff_Bytes L (ff_Rewind L n b) = take (length (ff_Bytes L b) - n) (ff_Bytes L b))
     \<and> (\<forall>s b. ff_Bytes L (ff_WriteJsonString L s b) = ff_Bytes L b @ jstr L s)
     \<and> (\<forall>i b. ff_Bytes L (ff_FormatBits2 L i 10 (sint i < 0) b) = ff_Bytes L b @ fmt_d (sint i))
     \<and> (\<forall>s. plain_key s \<longrightarrow> jstr L s = quoted s)"

lemma fflib_okD:
  assumes "fflib_ok L"
  shows "ff_Bytes L (ff_new L) = []"
    and "ff_Bytes L (ff_WriteString L s b) = ff_Bytes L b @ s"
    and "ff_Bytes L (ff_WriteByte L c b) = ff_Bytes L b @ [c]"
    and "n \<le> length (ff_Bytes L b) \<Longrightarrow>
      ff_Bytes L (ff_Rewind L n b) = take (length (ff_Bytes L b) - n) (ff_Bytes L b)"
    and "ff_Bytes L (ff_WriteJsonString L s b) = ff_Bytes L b @ jstr L s"
    and "ff_Bytes L (ff_FormatBits2 L i 10 (sint i < 0) b) = ff_Bytes L b @ fmt_d (sint i)"
    and "plain_key s \<Longrightarrow> jstr L s = quoted s"
  using assms by (simp_all add: fflib_ok_def)

text \<open>An implementation that satisfies it: the buffer is its bytes.\<close>

definition list_fflib :: "string fflib" where
  "list_fflib = \<lparr>ff_new = [], ff_Bytes = id,
     ff_WriteString = (\<lambda>s b. b @ s), ff_WriteByte = (\<lambda>c b. b @ [c]),
     ff_Rewind = (\<lambda>n b. take (length b - n) b),
     ff_WriteJsonString = (\<lambda>s b. b @ json_string s),
     ff_FormatBits2 = (\<lambda>i base neg b. b @ (if neg then CHR ''-'' # nat_str base (nat (- sint i))
                                           else nat_str base (unat i)))\<rparr>"

lemma json_escape_plain:
  "list_all (\<lambda>c. byte_of c < 0x80 \<and> escape_ascii c = [c]) s \<Longrightarrow> json_escape s = s"
  by (induction s) (simp_all add: json_escape.simps)

lemma plain_key_escape: "plain_key s \<Longrightarrow> json_escape s = s"
proof (rule json_escape_plain)
  have "list_all (\<lambda>c. byte_of c < 0x80 \<and> escape_ascii c = [c]) ''abcdefghijklmnopqrstuvwxyz_''"
    by code_simp
  then show "plain_key s \<Longrightarrow> list_all (\<lambda>c. byte_of c < 0x80 \<and> escape_ascii c = [c]) s"
    by (auto simp only: plain_key_def list_all_iff)
qed

lemma unat_nonneg:
  fixes i :: int64
  assumes "\<not> sint i < 0"
  shows "unat i = nat (sint i)"
proof -
  have "sint i < 2 ^ 63" using sint_lt [of i] by simp
  with assms have "take_bit 64 (sint i) = sint i"
    by (intro take_bit_int_eq_self) simp_all
  then show ?thesis by (simp add: unat_eq_nat_uint uint_sint)
qed

lemma list_fflib_ok: "fflib_ok list_fflib"
  unfolding fflib_ok_def
  by (auto simp: list_fflib_def jstr_def json_string_def plain_key_escape fmt_d_def unat_nonneg)

section \<open>The specification of the encoders\<close>

text \<open>
  The value each object stands for, field by field as the struct tags of
  \<open>envoy_api_objects.go\<close> say: the key, the order, and \<open>omitempty\<close>.
\<close>

definition str_field :: "string \<Rightarrow> string \<Rightarrow> (string \<times> json) list" where
  "str_field k v = (if v = [] then [] else [(k, JString v)])"

definition ptr_field :: "string \<Rightarrow> ('a \<Rightarrow> json) \<Rightarrow> 'a option \<Rightarrow> (string \<times> json) list" where
  "ptr_field k val v = (case v of None \<Rightarrow> [] | Some x \<Rightarrow> [(k, val x)])"

definition strs_json :: "string list option \<Rightarrow> json" where
  "strs_json sl = (case sl of None \<Rightarrow> JNull | Some vs \<Rightarrow> JArray (map JString vs))"

definition strs_field :: "string \<Rightarrow> string list option \<Rightarrow> (string \<times> json) list" where
  "strs_field k sl = (if slice_len sl = 0 then [] else [(k, strs_json sl)])"

definition ptrs_json :: "('a \<Rightarrow> json) \<Rightarrow> 'a option list option \<Rightarrow> json" where
  "ptrs_json val sl = (case sl of None \<Rightarrow> JNull | Some vs \<Rightarrow> JArray (map (\<lambda>v. val (the v)) vs))"

definition ptrs_field :: "string \<Rightarrow> ('a \<Rightarrow> json) \<Rightarrow> 'a option list option \<Rightarrow> (string \<times> json) list" where
  "ptrs_field k val sl = (if slice_len sl = 0 then [] else [(k, ptrs_json val sl)])"

text \<open>A slice whose elements are all there, and all good.\<close>

definition no_nil :: "('a \<Rightarrow> bool) \<Rightarrow> 'a option list option \<Rightarrow> bool" where
  "no_nil ok sl = (case sl of None \<Rightarrow> True | Some vs \<Rightarrow> list_all (\<lambda>v. v \<noteq> None \<and> ok (the v)) vs)"

definition cluster_json :: "EnvoyCluster \<Rightarrow> json" where
  "cluster_json c = JObject False
     [(''name'', JString (cl_Name c)), (''type'', JString (cl_Type c)),
      (''connect_timeout_ms'', JNumber (sint (cl_ConnectTimeoutMs c))),
      (''lb_type'', JString (cl_LBType c)), (''service_name'', JString (cl_ServiceName c))]"

definition cds_json :: "CDSResult \<Rightarrow> json" where
  "cds_json r = JObject False [(''clusters'', ptrs_json cluster_json (cds_Clusters r))]"

definition tracing_json :: "EnvoyTracingConfig \<Rightarrow> json" where
  "tracing_json t = JObject False [(''operation_name'', JString (tr_OperationName t))]"

definition decorator_json :: "EnvoyRouteDecorator \<Rightarrow> json" where
  "decorator_json d = JObject True (str_field ''operation'' (dec_Operation d))"

definition route_json :: "EnvoyRoute \<Rightarrow> json" where
  "route_json r = JObject True
     ([(''timeout_ms'', JNumber (sint (rt_TimeoutMs r))), (''prefix'', JString (rt_Prefix r)),
       (''host_rewrite'', JString (rt_HostRewrite r)), (''cluster'', JString (rt_Cluster r))]
      @ ptr_field ''decorator'' decorator_json (rt_Decorator r))"

definition tcp_route_json :: "EnvoyTCPRoute \<Rightarrow> json" where
  "tcp_route_json r = JObject True
     ([(''cluster'', JString (tcp_Cluster r))]
      @ strs_field ''destination_ip_list'' (tcp_DestinationIPList r)
      @ str_field ''destination_ports'' (tcp_DestinationPorts r)
      @ strs_field ''source_ip_list'' (tcp_SourceIPList r)
      @ strs_field ''source_ports'' (tcp_SourcePorts r))"

definition vhost_json :: "EnvoyHTTPVirtualHost \<Rightarrow> json" where
  "vhost_json h = JObject False
     [(''name'', JString (vh_Name h)), (''domains'', strs_json (vh_Domains h)),
      (''routes'', ptrs_json route_json (vh_Routes h))]"

definition vhost_ok :: "EnvoyHTTPVirtualHost \<Rightarrow> bool" where
  "vhost_ok h = no_nil (\<lambda>_. True) (vh_Routes h)"

definition route_config_json :: "EnvoyRouteConfig \<Rightarrow> json" where
  "route_config_json c = JObject True
     (ptrs_field ''virtual_hosts'' vhost_json (rc_VirtualHosts c)
      @ ptrs_field ''routes'' tcp_route_json (rc_Routes c))"

definition route_config_ok :: "EnvoyRouteConfig \<Rightarrow> bool" where
  "route_config_ok c = (no_nil vhost_ok (rc_VirtualHosts c) \<and> no_nil (\<lambda>_. True) (rc_Routes c))"

fun filter_json :: "EnvoyFilter \<Rightarrow> json"
  and config_json :: "EnvoyFilterConfig \<Rightarrow> json"
  and filters_json :: "EnvoyFilter option list \<Rightarrow> json list" where
  "filter_json (EnvoyFilter name config) = JObject False
     [(''name'', JString name), (''config'', case config of None \<Rightarrow> JNull | Some c \<Rightarrow> config_json c)]"
| "config_json (EnvoyFilterConfig codec prefix route filters tracing) = JObject True
     (str_field ''codec_type'' codec @ str_field ''stat_prefix'' prefix
      @ ptr_field ''route_config'' route_config_json route
      @ (case filters of None \<Rightarrow> [] | Some vs \<Rightarrow> if vs = [] then [] else [(''filters'', JArray (filters_json vs))])
      @ ptr_field ''tracing'' tracing_json tracing)"
| "filters_json [] = []"
| "filters_json (v # vs) = (case v of None \<Rightarrow> JNull | Some f \<Rightarrow> filter_json f) # filters_json vs"

fun filter_ok :: "EnvoyFilter \<Rightarrow> bool"
  and config_ok :: "EnvoyFilterConfig \<Rightarrow> bool"
  and filters_ok :: "EnvoyFilter option list \<Rightarrow> bool" where
  "filter_ok (EnvoyFilter name config) = (case config of None \<Rightarrow> True | Some c \<Rightarrow> config_ok c)"
| "config_ok (EnvoyFilterConfig codec prefix route filters tracing) =
     ((case route of None \<Rightarrow> True | Some r \<Rightarrow> route_config_ok r)
      \<and> (case filters of None \<Rightarrow> True | Some vs \<Rightarrow> filters_ok vs))"
| "filters_ok [] = True"
| "filters_ok (v # vs) = ((case v of None \<Rightarrow> False | Some f \<Rightarrow> filter_ok f) \<and> filters_ok vs)"

definition listener_json :: "EnvoyListener \<Rightarrow> json" where
  "listener_json l = JObject False
     [(''name'', JString (ls_Name l)), (''address'', JString (ls_Address l)),
      (''filters'', ptrs_json filter_json (ls_Filters l))]"

definition listener_ok :: "EnvoyListener \<Rightarrow> bool" where
  "listener_ok l = no_nil filter_ok (ls_Filters l)"

definition lds_json :: "LDSResult \<Rightarrow> json" where
  "lds_json r = JObject False [(''listeners'', ptrs_json listener_json (lds_Listeners r))]"

definition lds_ok :: "LDSResult \<Rightarrow> bool" where
  "lds_ok r = no_nil listener_ok (lds_Listeners r)"

definition tags_json :: "((string \<rightharpoonup> string) \<Rightarrow> string list) \<Rightarrow> (string \<rightharpoonup> string) option \<Rightarrow> json" where
  "tags_json ord tags =
     (case tags of None \<Rightarrow> JNull | Some m \<Rightarrow> JObject True (map (\<lambda>k. (k, JString (the (m k)))) (ord m)))"

definition service_json :: "((string \<rightharpoonup> string) \<Rightarrow> string list) \<Rightarrow> EnvoyService \<Rightarrow> json" where
  "service_json ord v = JObject False
     [(''ip_address'', JString (svc_IPAddress v)), (''last_check_in'', JString (svc_LastCheckIn v)),
      (''port'', JNumber (sint (svc_Port v))), (''revision'', JString (svc_Revision v)),
      (''service'', JString (svc_Service v)), (''service_repo_name'', JString (svc_ServiceRepoName v)),
      (''tags'', tags_json ord (svc_Tags v))]"

definition sds_json :: "((string \<rightharpoonup> string) \<Rightarrow> string list) \<Rightarrow> SDSResult \<Rightarrow> json" where
  "sds_json ord r = JObject False
     [(''env'', JString (sds_Env r)), (''hosts'', ptrs_json (service_json ord) (sds_Hosts r)),
      (''service'', JString (sds_Service r))]"

section \<open>The encoders write the specified text\<close>

text \<open>The pieces of text between the values, as the encoders' literals spell them.\<close>

named_theorems encoder_simps \<open>the library's laws and the text of objects\<close>

lemma butlast_snoc_rewind:
  assumes "fflib_ok L" and "ff_Bytes L b = s @ [c]"
  shows "ff_Bytes L (ff_Rewind L 1 b) = s"
  using fflib_okD(4) [OF assms(1), of 1 b] assms(2) by simp

text \<open>Closing an object after its opening text and a comma after every field.\<close>

lemma close_rewound_text:
  assumes "fflib_ok L" and "ff_Bytes L b = s @ ''{ '' @ commaed ts"
  shows "\<exists>b'. close_rewound L b = (None, b')
    \<and> ff_Bytes L b' = s @ ''{'' @ (if ts \<noteq> [] then '' '' else []) @ join '','' ts @ ''}''"
proof (cases "ts = []")
  case True
  with assms have "ff_Bytes L (ff_Rewind L 1 b) = s @ ''{''"
    by (intro butlast_snoc_rewind [where c = "CHR '' ''"]) simp_all
  with True assms(1) show ?thesis
    by (simp add: close_rewound_def fflib_okD)
next
  case False
  with assms have "ff_Bytes L (ff_Rewind L 1 b) = s @ ''{ '' @ join '','' ts"
    by (intro butlast_snoc_rewind [where c = "CHR '',''"]) (simp_all add: commaed_join)
  with False assms(1) show ?thesis
    by (simp add: close_rewound_def fflib_okD)
qed

lemma omitempty_string_text:
  assumes "fflib_ok L" and "key = jstr L k @ '':''"
  shows "ff_Bytes L (omitempty_string L key v b)
    = ff_Bytes L b @ commaed (render_fields (jstr L) (str_field k v))"
  using assms by (simp add: omitempty_string_def str_field_def fflib_okD Let_def)

lemma write_strings_text:
  assumes "fflib_ok L"
  shows "ff_Bytes L (write_strings L i vs b)
    = ff_Bytes L b @ (if i \<noteq> 0 \<and> vs \<noteq> [] then '','' else []) @ join '','' (map (jstr L) vs)"
  using assms
proof (induction vs arbitrary: i b)
  case Nil
  then show ?case by simp
next
  case (Cons v vs)
  then show ?case
    by (cases "vs = []") (simp_all add: fflib_okD Let_def join_Cons)
qed

lemma write_string_slice_text:
  assumes "fflib_ok L"
  shows "ff_Bytes L (write_string_slice L sl b) = ff_Bytes L b @ render (jstr L) (strs_json sl)"
  using assms
  by (auto simp: write_string_slice_def strs_json_def fflib_okD write_strings_text
      render_list_map comp_def split: option.split)

lemma omitempty_strings_text:
  assumes "fflib_ok L" and "key = jstr L k @ '':''"
  shows "ff_Bytes L (omitempty_strings L key v b)
    = ff_Bytes L b @ commaed (render_fields (jstr L) (strs_field k v))"
  using assms
  by (simp add: omitempty_strings_def strs_field_def fflib_okD write_string_slice_text Let_def)

text \<open>
  The contract between an encoder and its callers: it writes \<open>null\<close> for a nil pointer, and the
  text of the object's value otherwise, and it does not fail.
\<close>

locale json_encoder =
  fixes enc :: "'b fflib \<Rightarrow> 'a option \<Rightarrow> 'b \<Rightarrow> 'b marshalled"
    and ok :: "'a \<Rightarrow> bool"
    and val :: "'a \<Rightarrow> json"
  assumes enc_nil: "enc L None b = (None, ff_WriteString L ''null'' b)"
    and enc_val: "fflib_ok L \<Longrightarrow> ok x \<Longrightarrow>
      \<exists>b'. enc L (Some x) b = (None, b') \<and> ff_Bytes L b' = ff_Bytes L b @ render (jstr L) (val x)"
begin

lemma flow_call_enc:
  assumes "fflib_ok L" and "ok x"
  shows "\<exists>b'. flow_call (enc L (Some x) b) = Next b'
    \<and> ff_Bytes L b' = ff_Bytes L b @ render (jstr L) (val x)"
  using enc_val [OF assms, of b] by (auto simp: flow_call_def)

lemma write_ptrs_text:
  assumes "fflib_ok L" and "list_all ok xs"
  shows "\<exists>b'. write_ptrs L (enc L) i (map Some xs) b = Next b'
    \<and> ff_Bytes L b' = ff_Bytes L b @ (if i \<noteq> 0 \<and> xs \<noteq> [] then '','' else [])
        @ join '','' (map (\<lambda>x. render (jstr L) (val x)) xs)"
  using assms(2)
proof (induction xs arbitrary: i b)
  case Nil
  then show ?case by simp
next
  case (Cons x xs)
  let ?b = "if i \<noteq> 0 then ff_WriteString L '','' b else b"
  obtain b1 where b1: "flow_call (enc L (Some x) ?b) = Next b1"
      "ff_Bytes L b1 = ff_Bytes L ?b @ render (jstr L) (val x)"
    using flow_call_enc [OF assms(1), of x ?b] Cons.prems by auto
  obtain b2 where "write_ptrs L (enc L) (Suc i) (map Some xs) b1 = Next b2"
      "ff_Bytes L b2 = ff_Bytes L b1 @ (if xs \<noteq> [] then '','' else [])
         @ join '','' (map (\<lambda>x. render (jstr L) (val x)) xs)"
    using Cons by fastforce
  with b1 assms(1) show ?case
    by (cases xs) (simp_all add: fflib_okD Let_def)
qed

text \<open>A nil element ends the text there: the rest of the slice and all closing text are lost.\<close>

lemma write_ptrs_nil:
  assumes "fflib_ok L" and "list_all ok xs"
  shows "\<exists>b'. write_ptrs L (enc L) i (map Some xs @ None # ys) b = Return None b'
    \<and> ff_Bytes L b' = ff_Bytes L b @ (if i \<noteq> 0 then '','' else [])
        @ join '','' (map (\<lambda>x. render (jstr L) (val x)) xs @ [''null''])"
  using assms(2)
proof (induction xs arbitrary: i b)
  case Nil
  with assms(1) show ?case by (simp add: fflib_okD Let_def)
next
  case (Cons x xs)
  let ?b = "if i \<noteq> 0 then ff_WriteString L '','' b else b"
  obtain b1 where b1: "flow_call (enc L (Some x) ?b) = Next b1"
      "ff_Bytes L b1 = ff_Bytes L ?b @ render (jstr L) (val x)"
    using flow_call_enc [OF assms(1), of x ?b] Cons.prems by auto
  obtain b2 where "write_ptrs L (enc L) (Suc i) (map Some xs @ None # ys) b1 = Return None b2"
      "ff_Bytes L b2 = ff_Bytes L b1 @ '',''
         @ join '','' (map (\<lambda>x. render (jstr L) (val x)) xs @ [''null''])"
    using Cons by fastforce
  with b1 assms(1) show ?case
    by (simp add: fflib_okD Let_def join_Cons)
qed

lemma no_nil_cases:
  assumes "no_nil ok sl"
  obtains "sl = None" | xs where "sl = Some (map Some xs)" "list_all ok xs"
proof (cases sl)
  case None
  then show ?thesis by (rule that(1))
next
  case (Some vs)
  with assms have "vs = map Some (map the vs)" "list_all ok (map the vs)"
    by (auto simp: no_nil_def list_all_iff list_eq_iff_nth_eq)
  with Some show ?thesis by (metis that(2))
qed

lemma write_ptr_slice_text:
  assumes "fflib_ok L" and "no_nil ok sl"
  shows "\<exists>b'. write_ptr_slice L (enc L) sl b = Next b'
    \<and> ff_Bytes L b' = ff_Bytes L b @ render (jstr L) (ptrs_json val sl)"
  using assms(2)
proof (cases rule: no_nil_cases)
  case 1
  with assms(1) show ?thesis
    by (simp add: write_ptr_slice_def ptrs_json_def fflib_okD)
next
  case (2 xs)
  obtain b1 where "write_ptrs L (enc L) 0 (map Some xs) (ff_WriteString L ''['' b) = Next b1"
      "ff_Bytes L b1 = ff_Bytes L (ff_WriteString L ''['' b)
         @ join '','' (map (\<lambda>x. render (jstr L) (val x)) xs)"
    using write_ptrs_text [OF assms(1) 2(2), of 0 "ff_WriteString L ''['' b"] by auto
  with 2 assms(1) show ?thesis
    by (simp add: write_ptr_slice_def ptrs_json_def fflib_okD render_list_map comp_def)
qed

lemma omitempty_ptrs_text:
  assumes "fflib_ok L" and "no_nil ok sl" and "key = jstr L k @ '':''"
  shows "\<exists>b'. omitempty_ptrs L key (enc L) sl b = Next b'
    \<and> ff_Bytes L b' = ff_Bytes L b @ commaed (render_fields (jstr L) (ptrs_field k val sl))"
proof (cases "slice_len sl = 0")
  case True
  then show ?thesis by (simp add: omitempty_ptrs_def ptrs_field_def)
next
  case False
  then show ?thesis
    using write_ptr_slice_text [OF assms(1,2), of "ff_WriteString L key b"] assms
    by (auto simp: omitempty_ptrs_def ptrs_field_def fflib_okD)
qed

lemma omitempty_ptr_text:
  assumes "fflib_ok L" and "\<And>x. v = Some x \<Longrightarrow> ok x" and "key = jstr L k @ '':''"
  shows "\<exists>b'. omitempty_ptr L key (enc L) v b = Next b'
    \<and> ff_Bytes L b' = ff_Bytes L b @ commaed (render_fields (jstr L) (ptr_field k val v))"
proof (cases v)
  case None
  then show ?thesis by (simp add: omitempty_ptr_def ptr_field_def)
next
  case (Some x)
  then show ?thesis
    using flow_call_enc [OF assms(1), of x "ff_WriteString L key b"] assms
    by (auto simp: omitempty_ptr_def ptr_field_def fflib_okD)
qed

lemma MarshalJSON_text:
  assumes "fflib_ok L" and "ok x"
  shows "MarshalJSON L (enc L) (Some x) = Inr (render (jstr L) (val x))"
  using enc_val [OF assms, of "ff_new L"] assms(1) by (auto simp: MarshalJSON_def fflib_okD)

lemma MarshalJSON_null:
  assumes "fflib_ok L"
  shows "MarshalJSON L (enc L) None = Inr (render (jstr L) JNull)"
  using assms by (simp add: MarshalJSON_def fflib_okD)

end

section \<open>The contract holds of every encoder\<close>

lemma keys_text:
  assumes "fflib_ok L"
  shows "plain_key k \<Longrightarrow> CHR 0x22 # k @ CHR 0x22 # t = jstr L k @ t"
  using fflib_okD(7) [OF assms, of k] by (simp add: quoted_def)

lemma plain_keys:
  "list_all plain_key [''name'', ''type'', ''connect_timeout_ms'', ''lb_type'', ''service_name'',
     ''clusters'', ''operation_name'', ''operation'', ''timeout_ms'', ''prefix'', ''host_rewrite'',
     ''cluster'', ''decorator'', ''destination_ip_list'', ''destination_ports'', ''source_ip_list'',
     ''source_ports'', ''domains'', ''routes'', ''virtual_hosts'', ''codec_type'', ''stat_prefix'',
     ''route_config'', ''filters'', ''tracing'', ''config'', ''address'', ''listeners'',
     ''ip_address'', ''last_check_in'', ''port'', ''revision'', ''service'', ''service_repo_name'',
     ''tags'', ''env'', ''hosts'']"
  by code_simp

lemmas plain_key_simps = plain_keys [simplified]

lemma key_jstr: "fflib_ok L \<Longrightarrow> plain_key k \<Longrightarrow> jstr L k = quoted k"
  by (rule fflib_okD(7))

interpretation cluster: json_encoder EnvoyCluster_MarshalJSONBuf "\<lambda>_. True" cluster_json
  by unfold_locales
    (simp_all add: EnvoyCluster_MarshalJSONBuf_def cluster_json_def fflib_okD key_jstr
      plain_key_simps quoted_def Let_def)

lemma CDSResult_text:
  assumes "fflib_ok L" and "no_nil (\<lambda>_. True) (cds_Clusters r)"
  shows "\<exists>b'. CDSResult_MarshalJSONBuf L (Some r) b = (None, b')
    \<and> ff_Bytes L b' = ff_Bytes L b @ render (jstr L) (cds_json r)"
  using cluster.write_ptr_slice_text [OF assms, of "ff_WriteString L ''{\"clusters\":'' b"] assms(1)
  by (auto simp: CDSResult_MarshalJSONBuf_def cds_json_def fflib_okD key_jstr plain_key_simps quoted_def)

interpretation cds: json_encoder CDSResult_MarshalJSONBuf "\<lambda>r. no_nil (\<lambda>_. True) (cds_Clusters r)" cds_json
  by unfold_locales (simp add: CDSResult_MarshalJSONBuf_def, rule CDSResult_text)

interpretation tracing: json_encoder EnvoyTracingConfig_MarshalJSONBuf "\<lambda>_. True" tracing_json
  by unfold_locales
    (simp_all add: EnvoyTracingConfig_MarshalJSONBuf_def tracing_json_def fflib_okD key_jstr
      plain_key_simps quoted_def Let_def)

text \<open>Objects that open with a blank and close after a rewind: opened, filled, closed.\<close>

lemma close_object:
  assumes "fflib_ok L" and "ff_Bytes L b = s @ ''{ '' @ commaed (render_fields (jstr L) fs)"
  shows "\<exists>b'. close_rewound L b = (None, b') \<and> ff_Bytes L b' = s @ render (jstr L) (JObject True fs)"
proof -
  have "render_fields (jstr L) fs = [] \<longleftrightarrow> fs = []"
    by (cases fs) (auto simp: render_fields_map)
  with close_rewound_text [OF assms] show ?thesis by simp
qed

lemma flow_close:
  assumes "fflib_ok L"
    and "\<exists>b'. fl = Next b' \<and> ff_Bytes L b' = s @ ''{ '' @ commaed (render_fields (jstr L) fs)"
  shows "\<exists>b'. flow_then fl (close_rewound L) = (None, b')
    \<and> ff_Bytes L b' = s @ render (jstr L) (JObject True fs)"
proof -
  obtain b' where b': "fl = Next b'" "ff_Bytes L b' = s @ ''{ '' @ commaed (render_fields (jstr L) fs)"
    using assms(2) by blast
  from close_object [OF assms(1) b'(2)] b'(1) show ?thesis by (simp only: flow_then.simps)
qed

interpretation decorator: json_encoder EnvoyRouteDecorator_MarshalJSONBuf "\<lambda>_. True" decorator_json
proof (unfold_locales, goal_cases)
  case (2 L d b)
  let ?b = "omitempty_string L ''\"operation\":'' (dec_Operation d) (ff_WriteString L ''{ '' b)"
  have "ff_Bytes L ?b = ff_Bytes L b @ ''{ '' @ commaed (render_fields (jstr L) (str_field ''operation'' (dec_Operation d)))"
    using 2 by (simp add: omitempty_string_text [where k = "''operation''"] fflib_okD key_jstr
        plain_key_simps quoted_def)
  from close_object [OF 2(1) this] show ?case
    by (simp add: EnvoyRouteDecorator_MarshalJSONBuf_def decorator_json_def)
qed (simp add: EnvoyRouteDecorator_MarshalJSONBuf_def)

interpretation route: json_encoder EnvoyRoute_MarshalJSONBuf "\<lambda>_. True" route_json
proof (unfold_locales, goal_cases)
  case (2 L r b)
  let ?mandatory = "[(''timeout_ms'', JNumber (sint (rt_TimeoutMs r))), (''prefix'', JString (rt_Prefix r)),
       (''host_rewrite'', JString (rt_HostRewrite r)), (''cluster'', JString (rt_Cluster r))]"
  have key: "''\"decorator\":'' = jstr L ''decorator'' @ '':''"
    using 2 by (simp add: key_jstr plain_key_simps quoted_def)
  let ?b = "ff_WriteByte L CHR '','' (ff_WriteJsonString L (rt_Cluster r) (ff_WriteString L '',\"cluster\":''
      (ff_WriteJsonString L (rt_HostRewrite r) (ff_WriteString L '',\"host_rewrite\":''
      (ff_WriteJsonString L (rt_Prefix r) (ff_WriteString L '',\"prefix\":''
      (ff_FormatBits2 L (rt_TimeoutMs r) 10 (sint (rt_TimeoutMs r) < 0)
      (ff_WriteString L ''{ \"timeout_ms\":'' b))))))))"
  have opened: "ff_Bytes L ?b = ff_Bytes L b @ ''{ '' @ commaed (render_fields (jstr L) ?mandatory)"
    using 2 by (simp add: fflib_okD key_jstr plain_key_simps quoted_def)
  obtain b' where "omitempty_ptr L ''\"decorator\":'' (EnvoyRouteDecorator_MarshalJSONBuf L) (rt_Decorator r) ?b = Next b'"
      "ff_Bytes L b' = ff_Bytes L ?b
        @ commaed (render_fields (jstr L) (ptr_field ''decorator'' decorator_json (rt_Decorator r)))"
    using decorator.omitempty_ptr_text [OF 2(1) _ key, of "rt_Decorator r" ?b] by blast
  then show ?case
    unfolding EnvoyRoute_MarshalJSONBuf_def option.case Let_def route_json_def
    by (intro flow_close [OF 2(1)]) (simp only: opened flow.inject render_fields_append commaed_simps append.assoc ex_simps simp_thms)
qed (simp add: EnvoyRoute_MarshalJSONBuf_def)

interpretation tcp_route: json_encoder EnvoyTCPRoute_MarshalJSONBuf "\<lambda>_. True" tcp_route_json
proof (unfold_locales, goal_cases)
  case (2 L r b)
  have keys: "''\"destination_ip_list\":'' = jstr L ''destination_ip_list'' @ '':''"
    "''\"destination_ports\":'' = jstr L ''destination_ports'' @ '':''"
    "''\"source_ip_list\":'' = jstr L ''source_ip_list'' @ '':''"
    "''\"source_ports\":'' = jstr L ''source_ports'' @ '':''"
    using 2 by (simp_all add: key_jstr plain_key_simps quoted_def)
  show ?case
    unfolding EnvoyTCPRoute_MarshalJSONBuf_def option.case Let_def tcp_route_json_def
    by (intro close_object [OF 2(1)])
      (simp add: omitempty_strings_text [OF 2(1) keys(1)] omitempty_strings_text [OF 2(1) keys(3)]
        omitempty_strings_text [OF 2(1) keys(4)] omitempty_string_text [OF 2(1) keys(2)]
        fflib_okD [OF 2(1)] key_jstr [OF 2(1)] plain_key_simps quoted_def)
qed (simp add: EnvoyTCPRoute_MarshalJSONBuf_def)

interpretation vhost: json_encoder EnvoyHTTPVirtualHost_MarshalJSONBuf vhost_ok vhost_json
proof (unfold_locales, goal_cases)
  case (2 L h b)
  then show ?case
    using route.write_ptr_slice_text [OF 2(1), of "vh_Routes h"
        "ff_WriteString L '',\"routes\":'' (write_string_slice L (vh_Domains h)
          (ff_WriteString L '',\"domains\":'' (ff_WriteJsonString L (vh_Name h)
            (ff_WriteString L ''{\"name\":'' b))))"]
    by (auto simp: EnvoyHTTPVirtualHost_MarshalJSONBuf_def vhost_json_def vhost_ok_def
        write_string_slice_text fflib_okD key_jstr plain_key_simps quoted_def Let_def)
qed (simp add: EnvoyHTTPVirtualHost_MarshalJSONBuf_def)

lemma flow_fields:
  assumes "\<exists>b'. fl = Next b' \<and> ff_Bytes L b' = s @ commaed fs"
    and "\<And>b'. ff_Bytes L b' = s @ commaed fs \<Longrightarrow>
      \<exists>b''. k b' = Next b'' \<and> ff_Bytes L b'' = ff_Bytes L b' @ commaed gs"
  shows "\<exists>b'. flow_bind fl k = Next b' \<and> ff_Bytes L b' = s @ commaed (fs @ gs)"
  using assms by fastforce

interpretation route_config: json_encoder EnvoyRouteConfig_MarshalJSONBuf route_config_ok route_config_json
proof (unfold_locales, goal_cases)
  case (2 L c b)
  have keys: "''\"virtual_hosts\":'' = jstr L ''virtual_hosts'' @ '':''" "''\"routes\":'' = jstr L ''routes'' @ '':''"
    using 2 by (simp_all add: key_jstr plain_key_simps quoted_def)
  have ok: "no_nil vhost_ok (rc_VirtualHosts c)" "no_nil (\<lambda>_. True) (rc_Routes c)"
    using 2(2) by (simp_all add: route_config_ok_def)
  show ?case
    unfolding EnvoyRouteConfig_MarshalJSONBuf_def option.case Let_def route_config_json_def
    using flow_fields [OF vhost.omitempty_ptrs_text [OF 2(1) ok(1) keys(1), of "ff_WriteString L ''{ '' b"]
        tcp_route.omitempty_ptrs_text [OF 2(1) ok(2) keys(2)]]
    by (intro flow_close [OF 2(1)]) (simp add: fflib_okD [OF 2(1)])
qed (simp add: EnvoyRouteConfig_MarshalJSONBuf_def)

subsection \<open>Filters and their configurations\<close>

text \<open>
  The two encoders call each other, so their contracts are proved together, by induction over
  the objects; each step of the induction is a lemma of its own.
\<close>

definition writes :: "'b fflib \<Rightarrow> 'b marshalled \<Rightarrow> 'b \<Rightarrow> json \<Rightarrow> bool" where
  "writes L res b v \<longleftrightarrow> (\<exists>b'. res = (None, b') \<and> ff_Bytes L b' = ff_Bytes L b @ render (jstr L) v)"

definition filters_field :: "EnvoyFilter option list option \<Rightarrow> (string \<times> json) list" where
  "filters_field filters =
     (case filters of None \<Rightarrow> []
      | Some vs \<Rightarrow> if vs = [] then [] else [(''filters'', JArray (filters_json vs))])"

lemma filter_writes:
  assumes "fflib_ok L"
    and "\<And>c b. config = Some c \<Longrightarrow> writes L (EnvoyFilterConfig_MarshalJSONBuf L (Some c) b) b (config_json c)"
  shows "writes L (EnvoyFilter_MarshalJSONBuf L (Some (EnvoyFilter name config)) b) b
    (filter_json (EnvoyFilter name config))"
proof (cases config)
  case None
  with assms(1) show ?thesis
    by (simp add: writes_def fflib_okD key_jstr plain_key_simps quoted_def)
next
  case (Some c)
  let ?b = "ff_WriteString L '',\"config\":'' (ff_WriteJsonString L name (ff_WriteString L ''{\"name\":'' b))"
  obtain b' where "EnvoyFilterConfig_MarshalJSONBuf L (Some c) ?b = (None, b')"
      "ff_Bytes L b' = ff_Bytes L ?b @ render (jstr L) (config_json c)"
    using assms(2) [OF Some, of ?b] by (auto simp: writes_def)
  with Some assms(1) show ?thesis
    by (simp add: writes_def flow_call_def fflib_okD key_jstr plain_key_simps quoted_def)
qed

lemma filters_loop_writes:
  assumes "fflib_ok L"
    and "\<And>b. writes L (EnvoyFilter_MarshalJSONBuf L (Some f) b) b (filter_json f)"
    and "\<And>i b. \<exists>b'. write_filters L i vs b = Next b' \<and> ff_Bytes L b' = ff_Bytes L b
      @ (if i \<noteq> 0 \<and> vs \<noteq> [] then '','' else []) @ join '','' (render_list (jstr L) (filters_json vs))"
  shows "\<exists>b'. write_filters L i (Some f # vs) b = Next b' \<and> ff_Bytes L b' = ff_Bytes L b
      @ (if i \<noteq> 0 then '','' else []) @ join '','' (render_list (jstr L) (filters_json (Some f # vs)))"
proof -
  let ?b = "if i \<noteq> 0 then ff_WriteString L '','' b else b"
  obtain b1 where b1: "EnvoyFilter_MarshalJSONBuf L (Some f) ?b = (None, b1)"
      "ff_Bytes L b1 = ff_Bytes L ?b @ render (jstr L) (filter_json f)"
    using assms(2) [of ?b] by (auto simp: writes_def)
  obtain b2 where "write_filters L (Suc i) vs b1 = Next b2"
      "ff_Bytes L b2 = ff_Bytes L b1 @ (if vs \<noteq> [] then '','' else [])
         @ join '','' (render_list (jstr L) (filters_json vs))"
    using assms(3) [of "Suc i" b1] by auto
  with b1 assms(1) show ?thesis
    by (cases vs) (simp_all add: flow_call_def fflib_okD Let_def)
qed

lemma filters_field_writes:
  assumes "fflib_ok L"
    and "\<And>vs b. filters = Some vs \<Longrightarrow> \<exists>b'. write_filters L 0 vs b = Next b'
      \<and> ff_Bytes L b' = ff_Bytes L b @ join '','' (render_list (jstr L) (filters_json vs))"
  shows "\<exists>b'. (case filters of
        None \<Rightarrow> Next b
      | Some vs \<Rightarrow>
          if length vs \<noteq> 0
          then flow_bind (write_filters L 0 vs (ff_WriteString L ''['' (ff_WriteString L ''\"filters\":'' b)))
                 (\<lambda>buf. Next (ff_WriteByte L CHR '','' (ff_WriteString L '']'' buf)))
          else Next b) = Next b'
    \<and> ff_Bytes L b' = ff_Bytes L b @ commaed (render_fields (jstr L) (filters_field filters))"
proof (cases filters)
  case None
  then show ?thesis by (simp add: filters_field_def)
next
  case (Some vs)
  with assms(2) [OF Some, of "ff_WriteString L ''['' (ff_WriteString L ''\"filters\":'' b)"] assms(1)
  show ?thesis
    by (auto simp: filters_field_def fflib_okD key_jstr plain_key_simps quoted_def)
qed

lemma config_writes:
  assumes "fflib_ok L" and "\<And>r. route = Some r \<Longrightarrow> route_config_ok r"
    and "\<And>vs b. filters = Some vs \<Longrightarrow> \<exists>b'. write_filters L 0 vs b = Next b'
      \<and> ff_Bytes L b' = ff_Bytes L b @ join '','' (render_list (jstr L) (filters_json vs))"
  shows "writes L (EnvoyFilterConfig_MarshalJSONBuf L
      (Some (EnvoyFilterConfig codec prefix route filters tracing)) b) b
    (config_json (EnvoyFilterConfig codec prefix route filters tracing))"
proof -
  have keys: "''\"codec_type\":'' = jstr L ''codec_type'' @ '':''"
    "''\"stat_prefix\":'' = jstr L ''stat_prefix'' @ '':''"
    "''\"route_config\":'' = jstr L ''route_config'' @ '':''"
    "''\"tracing\":'' = jstr L ''tracing'' @ '':''"
    using assms(1) by (simp_all add: key_jstr plain_key_simps quoted_def)
  let ?b = "omitempty_string L ''\"stat_prefix\":'' prefix
      (omitempty_string L ''\"codec_type\":'' codec (ff_WriteString L ''{ '' b))"
  let ?strs = "str_field ''codec_type'' codec @ str_field ''stat_prefix'' prefix"
  have opened: "ff_Bytes L ?b = ff_Bytes L b @ ''{ '' @ commaed (render_fields (jstr L) ?strs)"
    by (simp add: omitempty_string_text [OF assms(1) keys(1)] omitempty_string_text [OF assms(1) keys(2)]
        fflib_okD [OF assms(1)])
  note fields = flow_fields [OF flow_fields [OF
        route_config.omitempty_ptr_text [OF assms(1,2) keys(3), of route ?b]
        filters_field_writes [OF assms(1,3)]]
      tracing.omitempty_ptr_text [OF assms(1) TrueI keys(4)]]
  show ?thesis
    unfolding writes_def EnvoyFilterConfig_MarshalJSONBuf.simps Let_def config_json.simps
      filters_field_def [symmetric]
    using fields
    by (intro flow_close [OF assms(1)]) (simp only: opened render_fields_append commaed_simps append.assoc)
qed

lemma filters_write:
  assumes "fflib_ok L"
  shows "filter_ok f \<Longrightarrow> writes L (EnvoyFilter_MarshalJSONBuf L (Some f) b) b (filter_json f)"
    and "config_ok c \<Longrightarrow> writes L (EnvoyFilterConfig_MarshalJSONBuf L (Some c) b) b (config_json c)"
    and "filters_ok vs \<Longrightarrow> \<exists>b'. write_filters L i vs b = Next b' \<and> ff_Bytes L b' = ff_Bytes L b
      @ (if i \<noteq> 0 \<and> vs \<noteq> [] then '','' else []) @ join '','' (render_list (jstr L) (filters_json vs))"
proof (induction f and c and vs arbitrary: b and b and i b
    rule: filter_ok_config_ok_filters_ok.induct)
  case (1 name config)
  then show ?case by (intro filter_writes [OF assms]) auto
next
  case (2 codec prefix route filters tracing)
  have loop: "\<exists>b'. write_filters L 0 vs b = Next b'
      \<and> ff_Bytes L b' = ff_Bytes L b @ join '','' (render_list (jstr L) (filters_json vs))"
    if "filters = Some vs" for vs b
    using "2.IH" [OF that, of 0 b] "2.prems" that by simp
  show ?case
    using "2.prems" by (intro config_writes [OF assms _ loop]) auto
next
  case 3
  then show ?case by simp
next
  case (4 v vs)
  then obtain f where f: "v = Some f" "filter_ok f" "filters_ok vs" by (auto split: option.splits)
  show ?case
    using filters_loop_writes [OF assms "4.IH"(1) [OF f(1,2)] "4.IH"(2) [OF f(3)]] f(1)
    by simp
qed

interpretation filt: json_encoder EnvoyFilter_MarshalJSONBuf filter_ok filter_json
proof (unfold_locales, goal_cases)
  case (2 L f b)
  then show ?case using filters_write(1) by (auto simp: writes_def)
qed simp

interpretation config: json_encoder EnvoyFilterConfig_MarshalJSONBuf config_ok config_json
proof (unfold_locales, goal_cases)
  case (2 L c b)
  then show ?case using filters_write(2) by (auto simp: writes_def)
qed simp

subsection \<open>Listeners and services\<close>

interpretation listener: json_encoder EnvoyListener_MarshalJSONBuf listener_ok listener_json
proof (unfold_locales, goal_cases)
  case (2 L l b)
  then show ?case
    using filt.write_ptr_slice_text [OF 2(1), of "ls_Filters l"
        "ff_WriteString L '',\"filters\":'' (ff_WriteJsonString L (ls_Address l)
          (ff_WriteString L '',\"address\":'' (ff_WriteJsonString L (ls_Name l)
            (ff_WriteString L ''{\"name\":'' b))))"]
    by (auto simp: EnvoyListener_MarshalJSONBuf_def listener_json_def listener_ok_def
        fflib_okD key_jstr plain_key_simps quoted_def Let_def)
qed (simp add: EnvoyListener_MarshalJSONBuf_def)

interpretation lds: json_encoder LDSResult_MarshalJSONBuf lds_ok lds_json
proof (unfold_locales, goal_cases)
  case (2 L r b)
  then show ?case
    using listener.write_ptr_slice_text [OF 2(1), of "lds_Listeners r"
        "ff_WriteString L ''{\"listeners\":'' b"]
    by (auto simp: LDSResult_MarshalJSONBuf_def lds_json_def lds_ok_def
        fflib_okD key_jstr plain_key_simps quoted_def Let_def)
qed (simp add: LDSResult_MarshalJSONBuf_def)

lemma write_tags_text:
  assumes "fflib_ok L"
  shows "ff_Bytes L (write_tags L m keys b)
    = ff_Bytes L b @ commaed (render_fields (jstr L) (map (\<lambda>k. (k, JString (the (m k)))) keys))"
  using assms by (induction keys arbitrary: b) (simp_all add: fflib_okD Let_def)

lemma rewind_tags_text:
  assumes "fflib_ok L"
  shows "ff_Bytes L (ff_Rewind L (Suc 0) (write_tags L m (ord m) (ff_WriteString L '',\"tags\":{ '' b))) @ CHR ''}'' # t
    = ff_Bytes L b @ '',\"tags\":'' @ render (jstr L) (tags_json ord (Some m)) @ t"
proof -
  let ?fs = "map (\<lambda>k. (k, JString (the (m k)))) (ord m)"
  have "ff_Bytes L (write_tags L m (ord m) (ff_WriteString L '',\"tags\":{ '' b))
      = (ff_Bytes L b @ '',\"tags\":'') @ ''{ '' @ commaed (render_fields (jstr L) ?fs)"
    using assms by (simp add: write_tags_text fflib_okD)
  from close_object [OF assms this] show ?thesis
    by (auto simp: close_rewound_def tags_json_def fflib_okD [OF assms] dest: arg_cong [where f = "\<lambda>x. x @ t"])
qed

interpretation service: json_encoder "EnvoyService_MarshalJSONBuf ord" "\<lambda>_. True" "service_json ord" for ord
proof (unfold_locales, goal_cases)
  case (2 L v b)
  show ?case
  proof (cases "svc_Tags v")
    case None
    with 2 show ?thesis
      by (simp add: EnvoyService_MarshalJSONBuf_def service_json_def tags_json_def
          fflib_okD key_jstr plain_key_simps quoted_def Let_def)
  next
    case (Some m)
    with 2 show ?thesis
      by (simp add: EnvoyService_MarshalJSONBuf_def service_json_def rewind_tags_text
          fflib_okD key_jstr plain_key_simps quoted_def Let_def)
  qed
qed (simp add: EnvoyService_MarshalJSONBuf_def)

interpretation sds: json_encoder "SDSResult_MarshalJSONBuf ord"
  "\<lambda>r. no_nil (\<lambda>_. True) (sds_Hosts r)" "sds_json ord" for ord
proof (unfold_locales, goal_cases)
  case (2 L r b)
  then show ?case
    using service.write_ptr_slice_text [OF 2(1), of "sds_Hosts r" ord
        "ff_WriteString L '',\"hosts\":'' (ff_WriteJsonString L (sds_Env r)
          (ff_WriteString L ''{\"env\":'' b))"]
    by (auto simp: SDSResult_MarshalJSONBuf_def sds_json_def
        fflib_okD key_jstr plain_key_simps quoted_def Let_def)
qed (simp add: SDSResult_MarshalJSONBuf_def)

section \<open>Properties\<close>

text \<open>
  C11: The generated encoders implement their specification: for every discovery result without nil
  elements the encoder succeeds and its output is the text of the JSON value that the struct tags
  describe, whatever the strings and numbers are; a nil result is \<open>null\<close>.
\<close>

theorem encoders_refine:
  assumes "fflib_ok L"
  shows "(no_nil (\<lambda>_. True) (cds_Clusters c) \<longrightarrow>
            CDSResult_MarshalJSON L (Some c) = Inr (render (jstr L) (cds_json c)))
    \<and> (no_nil (\<lambda>_. True) (sds_Hosts s) \<longrightarrow>
            SDSResult_MarshalJSON ord L (Some s) = Inr (render (jstr L) (sds_json ord s)))
    \<and> (lds_ok l \<longrightarrow> LDSResult_MarshalJSON L (Some l) = Inr (render (jstr L) (lds_json l)))
    \<and> CDSResult_MarshalJSON L None = Inr ''null'' \<and> SDSResult_MarshalJSON ord L None = Inr ''null''
    \<and> LDSResult_MarshalJSON L None = Inr ''null''"
  using cds.MarshalJSON_text [OF assms] sds.MarshalJSON_text [OF assms] lds.MarshalJSON_text [OF assms]
    cds.MarshalJSON_null [OF assms] sds.MarshalJSON_null [OF assms] lds.MarshalJSON_null [OF assms]
  by (simp add: CDSResult_MarshalJSON_def SDSResult_MarshalJSON_def LDSResult_MarshalJSON_def)

definition sample_cluster :: EnvoyCluster where
  "sample_cluster =
     \<lparr>cl_Name = ''web-80'', cl_Type = ''sds'', cl_ConnectTimeoutMs = 500, cl_LBType = ''round_robin'',
      cl_ServiceName = ''web-80''\<rparr>"

lemma encoders_refine_witness:
  "CDSResult_MarshalJSON list_fflib (Some \<lparr>cds_Clusters = Some [Some sample_cluster]\<rparr>) =
     Inr (render (jstr list_fflib) (cds_json \<lparr>cds_Clusters = Some [Some sample_cluster]\<rparr>))"
  using encoders_refine [OF list_fflib_ok, of "\<lparr>cds_Clusters = Some [Some sample_cluster]\<rparr>"
      "\<lparr>sds_Env = [], sds_Hosts = None, sds_Service = []\<rparr>" "\<lambda>_. []" "\<lparr>lds_Listeners = None\<rparr>"]
  by (simp add: no_nil_def)

text \<open>
  C35: A nil element is where the text of a slice ends: the encoder reports success, but the elements
  after it and every closing bracket are missing, so the document is not JSON.
\<close>

theorem nil_element_truncates:
  assumes "fflib_ok L"
  shows "CDSResult_MarshalJSON L (Some \<lparr>cds_Clusters = Some (map Some xs @ None # ys)\<rparr>) =
    Inr (''{\"clusters\":['' @ join '','' (map (\<lambda>x. render (jstr L) (cluster_json x)) xs @ [''null'']))"
proof -
  let ?b = "ff_WriteString L ''['' (ff_WriteString L ''{\"clusters\":'' (ff_new L))"
  obtain b' where "write_ptrs L (EnvoyCluster_MarshalJSONBuf L) 0 (map Some xs @ None # ys) ?b = Return None b'"
      "ff_Bytes L b' = ff_Bytes L ?b @ join '','' (map (\<lambda>x. render (jstr L) (cluster_json x)) xs @ [''null''])"
    using cluster.write_ptrs_nil [OF assms, of xs 0 ys ?b] by (auto simp: list_all_iff)
  with assms show ?thesis
    by (simp add: CDSResult_MarshalJSON_def CDSResult_MarshalJSONBuf_def MarshalJSON_def
        write_ptr_slice_def fflib_okD)
qed

lemma nil_element_truncates_witness:
  "CDSResult_MarshalJSON list_fflib (Some \<lparr>cds_Clusters = Some [None, Some sample_cluster]\<rparr>) =
     Inr ''{\"clusters\":[null''"
  using nil_element_truncates [OF list_fflib_ok, of "[]" "[Some sample_cluster]"] by simp

end
