(* ===== verification/EnvoyApi.thy ===== *)
theory EnvoyApi
  imports Registrar FFJsonSpec
begin

text \<open>
  The HTTP service that Envoy polls (\<open>internal/envoyhttp/envoy_api.go\<close>): the conversion of
  registrar entries to hosts, clusters and listeners, the handlers of the three discovery
  services, the error response, and the table of routes. The clock, the order in which Go visits
  a map and the JSON library are arguments; the matching of a path against a route belongs to
  gorilla's router, which gives the handlers the variables of the path. The handlers' log lines
  and the closing of the request's body are not modelled.
\<close>

section \<open>From entries to Envoy's objects\<close>

text \<open>\<open>now\<close> is the text of the time at which the handler asks for it.\<close>

definition EnvoyServiceFromEntry :: "string \<Rightarrow> Entry option \<Rightarrow> EnvoyService option" where
  "EnvoyServiceFromEntry now entry =
     (case entry of
        None \<Rightarrow> None
      | Some entry \<Rightarrow> Some
          \<lparr>svc_IPAddress = IP_String (IP (entry_BackendAddr entry)),
           svc_LastCheckIn = now,
           svc_Port = Port (entry_BackendAddr entry),
           svc_Revision = ''1'',
           svc_Service = SvcName entry,
           svc_ServiceRepoName = ''docker service'',
           svc_Tags = Some Map.empty\<rparr>)"

text \<open>
  The closures given to \<open>EachEntry\<close> append to a slice variable of the caller that starts nil; the
  nil slice becomes an empty one before it is returned.
\<close>

definition EnvoyClustersFromRegistrar ::
  "string list \<Rightarrow> Registrar \<Rightarrow> EnvoyCluster option list option" where
  "EnvoyClustersFromRegistrar ks registrar =
     (let clusters = snd (EachEntry ks registrar
            (\<lambda>name entry clusters.
               (None, slice_append clusters (Some
                  \<lparr>cl_Name = SvcName entry,
                   cl_Type = ''sds'',
                   cl_ConnectTimeoutMs = 500,
                   cl_LBType = ''round_robin'',
                   cl_ServiceName = SvcName entry\<rparr>)))
            None)
      in if clusters = None then Some [] else clusters)"

definition http_filter :: "Entry \<Rightarrow> string \<Rightarrow> EnvoyFilter" where
  "http_filter entry apiName =
     EnvoyFilter ''envoy.http_connection_manager''
       (Some (EnvoyFilterConfig ''auto'' ''ingress_http''
          (Some \<lparr>rc_VirtualHosts = Some [Some
                   \<lparr>vh_Name = SvcName entry,
                    vh_Domains = Some [''*''],
                    vh_Routes = Some [Some
                      \<lparr>rt_TimeoutMs = 0, rt_Prefix = ''/'', rt_HostRewrite = [], rt_Cluster = apiName,
                       rt_Decorator = Some \<lparr>dec_Operation = entry_ServiceName entry\<rparr>\<rparr>]\<rparr>],
                 rc_Routes = None\<rparr>)
          (Some [Some (EnvoyFilter ''router'' (Some (EnvoyFilterConfig [] [] None None None)))])
          (Some \<lparr>tr_OperationName = ''egress''\<rparr>)))"

definition tcp_filter :: "Entry \<Rightarrow> EnvoyFilter" where
  "tcp_filter entry =
     EnvoyFilter ''envoy.tcp_proxy''
       (Some (EnvoyFilterConfig [] ''ingress_tcp''
          (Some \<lparr>rc_VirtualHosts = None,
                 rc_Routes = Some [Some
                   \<lparr>tcp_Cluster = SvcName entry, tcp_DestinationIPList = None,
                    tcp_DestinationPorts = [], tcp_SourceIPList = None, tcp_SourcePorts = None\<rparr>]\<rparr>)
          None None))"

definition EnvoyListenerFromEntry :: "Entry \<Rightarrow> EnvoyListener" where
  "EnvoyListenerFromEntry entry =
     (let apiName = SvcName entry;
          listener = \<lparr>ls_Name = apiName,
                      ls_Address = ''tcp://'' @ IP_String (IP (entry_FrontendAddr entry)) @ '':''
                                   @ fmt_d (sint (Port (entry_FrontendAddr entry))),
                      ls_Filters = None\<rparr>
      in if entry_ProxyMode entry = ''http''
         then listener\<lparr>ls_Filters := Some [Some (http_filter entry apiName)]\<rparr>
         else listener\<lparr>ls_Filters := Some [Some (tcp_filter entry)]\<rparr>)"

definition EnvoyListenersFromRegistrar ::
  "string list \<Rightarrow> Registrar \<Rightarrow> EnvoyListener option list option" where
  "EnvoyListenersFromRegistrar ks registrar =
     (let listeners = snd (EachEntry ks registrar
            (\<lambda>name entry listeners. (None, slice_append listeners (Some (EnvoyListenerFromEntry entry))))
            None)
      in if listeners = None then Some [] else listeners)"

section \<open>Responses and handlers\<close>

text \<open>
  A \<open>ResponseWriter\<close>: the headers, the status once it is written, the body so far. A write with
  no status sends status 200 first; a second status is ignored, as \<open>net/http\<close> does.
\<close>

record Response =
  resp_Header :: "string \<rightharpoonup> string"
  resp_Status :: "int option"
  resp_Body :: string

definition fresh_response :: Response where
  "fresh_response = \<lparr>resp_Header = Map.empty, resp_Status = None, resp_Body = []\<rparr>"

definition Header_Set :: "string \<Rightarrow> string \<Rightarrow> Response \<Rightarrow> Response" where
  "Header_Set k v response = response\<lparr>resp_Header := (resp_Header response)(k \<mapsto> v)\<rparr>"

definition WriteHeader :: "int \<Rightarrow> Response \<Rightarrow> Response" where
  "WriteHeader status response =
     (if resp_Status response = None then response\<lparr>resp_Status := Some status\<rparr> else response)"

definition Write :: "string \<Rightarrow> Response \<Rightarrow> Response" where
  "Write s response =
     (let response = WriteHeader 200 response
      in response\<lparr>resp_Body := resp_Body response @ s\<rparr>)"

definition sendJsonError :: "int \<Rightarrow> string \<Rightarrow> Response \<Rightarrow> Response" where
  "sendJsonError status message response =
     (case Marshal_string_map [(''status'', ''error''), (''message'', message)] of
        Inl err \<Rightarrow> Write ''Interval server error'' (WriteHeader 500 response)
      | Inr jsonBytes \<Rightarrow>
          Write jsonBytes
            (WriteHeader status (Header_Set ''Content-Type'' ''application/json'' response)))"

definition optionsHandler :: "Response \<Rightarrow> Response" where
  "optionsHandler response =
     Header_Set ''Access-Control-Allow-Methods'' ''GET''
       (Header_Set ''Access-Control-Allow-Origin'' ''*'' response)"

text \<open>The end of a handler: an error of the encoder is answered with status 500.\<close>

definition respond :: "goerror + string \<Rightarrow> Response \<Rightarrow> Response" where
  "respond marshalled response =
     (case marshalled of
        Inl err \<Rightarrow> sendJsonError 500 ''Internal server error'' response
      | Inr jsonBytes \<Rightarrow> Write jsonBytes response)"

text \<open>\<open>params\<close> are the variables of the path; indexing a nil map finds nothing.\<close>

definition registrationHandler ::
  "'b fflib \<Rightarrow> ((string \<rightharpoonup> string) \<Rightarrow> string list) \<Rightarrow> string \<Rightarrow> Registrar \<Rightarrow> (string \<rightharpoonup> string)
   \<Rightarrow> Response \<Rightarrow> Response" where
  "registrationHandler L ord now registrar params response =
     (let response = Header_Set ''Content-Type'' ''application/json'' response
      in case params ''service'' of
           None \<Rightarrow> sendJsonError 404 ''Not Found - No service name provided'' response
         | Some name \<Rightarrow>
             (case GetEntry registrar name of
                None \<Rightarrow> sendJsonError 404 (''no instances of '' @ [CHR 0x27] @ name @ [CHR 0x27] @ '' found'') response
              | Some entry \<Rightarrow>
                  let instances = [EnvoyServiceFromEntry now (Some entry)];
                      result = \<lparr>sds_Env = [], sds_Hosts = Some instances, sds_Service = name\<rparr>
                  in respond (SDSResult_MarshalJSON ord L (Some result)) response))"

definition clustersHandler ::
  "'b fflib \<Rightarrow> string list \<Rightarrow> Registrar \<Rightarrow> (string \<rightharpoonup> string) \<Rightarrow> Response \<Rightarrow> Response" where
  "clustersHandler L ks registrar params response =
     (let response = Header_Set ''Content-Type'' ''application/json'' response;
          clusters = EnvoyClustersFromRegistrar ks registrar;
          result = \<lparr>cds_Clusters = clusters\<rparr>
      in respond (CDSResult_MarshalJSON L (Some result)) response)"

definition listenersHandler ::
  "'b fflib \<Rightarrow> string list \<Rightarrow> Registrar \<Rightarrow> (string \<rightharpoonup> string) \<Rightarrow> Response \<Rightarrow> Response" where
  "listenersHandler L ks registrar params response =
     (let response = Header_Set ''Content-Type'' ''application/json'' response;
          listeners = EnvoyListenersFromRegistrar ks registrar;
          result = \<lparr>lds_Listeners = listeners\<rparr>
      in respond (LDSResult_MarshalJSON L (Some result)) response)"

section \<open>Routes\<close>

datatype Handler = Registration | Clusters | Listeners | Options

record Route =
  route_Path :: string
  route_Handler :: Handler
  route_Method :: string

text \<open>The routes in the order in which they are added, which is the order they are tried.\<close>

definition HttpMux :: "Route list" where
  "HttpMux =
     [\<lparr>route_Path = ''/registration/{service}'', route_Handler = Registration, route_Method = ''GET''\<rparr>,
      \<lparr>route_Path = ''/clusters/{service_cluster}/{service_node}'', route_Handler = Clusters, route_Method = ''GET''\<rparr>,
      \<lparr>route_Path = ''/clusters'', route_Handler = Clusters, route_Method = ''GET''\<rparr>,
      \<lparr>route_Path = ''/listeners/{service_cluster}/{service_node}'', route_Handler = Listeners, route_Method = ''GET''\<rparr>,
      \<lparr>route_Path = ''/listeners'', route_Handler = Listeners, route_Method = ''GET''\<rparr>,
      \<lparr>route_Path = ''/{path}'', route_Handler = Options, route_Method = ''OPTIONS''\<rparr>]"

text \<open>
  \<open>wrap\<close> passes the variables of the path to a handler. Which route takes a request is up to
  gorilla's router, here the argument \<open>router\<close>: it gives the route and the variables, or nothing
  for a request that it answers itself.
\<close>

definition wrap ::
  "'b fflib \<Rightarrow> ((string \<rightharpoonup> string) \<Rightarrow> string list) \<Rightarrow> string list \<Rightarrow> string \<Rightarrow> Registrar \<Rightarrow> Handler
   \<Rightarrow> (string \<rightharpoonup> string) \<Rightarrow> Response \<Rightarrow> Response" where
  "wrap L ord ks now registrar h params response =
     (case h of
        Registration \<Rightarrow> registrationHandler L ord now registrar params response
      | Clusters \<Rightarrow> clustersHandler L ks registrar params response
      | Listeners \<Rightarrow> listenersHandler L ks registrar params response
      | Options \<Rightarrow> optionsHandler response)"

definition serve ::
  "(Route list \<Rightarrow> string \<Rightarrow> string \<Rightarrow> (Route \<times> (string \<rightharpoonup> string)) option)
   \<Rightarrow> 'b fflib \<Rightarrow> ((string \<rightharpoonup> string) \<Rightarrow> string list) \<Rightarrow> string list \<Rightarrow> string \<Rightarrow> Registrar
   \<Rightarrow> string \<Rightarrow> string \<Rightarrow> Response option" where
  "serve router L ord ks now registrar verb path =
     (case router HttpMux verb path of
        None \<Rightarrow> None
      | Some (route, params) \<Rightarrow>
          Some (wrap L ord ks now registrar (route_Handler route) params fresh_response))"

section \<open>What is reported\<close>

definition cluster_of :: "Entry \<Rightarrow> EnvoyCluster" where
  "cluster_of entry =
     \<lparr>cl_Name = SvcName entry, cl_Type = ''sds'', cl_ConnectTimeoutMs = 500,
      cl_LBType = ''round_robin'', cl_ServiceName = SvcName entry\<rparr>"

lemma clusters_listed:
  "EnvoyClustersFromRegistrar ks r = Some (map (\<lambda>e. Some (cluster_of e)) (source.listed ks r))"
  by (auto simp: EnvoyClustersFromRegistrar_def source.collect cluster_of_def)

lemma listeners_listed:
  "EnvoyListenersFromRegistrar ks r =
     Some (map (\<lambda>e. Some (EnvoyListenerFromEntry e)) (source.listed ks r))"
  by (auto simp: EnvoyListenersFromRegistrar_def source.collect)

lemma no_nil_map_Some: "no_nil ok (Some (map (\<lambda>x. Some (f x)) xs)) \<longleftrightarrow> list_all (\<lambda>x. ok (f x)) xs"
  by (simp add: no_nil_def list_all_iff)

lemma listener_from_entry_ok: "listener_ok (EnvoyListenerFromEntry e)"
  by (simp add: EnvoyListenerFromEntry_def listener_ok_def http_filter_def tcp_filter_def no_nil_def
      route_config_ok_def vhost_ok_def Let_def)

lemma clusters_no_nil: "no_nil (\<lambda>_. True) (EnvoyClustersFromRegistrar ks r)"
  by (simp add: clusters_listed no_nil_map_Some list_all_iff)

lemma listeners_ok: "lds_ok \<lparr>lds_Listeners = EnvoyListenersFromRegistrar ks r\<rparr>"
  by (simp add: lds_ok_def listeners_listed no_nil_map_Some listener_from_entry_ok list_all_iff)

text \<open>The clusters that a listener sends its traffic to, through all its filters.\<close>

definition opt_list :: "'a option list option \<Rightarrow> 'a list" where
  "opt_list sl = (case sl of None \<Rightarrow> [] | Some vs \<Rightarrow> List.map_filter id vs)"

lemma opt_list_simps [simp]:
  "opt_list None = []" "opt_list (Some []) = []"
  "opt_list (Some (None # vs)) = opt_list (Some vs)"
  "opt_list (Some (Some x # vs)) = x # opt_list (Some vs)"
  by (simp_all add: opt_list_def map_filter_simps)

definition route_config_clusters :: "EnvoyRouteConfig \<Rightarrow> string list" where
  "route_config_clusters c =
     concat (map (\<lambda>h. map rt_Cluster (opt_list (vh_Routes h))) (opt_list (rc_VirtualHosts c)))
     @ map tcp_Cluster (opt_list (rc_Routes c))"

definition filter_clusters :: "EnvoyFilter \<Rightarrow> string list" where
  "filter_clusters f =
     (case flt_Config f of
        None \<Rightarrow> []
      | Some c \<Rightarrow> (case cfg_RouteConfig c of None \<Rightarrow> [] | Some rc \<Rightarrow> route_config_clusters rc))"

definition listener_clusters :: "EnvoyListener \<Rightarrow> string list" where
  "listener_clusters l = concat (map filter_clusters (opt_list (ls_Filters l)))"

lemma listener_clusters_from_entry: "listener_clusters (EnvoyListenerFromEntry e) = [SvcName e]"
  by (simp add: listener_clusters_def EnvoyListenerFromEntry_def http_filter_def tcp_filter_def
      filter_clusters_def route_config_clusters_def Let_def)

lemma listener_name_address:
  "ls_Name (EnvoyListenerFromEntry e) = SvcName e"
  "ls_Address (EnvoyListenerFromEntry e) =
     ''tcp://'' @ IP_String (IP (entry_FrontendAddr e)) @ '':'' @ fmt_d (front_port e)"
  by (simp_all add: EnvoyListenerFromEntry_def Let_def)

section \<open>The responses\<close>

lemma Write_fresh: "resp_Status r = None \<Longrightarrow>
    Write s r = r\<lparr>resp_Status := Some 200, resp_Body := resp_Body r @ s\<rparr>"
  by (simp add: Write_def WriteHeader_def)

definition json_response :: "int \<Rightarrow> string \<Rightarrow> Response" where
  "json_response status body =
     \<lparr>resp_Header = [''Content-Type'' \<mapsto> ''application/json''], resp_Status = Some status,
      resp_Body = body\<rparr>"

definition error_body :: "string \<Rightarrow> string" where
  "error_body message =
     ''{'' @ quoted ''message'' @ '':'' @ json_string message @ '','' @ quoted ''status'' @ '':''
       @ quoted ''error'' @ ''}''"

lemma sort_error_map:
  "sort_key fst [(''status'', ''error''), (''message'', message)]
     = [(''message'', message), (''status'', ''error'')]"
  by (simp add: sort_key_def)

lemma json_string_literals:
  "json_string ''status'' = quoted ''status''" "json_string ''error'' = quoted ''error''"
  "json_string ''message'' = quoted ''message''"
  by (simp_all add: json_string_def plain_key_escape plain_key_def)

lemma Marshal_error_map:
  "Marshal_string_map [(''status'', ''error''), (''message'', message)] = Inr (error_body message)"
  by (simp add: Marshal_string_map_def sort_error_map json_string_literals error_body_def)

lemma sendJsonError_response:
  "sendJsonError status message
     (Header_Set ''Content-Type'' ''application/json'' fresh_response) =
     json_response status (error_body message)"
  by (simp add: sendJsonError_def Marshal_error_map json_response_def Header_Set_def
      fresh_response_def Write_def WriteHeader_def)

lemma respond_response:
  "respond (Inr body) (Header_Set ''Content-Type'' ''application/json'' fresh_response) =
     json_response 200 body"
  by (simp add: respond_def json_response_def Header_Set_def fresh_response_def Write_fresh)

lemma clusters_response:
  assumes "fflib_ok L"
  shows "clustersHandler L ks r params fresh_response =
    json_response 200 (render (jstr L) (cds_json \<lparr>cds_Clusters = EnvoyClustersFromRegistrar ks r\<rparr>))"
  using cds.MarshalJSON_text [OF assms, of "\<lparr>cds_Clusters = EnvoyClustersFromRegistrar ks r\<rparr>"]
  by (simp add: clustersHandler_def CDSResult_MarshalJSON_def clusters_no_nil respond_response Let_def)

lemma listeners_response:
  assumes "fflib_ok L"
  shows "listenersHandler L ks r params fresh_response =
    json_response 200 (render (jstr L) (lds_json \<lparr>lds_Listeners = EnvoyListenersFromRegistrar ks r\<rparr>))"
  using lds.MarshalJSON_text [OF assms listeners_ok]
  by (simp add: listenersHandler_def LDSResult_MarshalJSON_def respond_response Let_def)

definition host_of :: "string \<Rightarrow> Entry \<Rightarrow> EnvoyService" where
  "host_of now e =
     \<lparr>svc_IPAddress = IP_String (IP (entry_BackendAddr e)), svc_LastCheckIn = now,
      svc_Port = Port (entry_BackendAddr e), svc_Revision = ''1'', svc_Service = SvcName e,
      svc_ServiceRepoName = ''docker service'', svc_Tags = Some Map.empty\<rparr>"

lemma registration_response:
  assumes "fflib_ok L"
  shows "registrationHandler L ord now r params fresh_response =
    (case params ''service'' of
       None \<Rightarrow> json_response 404 (error_body ''Not Found - No service name provided'')
     | Some name \<Rightarrow>
         (case GetEntry r name of
            None \<Rightarrow> json_response 404
              (error_body (''no instances of '' @ [CHR 0x27] @ name @ [CHR 0x27] @ '' found''))
          | Some e \<Rightarrow> json_response 200 (render (jstr L) (sds_json ord
              \<lparr>sds_Env = [], sds_Hosts = Some [Some (host_of now e)], sds_Service = name\<rparr>))))"
proof -
  have "SDSResult_MarshalJSON ord L (Some \<lparr>sds_Env = [], sds_Hosts = Some [Some (host_of now e)], sds_Service = name\<rparr>)
      = Inr (render (jstr L) (sds_json ord
          \<lparr>sds_Env = [], sds_Hosts = Some [Some (host_of now e)], sds_Service = name\<rparr>))" for e name
    using assms unfolding SDSResult_MarshalJSON_def
    by (intro sds.MarshalJSON_text) (simp_all add: no_nil_def)
  then show ?thesis
    by (simp add: registrationHandler_def EnvoyServiceFromEntry_def sendJsonError_response
        respond_response host_of_def [symmetric] Let_def split: option.split)
qed

section \<open>Properties\<close>

text \<open>
  C15: Clusters and listeners are reported completely and once: for a well-formed registrar and any
  order in which Go visits its map, the names of the clusters, their service names, and the names
  of the listeners are each the names of the entries, every one exactly once.
\<close>

theorem entries_reported_once:
  assumes "registrar_inv r" and "range_order (entries r) ks"
  shows "map cl_Name (opt_list (EnvoyClustersFromRegistrar ks r)) = ks
    \<and> map cl_ServiceName (opt_list (EnvoyClustersFromRegistrar ks r)) = ks
    \<and> map ls_Name (opt_list (EnvoyListenersFromRegistrar ks r)) = ks
    \<and> distinct ks \<and> (k \<in> set ks \<longleftrightarrow> GetEntry r k \<noteq> None)"
proof -
  have names: "map SvcName (source.listed ks r) = ks"
    using assms by (rule source.listed_names)
  have opt: "opt_list (Some (map (\<lambda>e. Some (f e)) es)) = map f es" for f :: "Entry \<Rightarrow> 'b" and es
    by (induction es) simp_all
  have "map cl_Name (map cluster_of (source.listed ks r)) = ks"
    "map cl_ServiceName (map cluster_of (source.listed ks r)) = ks"
    "map ls_Name (map EnvoyListenerFromEntry (source.listed ks r)) = ks"
    using names by (simp_all add: comp_def cluster_of_def listener_name_address)
  then show ?thesis
    using source.order_keys [OF assms(2)] by (simp add: clusters_listed listeners_listed opt)
qed

lemma sample_registrar:
  "registrar_inv (registrar_run [sample_request ''10.0.0.1''] NewRegistrar)"
  "range_order (entries (registrar_run [sample_request ''10.0.0.1''] NewRegistrar))
     [request_name (sample_request ''10.0.0.1'')]"
proof -
  show "registrar_inv (registrar_run [sample_request ''10.0.0.1''] NewRegistrar)"
    by (rule registrar_inv_run [OF registrar_inv_new])
  show "range_order (entries (registrar_run [sample_request ''10.0.0.1''] NewRegistrar))
      [request_name (sample_request ''10.0.0.1'')]"
    by (simp add: range_order_def entries_Register sample_request_actions) (simp add: NewRegistrar_def)
qed

lemma entries_reported_once_witness:
  "map ls_Name (opt_list (EnvoyListenersFromRegistrar [request_name (sample_request ''10.0.0.1'')]
     (registrar_run [sample_request ''10.0.0.1''] NewRegistrar)))
   = [request_name (sample_request ''10.0.0.1'')]"
  using entries_reported_once [OF sample_registrar] by blast

text \<open>
  C14: The registration service answers for a name with the one entry of that name: status 200 and the
  JSON of its backend address, its port and its name; status 404 and a JSON error when there is no
  such entry or the path gave no name.
\<close>

theorem registration_answers:
  assumes "fflib_ok L"
  shows "registrationHandler L ord now r params fresh_response =
    (case params ''service'' of
       None \<Rightarrow> json_response 404 (error_body ''Not Found - No service name provided'')
     | Some name \<Rightarrow>
         (case GetEntry r name of
            None \<Rightarrow> json_response 404
              (error_body (''no instances of '' @ [CHR 0x27] @ name @ [CHR 0x27] @ '' found''))
          | Some e \<Rightarrow> json_response 200 (render (jstr L) (JObject False
              [(''env'', JString []),
               (''hosts'', JArray [JObject False
                  [(''ip_address'', JString (IP_String (IP (entry_BackendAddr e)))),
                   (''last_check_in'', JString now),
                   (''port'', JNumber (sint (Port (entry_BackendAddr e)))),
                   (''revision'', JString ''1''), (''service'', JString (SvcName e)),
                   (''service_repo_name'', JString ''docker service''),
                   (''tags'', JObject True
                      (map (\<lambda>k. (k, JString (the (Map.empty k)))) (ord Map.empty)))]]),
               (''service'', JString name)]))))"
  using registration_response [OF assms, of ord now r params]
  by (simp add: sds_json_def ptrs_json_def service_json_def host_of_def tags_json_def
      split: option.split)

lemma registration_answers_witness:
  "registrationHandler list_fflib (\<lambda>_. []) ''now'' NewRegistrar [''service'' \<mapsto> ''web''] fresh_response =
     json_response 404 (error_body (''no instances of '' @ [CHR 0x27] @ ''web'' @ [CHR 0x27] @ '' found''))"
  using registration_answers [OF list_fflib_ok, of "\<lambda>_. []" "''now''" NewRegistrar "[''service'' \<mapsto> ''web'']"]
  by (simp add: GetEntry_def NewRegistrar_def)

text \<open>
  C31: No service name can break out of the error response: for a name that is not registered, any
  bytes at all, the body is the JSON object with the two expected keys whose message is a
  well-formed JSON string body.
\<close>

theorem error_body_is_json:
  assumes "GetEntry r name = None"
  shows "\<exists>body. json_body body
    \<and> registrationHandler L ord now r [''service'' \<mapsto> name] fresh_response =
        json_response 404 (''{\"message\":\"'' @ body @ ''\",\"status\":\"error\"}'')"
proof -
  let ?m = "''no instances of '' @ [CHR 0x27] @ name @ [CHR 0x27] @ '' found''"
  have "registrationHandler L ord now r [''service'' \<mapsto> name] fresh_response =
      json_response 404 (error_body ?m)"
    using assms by (simp add: registrationHandler_def sendJsonError_response Let_def)
  moreover have "error_body ?m = ''{\"message\":\"'' @ json_escape ?m @ ''\",\"status\":\"error\"}''"
    by (simp add: error_body_def json_string_def quoted_def)
  ultimately show ?thesis using json_body_escape by metis
qed

lemma error_body_is_json_witness:
  "\<exists>body. json_body body
    \<and> registrationHandler list_fflib (\<lambda>_. []) ''now'' NewRegistrar [''service'' \<mapsto> ''a\"b''] fresh_response =
        json_response 404 (''{\"message\":\"'' @ body @ ''\",\"status\":\"error\"}'')"
  by (rule error_body_is_json) (simp add: GetEntry_def NewRegistrar_def)

text \<open>
  The proxy mode selects the listener's filter: \<open>http\<close>, and nothing else, gives the HTTP connection
  manager with one route for every path to the entry's cluster; any other mode gives the TCP proxy
  to that cluster. Either way the listener sends traffic to the entry's own cluster only.
\<close>

lemma listener_by_mode:
  "map flt_Name (opt_list (ls_Filters (EnvoyListenerFromEntry e))) =
     [if entry_ProxyMode e = ''http'' then ''envoy.http_connection_manager'' else ''envoy.tcp_proxy'']
   \<and> listener_clusters (EnvoyListenerFromEntry e) = [SvcName e]
   \<and> ls_Name (EnvoyListenerFromEntry e) = SvcName e"
  by (simp add: listener_clusters_from_entry listener_name_address)
    (simp add: EnvoyListenerFromEntry_def http_filter_def tcp_filter_def Let_def)

text \<open>
  With no entries the services report empty arrays, not \<open>null\<close>.
\<close>

lemma empty_registrar_documents:
  assumes "fflib_ok L"
  shows "clustersHandler L [] NewRegistrar params fresh_response = json_response 200 ''{\"clusters\":[]}''
    \<and> listenersHandler L [] NewRegistrar params fresh_response = json_response 200 ''{\"listeners\":[]}''"
  using clusters_response [OF assms, of "[]" NewRegistrar params]
    listeners_response [OF assms, of "[]" NewRegistrar params]
  by (simp add: clusters_listed listeners_listed cds_json_def lds_json_def ptrs_json_def
      key_jstr [OF assms] plain_key_simps quoted_def)

lemma empty_registrar_documents_witness:
  "clustersHandler list_fflib [] NewRegistrar Map.empty fresh_response = json_response 200 ''{\"clusters\":[]}''"
  using empty_registrar_documents [OF list_fflib_ok] by blast

text \<open>
  Two listeners bind the same address exactly when their entries have the same host address, as
  16 bytes, and the same port: the text of an address never confuses two of them.
\<close>

lemma listener_addresses_distinct:
  assumes "length (IP (entry_FrontendAddr e1)) \<in> {0, 4, 16}" and "length (IP (entry_FrontendAddr e2)) \<in> {0, 4, 16}"
  shows "ls_Address (EnvoyListenerFromEntry e1) = ls_Address (EnvoyListenerFromEntry e2) \<longleftrightarrow>
    To16 (IP (entry_FrontendAddr e1)) = To16 (IP (entry_FrontendAddr e2))
    \<and> Port (entry_FrontendAddr e1) = Port (entry_FrontendAddr e2)"
proof -
  have ip: "IP_String (IP (entry_FrontendAddr e1)) = IP_String (IP (entry_FrontendAddr e2)) \<longleftrightarrow>
      To16 (IP (entry_FrontendAddr e1)) = To16 (IP (entry_FrontendAddr e2))"
    using assms by (rule IP_text_faithful)
  have "s @ CHR '':'' # fmt_d i = s' @ CHR '':'' # fmt_d j \<longleftrightarrow> s = s' \<and> i = j" for s s' i j
    by (simp add: append_sep_eq_iff fmt_d_no_colon)
  moreover have "sint p = sint q \<longleftrightarrow> p = q" for p q :: int64
    by (auto intro: signed_word_eqI)
  ultimately show ?thesis
    using ip by (simp add: listener_name_address)
qed

lemma listener_addresses_distinct_witness:
  "ls_Address (EnvoyListenerFromEntry (sample_entry 80)) \<noteq> ls_Address (EnvoyListenerFromEntry (sample_entry 81))"
  using listener_addresses_distinct [of "sample_entry 80" "sample_entry 81"] by (simp add: sample_entry_def)

end
