(* ===== verification/GoFlag.thy ===== *)
theory GoFlag
  imports GoPrelude
begin

text \<open>
  The reading of integers and booleans by Go's \<open>strconv\<close>, and the parsing of a command line by its
  \<open>flag\<close> package with the flags of the shim (\<open>parseCLI\<close> in \<open>cmd/envoy-docker-shim/main.go\<close>). Every
  error of \<open>flag.Parse\<close> ends the process with status 2, so that \<^const>\<open>None\<close> stands for all of them.
\<close>

section \<open>strconv\<close>

definition all_digits :: "nat \<Rightarrow> string \<Rightarrow> bool" where
  "all_digits base s = list_all (\<lambda>c. digit_val base c \<noteq> None) s"

text \<open>\<open>ParseUint\<close> in base 0: the prefix selects the base. The result is not yet bounded.\<close>

definition ParseUint0 :: "string \<Rightarrow> nat option" where
  "ParseUint0 s =
     (case s of
        [] \<Rightarrow> None
      | c # t \<Rightarrow>
          if c = CHR ''0'' \<and> t \<noteq> [] \<and> (hd t = CHR ''x'' \<or> hd t = CHR ''X'') then
            (if length s < 3 then None
             else if all_digits 16 (tl t) then Some (digits_val 16 0 (tl t)) else None)
          else if c = CHR ''0'' then (if all_digits 8 t then Some (digits_val 8 0 t) else None)
          else if all_digits 10 s then Some (digits_val 10 0 s) else None)"

text \<open>\<open>ParseInt(s, 0, 64)\<close>, \<^const>\<open>None\<close> for a syntax or a range error.\<close>

definition ParseInt0 :: "string \<Rightarrow> int64 option" where
  "ParseInt0 s =
     (case s of
        [] \<Rightarrow> None
      | c # t \<Rightarrow>
          let neg = (c = CHR ''-''); s = (if neg \<or> c = CHR ''+'' then t else s)
          in case ParseUint0 s of
               None \<Rightarrow> None
             | Some un \<Rightarrow>
                 if \<not> neg \<and> 2 ^ 63 \<le> un then None
                 else if neg \<and> 2 ^ 63 < un then None
                 else Some (if neg then - of_nat un else of_nat un))"

definition ParseBool :: "string \<Rightarrow> bool option" where
  "ParseBool s =
     (if s \<in> {''1'', ''t'', ''T'', ''true'', ''TRUE'', ''True''} then Some True
      else if s \<in> {''0'', ''f'', ''F'', ''false'', ''FALSE'', ''False''} then Some False
      else None)"

section \<open>flag\<close>

record flags =
  fl_proto :: string
  fl_hostIP :: string
  fl_hostPort :: int64
  fl_containerIP :: string
  fl_containerPort :: int64
  fl_reload :: bool

datatype flag_kind = StringFlag | IntFlag | BoolFlag

definition default_flags :: flags where
  "default_flags =
     \<lparr>fl_proto = ''tcp'', fl_hostIP = [], fl_hostPort = -1, fl_containerIP = [],
      fl_containerPort = -1, fl_reload = False\<rparr>"

definition lookup_flag :: "string \<Rightarrow> flag_kind option" where
  "lookup_flag name =
     (if name \<in> {''proto'', ''host-ip'', ''container-ip''} then Some StringFlag
      else if name \<in> {''host-port'', ''container-port''} then Some IntFlag
      else if name = ''reload'' then Some BoolFlag
      else None)"

definition set_flag :: "string \<Rightarrow> string \<Rightarrow> flags \<Rightarrow> flags option" where
  "set_flag name value fl =
     (if name = ''proto'' then Some (fl\<lparr>fl_proto := value\<rparr>)
      else if name = ''host-ip'' then Some (fl\<lparr>fl_hostIP := value\<rparr>)
      else if name = ''container-ip'' then Some (fl\<lparr>fl_containerIP := value\<rparr>)
      else if name = ''host-port'' then map_option (\<lambda>v. fl\<lparr>fl_hostPort := v\<rparr>) (ParseInt0 value)
      else if name = ''container-port'' then
        map_option (\<lambda>v. fl\<lparr>fl_containerPort := v\<rparr>) (ParseInt0 value)
      else if name = ''reload'' then map_option (\<lambda>v. fl\<lparr>fl_reload := v\<rparr>) (ParseBool value)
      else None)"

text \<open>\<open>-name=value\<close>: the name up to the first equals sign, and the value if there is one.\<close>

definition split_flag :: "string \<Rightarrow> string \<times> string option" where
  "split_flag s =
     (let name = takeWhile (\<lambda>c. c \<noteq> CHR ''='') s
      in (name, if name = s then None else Some (drop (Suc (length name)) s)))"

text \<open>The arguments from the first that is not a flag on are ignored.\<close>

fun parse_flags :: "string list \<Rightarrow> flags \<Rightarrow> flags option" where
  "parse_flags [] fl = Some fl"
| "parse_flags (s # args) fl =
     (if length s < 2 \<or> hd s \<noteq> CHR ''-'' then Some fl
      else
        let minuses = (if s ! 1 = CHR ''-'' then 2 else 1); name = drop minuses s
        in if minuses = 2 \<and> length s = 2 then Some fl
           else if name = [] \<or> hd name = CHR ''-'' \<or> hd name = CHR ''='' then None
           else
             let (name, value) = split_flag name
             in case lookup_flag name of
                  None \<Rightarrow> None
                | Some BoolFlag \<Rightarrow>
                    Option.bind (set_flag name (case value of None \<Rightarrow> ''true'' | Some v \<Rightarrow> v) fl)
                      (parse_flags args)
                | Some _ \<Rightarrow>
                    (case value of
                       Some v \<Rightarrow> Option.bind (set_flag name v fl) (parse_flags args)
                     | None \<Rightarrow>
                         (case args of
                            [] \<Rightarrow> None
                          | v # rest \<Rightarrow> Option.bind (set_flag name v fl) (parse_flags rest))))"

declare parse_flags.simps(2) [simp del]

section \<open>Reading what was printed\<close>

lemma all_digits_nat_str: "2 \<le> base \<Longrightarrow> base \<le> 16 \<Longrightarrow> all_digits base (nat_str base n)"
  using nat_str_digits [of base n] by (fastforce simp: all_digits_def list_all_iff num_simps)

lemma digit_char_zero: "d < 10 \<Longrightarrow> digit_char d = CHR ''0'' \<longleftrightarrow> d = 0"
  using digit_val_digit_char [of d 10] digit_val_digit_char [of 0 10]
  by (auto simp: digit_char_def)

lemma hd_nat_str:
  assumes "n \<noteq> 0"
  shows "hd (nat_str 10 n) \<noteq> CHR ''0''"
proof -
  have "base = 10 \<longrightarrow> n \<noteq> 0 \<longrightarrow> hd (nat_str base n) \<noteq> CHR ''0''" for base n
  proof (induction base n rule: nat_str.induct)
    case (1 base n)
    then show ?case
      by (subst nat_str.simps) (auto simp: digit_char_zero)
  qed
  with assms show ?thesis by blast
qed

lemma ParseUint0_nat_str: "ParseUint0 (nat_str 10 n) = Some n"
proof (cases "n = 0")
  case True
  have "nat_str 10 0 = ''0''" by (subst nat_str.simps) (simp add: digit_char_def)
  with True show ?thesis by (simp add: ParseUint0_def all_digits_def num_simps)
next
  case False
  then obtain c t where s: "nat_str 10 n = c # t" "c \<noteq> CHR ''0''"
    using hd_nat_str [of n] by (cases "nat_str 10 n") auto
  then show ?thesis
    using all_digits_nat_str [of 10 n] digits_val_nat_str [of 10 n] by (simp add: ParseUint0_def)
qed

lemma ParseInt0_nonneg:
  assumes "n < 2 ^ 63"
  shows "ParseInt0 (nat_str 10 n) = Some (of_nat n)"
proof -
  obtain c t where s: "nat_str 10 n = c # t" by (cases "nat_str 10 n") auto
  have "CHR ''-'' \<notin> set (c # t)" "CHR ''+'' \<notin> set (c # t)"
    unfolding s [symmetric] by (simp_all add: decimal_no_sep digit_chars_10)
  then have "c \<noteq> CHR ''-''" "c \<noteq> CHR ''+''" by auto
  with assms ParseUint0_nat_str [of n] show ?thesis
    unfolding ParseInt0_def s by (simp only: list.case Let_def option.case) simp
qed

lemma ParseInt0_negative:
  assumes "n \<le> 2 ^ 63"
  shows "ParseInt0 (CHR ''-'' # nat_str 10 n) = Some (- of_nat n)"
  using assms unfolding ParseInt0_def by (simp only: list.case Let_def simp_thms if_True ParseUint0_nat_str option.case) simp

lemma ParseInt0_fmt_d: "ParseInt0 (fmt_d (sint p)) = Some p"
proof -
  have range: "- (2 ^ 63) \<le> sint p" "sint p < 2 ^ 63"
    using sint_ge [of p] sint_lt [of p] by simp_all
  have p: "of_int (sint p) = p" by simp
  show ?thesis
  proof (cases "sint p" rule: int_cases2)
    case (nonneg n)
    then have "n < 2 ^ 63" using range by simp
    moreover have "of_nat n = p" using p nonneg by simp
    ultimately show ?thesis using nonneg by (simp add: fmt_d_def ParseInt0_nonneg)
  next
    case (nonpos n)
    then have "n \<le> 2 ^ 63" using range by simp
    moreover have "- of_nat n = p" using p nonpos by simp
    ultimately show ?thesis
      using nonpos ParseInt0_nonneg [of n] by (cases "n = 0") (auto simp: fmt_d_def ParseInt0_negative)
  qed
qed

text \<open>Flags with a separate value.\<close>

lemma split_flag_plain: "CHR ''='' \<notin> set name \<Longrightarrow> split_flag name = (name, None)"
  by (auto simp: split_flag_def Let_def takeWhile_eq_all_conv)

lemma parse_flag_value:
  assumes "lookup_flag name = Some k" and "k \<noteq> BoolFlag"
  shows "parse_flags ((CHR ''-'' # name) # v # rest) fl =
    Option.bind (set_flag name v fl) (parse_flags rest)"
proof -
  have "name \<in> {''proto'', ''host-ip'', ''container-ip'', ''host-port'', ''container-port''}"
    using assms by (auto simp: lookup_flag_def split: if_splits)
  then show ?thesis
    using assms by (auto simp: parse_flags.simps(2) split_flag_plain split: flag_kind.splits)
qed

end
