(* ===== verification/DockerClient.thy ===== *)
theory DockerClient
  imports GoPrelude
begin

text \<open>
  The shim's look-up of a container's labels (\<open>cmd/envoy-docker-shim/docker.go\<close>). The Docker
  library is an argument: it connects to the daemon and lists the containers. Only the fields
  of its structs that the code reads are in the records \<open>APIPort\<close> and \<open>APIContainers\<close>. \<open>'x\<close> is the
  state of the world outside the shim.
\<close>

section \<open>Data\<close>

record APIPort =
  port_PublicPort :: int64

record APIContainers =
  ctr_Ports :: "APIPort list"
  ctr_Labels :: "string \<rightharpoonup> string"

record ('x, 'c) docker =
  dk_NewClient :: "string \<Rightarrow> 'x \<Rightarrow> (goerror + 'c) \<times> 'x"
  dk_NewClientFromEnv :: "'x \<Rightarrow> (goerror + 'c) \<times> 'x"
  dk_ListContainers :: "'c \<Rightarrow> bool \<Rightarrow> int64 \<Rightarrow> 'x \<Rightarrow> (goerror + APIContainers list) \<times> 'x"

record DockerSettings =
  set_ServiceName :: string
  set_EnvironmentName :: string
  set_ProxyMode :: string

definition Millisecond :: int64 where
  "Millisecond = 1000000"

definition DockerTimeout :: int64 where
  "DockerTimeout = 200 * Millisecond"

definition ServiceNameLabel :: string where "ServiceNameLabel = ''ServiceName''"
definition EnvironmentNameLabel :: string where "EnvironmentNameLabel = ''EnvironmentName''"
definition ProxyModeLabel :: string where "ProxyModeLabel = ''ProxyMode''"

text \<open>Indexing a map of strings gives the empty string for a key it does not have.\<close>

definition map_index :: "('k \<rightharpoonup> string) \<Rightarrow> 'k \<Rightarrow> string" where
  "map_index m k = (case m k of None \<Rightarrow> [] | Some v \<Rightarrow> v)"

text \<open>
  \<open>strings.ToLower\<close>: byte by byte on ASCII; the argument \<open>unicode_lower\<close> stands for Go's Unicode
  tables on a string with another byte in it.
\<close>

definition ascii_lower :: "char \<Rightarrow> char" where
  "ascii_lower c =
     (let n = of_char c :: nat in if 65 \<le> n \<and> n \<le> 90 then char_of (n + 32) else c)"

definition ToLower :: "(string \<Rightarrow> string) \<Rightarrow> string \<Rightarrow> string" where
  "ToLower unicode_lower s =
     (if list_all (\<lambda>c. (of_char c :: nat) < 0x80) s then map ascii_lower s else unicode_lower s)"

section \<open>Operations\<close>

definition getClient :: "('x, 'c) docker \<Rightarrow> string \<Rightarrow> 'x \<Rightarrow> (goerror + 'c) \<times> 'x" where
  "getClient D socketUrl x =
     (case (if 0 < length socketUrl then dk_NewClient D socketUrl x else dk_NewClientFromEnv D x) of
        (Inl err, x') \<Rightarrow> (Inl (''Can'' @ [CHR 0x27] @ ''t connect to Docker: '' @ err), x')
      | (Inr client, x') \<Rightarrow> (Inr client, x'))"

text \<open>The two nested loops; \<open>break OUTER\<close> ends both at the first port that matches.\<close>

fun has_port :: "APIPort list \<Rightarrow> int64 \<Rightarrow> bool" where
  "has_port [] port64 = False"
| "has_port (p # ps) port64 = (if port_PublicPort p = port64 then True else has_port ps port64)"

fun find_container :: "APIContainers list \<Rightarrow> int64 \<Rightarrow> APIContainers option" where
  "find_container [] port64 = None"
| "find_container (container # cs) port64 =
     (if has_port (ctr_Ports container) port64 then Some container else find_container cs port64)"

definition ContainerForPort ::
  "('x, 'c) docker \<Rightarrow> string \<Rightarrow> int64 \<Rightarrow> 'x \<Rightarrow> (goerror + APIContainers) \<times> 'x" where
  "ContainerForPort D socketUrl port x =
     (case getClient D socketUrl x of
        (Inl err, x') \<Rightarrow> (Inl err, x')
      | (Inr client, x') \<Rightarrow>
          (case dk_ListContainers D client True DockerTimeout x' of
             (Inl err, x'') \<Rightarrow> (Inl (''Can'' @ [CHR 0x27] @ ''t list containers: '' @ err), x'')
           | (Inr containers, x'') \<Rightarrow>
               (case find_container containers port of
                  Some foundContainer \<Rightarrow> (Inr foundContainer, x'')
                | None \<Rightarrow> (Inl (''Unable to find container with port '' @ fmt_d (sint port)), x''))))"

definition settings_of :: "(string \<Rightarrow> string) \<Rightarrow> APIContainers \<Rightarrow> DockerSettings" where
  "settings_of unicode_lower container =
     (let proxyMode = map_index (ctr_Labels container) ProxyModeLabel;
          proxyMode = (if length proxyMode < 1 then ''http'' else proxyMode)
      in \<lparr>set_ServiceName = map_index (ctr_Labels container) ServiceNameLabel,
          set_EnvironmentName = map_index (ctr_Labels container) EnvironmentNameLabel,
          set_ProxyMode = ToLower unicode_lower proxyMode\<rparr>)"

definition ContainerFieldsForPort ::
  "(string \<Rightarrow> string) \<Rightarrow> ('x, 'c) docker \<Rightarrow> int64 \<Rightarrow> 'x \<Rightarrow> (goerror + DockerSettings) \<times> 'x" where
  "ContainerFieldsForPort unicode_lower D port x =
     (case ContainerForPort D [] port x of
        (Inl err, x') \<Rightarrow>
          (Inl (''Unable to find container for '' @ fmt_d (sint port) @ ''! ('' @ err @ '')''), x')
      | (Inr container, x') \<Rightarrow> (Inr (settings_of unicode_lower container), x'))"

section \<open>Facts\<close>

lemma has_port_iff: "has_port ps n \<longleftrightarrow> n \<in> port_PublicPort ` set ps"
  by (induction ps) auto

definition publishes :: "int64 \<Rightarrow> APIContainers \<Rightarrow> bool" where
  "publishes n c \<longleftrightarrow> n \<in> port_PublicPort ` set (ctr_Ports c)"

lemma find_container_find: "find_container cs n = find (publishes n) cs"
  by (induction cs) (auto simp: publishes_def has_port_iff)

lemma find_container_first:
  "find_container cs n = Some c \<longleftrightarrow>
     (\<exists>i < length cs. cs ! i = c \<and> publishes n c \<and> (\<forall>j < i. \<not> publishes n (cs ! j)))"
  by (auto simp: find_container_find find_Some_iff)

lemma find_container_none: "find_container cs n = None \<longleftrightarrow> (\<forall>c \<in> set cs. \<not> publishes n c)"
  by (auto simp: find_container_find find_None_iff)

lemma ascii_lower_no_upper:
  "of_char c < (0x80 :: nat) \<Longrightarrow> \<not> (65 \<le> (of_char (ascii_lower c) :: nat) \<and> (of_char (ascii_lower c) :: nat) \<le> 90)"
  by (auto simp: ascii_lower_def Let_def)

lemma ascii_lower_idem: "ascii_lower (ascii_lower c) = ascii_lower c"
  by (auto simp: ascii_lower_def Let_def)

lemma ToLower_http: "ToLower u ''http'' = ''http''"
  by (simp add: ToLower_def ascii_lower_def)

lemma ToLower_nonempty: "(\<And>t. t \<noteq> [] \<Longrightarrow> u t \<noteq> []) \<Longrightarrow> s \<noteq> [] \<Longrightarrow> ToLower u s \<noteq> []"
  by (simp add: ToLower_def)

section \<open>Properties\<close>

text \<open>
  C32: The labels that the shim reports are those of the first container in Docker's list that
  publishes the port; the proxy mode is \<open>http\<close> when the label is missing or empty and in lower case
  otherwise; and a port that no container publishes is an error that names the port.
\<close>

theorem labels_of_first_match:
  assumes "dk_NewClientFromEnv D x = (Inr client, x1)"
    and "dk_ListContainers D client True DockerTimeout x1 = (Inr containers, x2)"
  shows "ContainerFieldsForPort u D port x =
    (case find (publishes port) containers of
       None \<Rightarrow>
         (Inl (''Unable to find container for '' @ fmt_d (sint port)
            @ ''! (Unable to find container with port '' @ fmt_d (sint port) @ '')''), x2)
     | Some c \<Rightarrow>
         (Inr \<lparr>set_ServiceName = map_index (ctr_Labels c) ''ServiceName'',
               set_EnvironmentName = map_index (ctr_Labels c) ''EnvironmentName'',
               set_ProxyMode =
                 (if ctr_Labels c ''ProxyMode'' \<in> {None, Some []} then ''http''
                  else ToLower u (the (ctr_Labels c ''ProxyMode'')))\<rparr>, x2))"
  using assms
  by (auto simp: ContainerFieldsForPort_def ContainerForPort_def getClient_def find_container_find
      settings_of_def map_index_def ToLower_http ServiceNameLabel_def EnvironmentNameLabel_def
      ProxyModeLabel_def Let_def split: option.split)

definition demo_docker :: "(unit, unit) docker" where
  "demo_docker =
     \<lparr>dk_NewClient = (\<lambda>url x. (Inr (), x)), dk_NewClientFromEnv = (\<lambda>x. (Inr (), x)),
      dk_ListContainers = (\<lambda>c running timeout x. (Inr
        [\<lparr>ctr_Ports = [\<lparr>port_PublicPort = 80\<rparr>], ctr_Labels = Map.empty\<rparr>,
         \<lparr>ctr_Ports = [\<lparr>port_PublicPort = 81\<rparr>, \<lparr>port_PublicPort = 82\<rparr>],
          ctr_Labels = [''ServiceName'' \<mapsto> ''web'', ''ProxyMode'' \<mapsto> ''TCP'']\<rparr>], x))\<rparr>"

lemma ToLower_TCP: "ToLower u ''TCP'' = ''tcp''"
  by (simp add: ToLower_def ascii_lower_def char_of_def bit_0)

lemma labels_of_first_match_witness:
  "ContainerFieldsForPort id demo_docker 82 () =
     (Inr \<lparr>set_ServiceName = ''web'', set_EnvironmentName = [], set_ProxyMode = ''tcp''\<rparr>, ())"
  by (subst labels_of_first_match [where client = "()" and containers =
        "[\<lparr>ctr_Ports = [\<lparr>port_PublicPort = 80\<rparr>], ctr_Labels = Map.empty\<rparr>,
         \<lparr>ctr_Ports = [\<lparr>port_PublicPort = 81\<rparr>, \<lparr>port_PublicPort = 82\<rparr>],
          ctr_Labels = [''ServiceName'' \<mapsto> ''web'', ''ProxyMode'' \<mapsto> ''TCP'']\<rparr>]"])
    (simp_all add: demo_docker_def publishes_def map_index_def ToLower_TCP)

end
