(* ===== verification/EnvoyProxy.thy ===== *)
theory EnvoyProxy
  imports GoNet ShimRpc DockerClient
begin

text \<open>
  The shim's proxy for TCP ports (\<open>cmd/envoy-docker-shim/envoy_proxy.go\<close>): it does not forward
  traffic but registers the port with the server, waits, and deregisters it on a signal. The
  discovery client and gRPC's connection are arguments; sleeping is recorded. Log lines are not
  modelled.
\<close>

section \<open>World and results\<close>

text \<open>
  \<open>'x\<close> is what lies outside the process: the Docker daemon, the network, the server. The
  durations slept are recorded in nanoseconds, oldest first.
\<close>

record 'x world =
  outside :: 'x
  slept :: "int64 list"

definition Sleep :: "int64 \<Rightarrow> 'x world \<Rightarrow> 'x world" where
  "Sleep d w = w\<lparr>slept := slept w @ [d]\<rparr>"

definition on_outside :: "('x \<Rightarrow> 'r \<times> 'x) \<Rightarrow> 'x world \<Rightarrow> 'r \<times> 'x world" where
  "on_outside f w = (case f (outside w) of (r, x) \<Rightarrow> (r, w\<lparr>outside := x\<rparr>))"

text \<open>gRPC as the shim uses it: dialling an address within a time, the call, closing.\<close>

record ('x, 'conn) grpc =
  gr_Dial :: "string \<Rightarrow> int64 \<Rightarrow> 'x \<Rightarrow> (goerror + 'conn) \<times> 'x"
  gr_Invoke :: "'conn \<Rightarrow> 'x invoke"
  gr_Close :: "'conn \<Rightarrow> 'x \<Rightarrow> 'x"

text \<open>The interface \<open>DiscoveryClient\<close>.\<close>

type_synonym 'x discoverer = "int64 \<Rightarrow> 'x \<Rightarrow> (goerror + DockerSettings) \<times> 'x"

record 'x EnvoyProxy =
  px_ServerAddr :: string
  px_frontendAddr :: SockAddr
  px_backendAddr :: SockAddr
  px_Discoverer :: "'x discoverer"
  px_Reload :: bool
  px_Retries :: "int64 list"
  px_GRPCTimeout :: int64

text \<open>A call that may not come back: it panics, ends the process, or blocks for ever.\<close>

datatype 'a outcome = Returns 'a | Panics string | Exits int | Blocks

section \<open>Operations\<close>

definition Second :: int64 where
  "Second = 1000000000"

text \<open>The type assertions panic for an address of another kind.\<close>

definition assert_TCPAddr :: "Addr \<Rightarrow> SockAddr outcome" where
  "assert_TCPAddr a =
     (case a of
        TCPAddr s \<Rightarrow> Returns s
      | UDPAddr s \<Rightarrow> Panics ''interface conversion: net.Addr is *net.UDPAddr, not *net.TCPAddr'')"

definition NewEnvoyProxy ::
  "'x discoverer \<Rightarrow> Addr \<Rightarrow> Addr \<Rightarrow> string \<Rightarrow> ('x EnvoyProxy \<times> goerror option) outcome" where
  "NewEnvoyProxy dockerClient frontendAddr backendAddr svrAddr =
     (case assert_TCPAddr frontendAddr of
        Panics m \<Rightarrow> Panics m | Exits c \<Rightarrow> Exits c | Blocks \<Rightarrow> Blocks
      | Returns front \<Rightarrow>
          (case assert_TCPAddr backendAddr of
             Panics m \<Rightarrow> Panics m | Exits c \<Rightarrow> Exits c | Blocks \<Rightarrow> Blocks
           | Returns back \<Rightarrow> Returns
               (\<lparr>px_ServerAddr = svrAddr, px_frontendAddr = front, px_backendAddr = back,
                 px_Discoverer = dockerClient, px_Reload = False,
                 px_Retries = [100, 500, 1000, 1500], px_GRPCTimeout = 3 * Second\<rparr>, None)))"

definition WithClient ::
  "('x, 'conn) grpc \<Rightarrow> 'x EnvoyProxy \<Rightarrow> ((RegistrarRequest \<Rightarrow> 'x rpc) \<Rightarrow> 'x \<Rightarrow> goerror option \<times> 'x)
   \<Rightarrow> 'x \<Rightarrow> goerror option \<times> 'x" where
  "WithClient G p fn x =
     (case gr_Dial G (px_ServerAddr p) (px_GRPCTimeout p) x of
        (Inl err, x1) \<Rightarrow> (Some err, x1)
      | (Inr conn, x1) \<Rightarrow>
          (case fn (NewRegistrarClient (gr_Invoke G) conn) x1 of
             (err, x2) \<Rightarrow> (err, gr_Close G conn x2)))"

definition RequestWithSettings :: "'x EnvoyProxy \<Rightarrow> DockerSettings \<Rightarrow> RegistrarRequest" where
  "RequestWithSettings p settings =
     RegistrarRequest_zero
       \<lparr>req_FrontendAddr := IP_String (IP (px_frontendAddr p)),
        req_FrontendPort := scast (Port (px_frontendAddr p)),
        req_BackendAddr := IP_String (IP (px_backendAddr p)),
        req_BackendPort := scast (Port (px_backendAddr p)),
        req_ServiceName := set_ServiceName settings,
        req_EnvironmentName := set_EnvironmentName settings,
        req_ProxyMode := set_ProxyMode settings\<rparr>"

definition DoAction ::
  "('x, 'conn) grpc \<Rightarrow> 'x EnvoyProxy \<Rightarrow> RegistrarRequest_Action \<Rightarrow> 'x \<Rightarrow> goerror option \<times> 'x" where
  "DoAction G p action x =
     (case px_Discoverer p (Port (px_frontendAddr p)) x of
        (Inl err, x1) \<Rightarrow> (Some err, x1)
      | (Inr settings, x1) \<Rightarrow>
          let req = RequestWithSettings p settings;
              req = req\<lparr>req_Action := action\<rparr>
          in WithClient G p (\<lambda>c x. case c req x of ((resp, err), x') \<Rightarrow> (err, x')) x1)"

text \<open>The retry loop: it sleeps after every failed attempt, the last one too.\<close>

fun retry_loop ::
  "('x world \<Rightarrow> goerror option \<times> 'x world) \<Rightarrow> int64 list \<Rightarrow> goerror option \<Rightarrow> 'x world
   \<Rightarrow> goerror option \<times> 'x world" where
  "retry_loop fn [] err w = (err, w)"
| "retry_loop fn (millis # rs) err w =
     (case fn w of
        (None, w') \<Rightarrow> (None, w')
      | (Some e, w') \<Rightarrow> retry_loop fn rs (Some e) (Sleep (millis * Millisecond) w'))"

definition withRetries ::
  "'x EnvoyProxy \<Rightarrow> ('x world \<Rightarrow> goerror option \<times> 'x world) \<Rightarrow> 'x world \<Rightarrow> goerror option \<times> 'x world" where
  "withRetries p fn w = retry_loop fn (px_Retries p) None w"

definition Run :: "('x, 'conn) grpc \<Rightarrow> 'x EnvoyProxy \<Rightarrow> 'x world \<Rightarrow> unit outcome \<times> 'x world" where
  "Run G p w =
     (let w = (if \<not> px_Reload p then Sleep (1 * Second) w else w)
      in case withRetries p (on_outside (DoAction G p RegistrarRequest_REGISTER)) w of
           (err, w') \<Rightarrow>
             if px_Reload p then
               (case err of
                  Some e \<Rightarrow> (Panics (''Could not call Envoy: '' @ e), w')
                | None \<Rightarrow> (Returns (), w'))
             else (Blocks, w'))"

definition Close :: "('x, 'conn) grpc \<Rightarrow> 'x EnvoyProxy \<Rightarrow> 'x world \<Rightarrow> unit outcome \<times> 'x world" where
  "Close G p w =
     (case withRetries p (on_outside (DoAction G p RegistrarRequest_DEREGISTER)) w of
        (Some e, w') \<Rightarrow> (Exits 1, w')
      | (None, w') \<Rightarrow> (Returns (), w'))"

definition FrontendAddr :: "'x EnvoyProxy \<Rightarrow> Addr" where
  "FrontendAddr p = TCPAddr (px_frontendAddr p)"

definition BackendAddr :: "'x EnvoyProxy \<Rightarrow> Addr" where
  "BackendAddr p = TCPAddr (px_backendAddr p)"

section \<open>The retry loop\<close>

text \<open>The state after failed attempts with the given pauses, and the last error.\<close>

fun after_failures ::
  "('x world \<Rightarrow> goerror option \<times> 'x world) \<Rightarrow> int64 list \<Rightarrow> 'x world \<Rightarrow> 'x world" where
  "after_failures fn [] w = w"
| "after_failures fn (millis # rs) w =
     after_failures fn rs (Sleep (millis * Millisecond) (snd (fn w)))"

lemma after_failures_snoc:
  "after_failures fn (rs @ [m]) w = Sleep (m * Millisecond) (snd (fn (after_failures fn rs w)))"
  by (induction rs arbitrary: w) simp_all

lemma retry_loop_success:
  assumes "j < length rs"
    and "\<forall>k < j. fst (fn (after_failures fn (take k rs) w)) \<noteq> None"
    and "fst (fn (after_failures fn (take j rs) w)) = None"
  shows "retry_loop fn rs err w = (None, snd (fn (after_failures fn (take j rs) w)))"
  using assms
proof (induction rs arbitrary: j err w)
  case Nil
  then show ?case by simp
next
  case (Cons m rs)
  show ?case
  proof (cases j)
    case 0
    with Cons.prems show ?thesis by (cases "fn w") auto
  next
    case (Suc i)
    have "fst (fn w) \<noteq> None"
      using Cons.prems(2) [THEN spec, of 0] Suc by simp
    then obtain e w' where fn: "fn w = (Some e, w')"
      by (cases "fn w") auto
    let ?w = "Sleep (m * Millisecond) w'"
    have "\<forall>k < i. fst (fn (after_failures fn (take k rs) ?w)) \<noteq> None"
    proof (intro allI impI)
      fix k assume "k < i"
      then show "fst (fn (after_failures fn (take k rs) ?w)) \<noteq> None"
        using Cons.prems(2) [THEN spec, of "Suc k"] Suc fn by simp
    qed
    moreover have "fst (fn (after_failures fn (take i rs) ?w)) = None" "i < length rs"
      using Cons.prems(1,3) Suc fn by simp_all
    ultimately show ?thesis
      using Cons.IH [of i ?w "Some e"] fn Suc by simp
  qed
qed

lemma retry_loop_failure:
  assumes "\<forall>k < length rs. fst (fn (after_failures fn (take k rs) w)) \<noteq> None" and "rs \<noteq> []"
  shows "retry_loop fn rs err w =
    (fst (fn (after_failures fn (butlast rs) w)), after_failures fn rs w)"
  using assms
proof (induction rs arbitrary: err w)
  case Nil
  then show ?case by simp
next
  case (Cons m rs)
  have "fst (fn w) \<noteq> None"
    using Cons.prems(1) [THEN spec, of 0] by simp
  then obtain e w' where fn: "fn w = (Some e, w')"
    by (cases "fn w") auto
  let ?w = "Sleep (m * Millisecond) w'"
  show ?case
  proof (cases "rs = []")
    case True
    with fn show ?thesis by simp
  next
    case False
    have "\<forall>k < length rs. fst (fn (after_failures fn (take k rs) ?w)) \<noteq> None"
    proof (intro allI impI)
      fix k assume "k < length rs"
      then show "fst (fn (after_failures fn (take k rs) ?w)) \<noteq> None"
        using Cons.prems(1) [THEN spec, of "Suc k"] fn by simp
    qed
    with False show ?thesis
      using Cons.IH [of ?w "Some e"] fn by simp
  qed
qed

lemma retry_loop_cases:
  assumes "rs \<noteq> []"
  obtains j where "j < length rs" "\<forall>k < j. fst (fn (after_failures fn (take k rs) w)) \<noteq> None"
      "fst (fn (after_failures fn (take j rs) w)) = None"
    | "\<forall>k < length rs. fst (fn (after_failures fn (take k rs) w)) \<noteq> None"
proof (cases "\<exists>k < length rs. fst (fn (after_failures fn (take k rs) w)) = None")
  case True
  let ?P = "\<lambda>k. k < length rs \<and> fst (fn (after_failures fn (take k rs) w)) = None"
  obtain j where j: "?P j" "\<forall>k < j. \<not> ?P k"
    using True exists_least_iff [of ?P] by blast
  then have "\<forall>k < j. fst (fn (after_failures fn (take k rs) w)) \<noteq> None"
    by (meson less_trans)
  with j(1) show ?thesis using that(1) [of j] by blast
next
  case False
  then have "\<forall>k < length rs. fst (fn (after_failures fn (take k rs) w)) \<noteq> None" by simp
  then show ?thesis by (rule that(2))
qed

text \<open>How long a failed loop has slept, when the attempts themselves do not sleep.\<close>

lemma slept_after_failures:
  assumes "\<And>w. slept (snd (fn w)) = slept w"
  shows "slept (after_failures fn rs w) = slept w @ map (\<lambda>m. m * Millisecond) rs"
  by (induction rs arbitrary: w) (simp_all add: assms Sleep_def)

lemma slept_on_outside: "slept (snd (on_outside f w)) = slept w"
  by (simp add: on_outside_def split: prod.split)

section \<open>Properties\<close>

text \<open>
  C25: The retries: with a list of pauses that is not empty, and attempts that do not sleep, the loop
  ends with success at the first attempt that succeeds, having slept the pauses of the failed ones
  before it; or every attempt failed, the result is the last one's error, and it slept every pause,
  the one after the last attempt too.
\<close>

theorem withRetries_outcome:
  assumes "px_Retries p \<noteq> []" and "\<And>w. slept (snd (fn w)) = slept w"
  shows "case withRetries p fn w of
      (None, w') \<Rightarrow>
        \<exists>j < length (px_Retries p).
          w' = snd (fn (after_failures fn (take j (px_Retries p)) w))
          \<and> fst (fn (after_failures fn (take j (px_Retries p)) w)) = None
          \<and> (\<forall>k < j. fst (fn (after_failures fn (take k (px_Retries p)) w)) \<noteq> None)
          \<and> slept w' = slept w @ map (\<lambda>m. m * Millisecond) (take j (px_Retries p))
    | (Some err, w') \<Rightarrow>
        (\<forall>k < length (px_Retries p). fst (fn (after_failures fn (take k (px_Retries p)) w)) \<noteq> None)
        \<and> fst (fn (after_failures fn (butlast (px_Retries p)) w)) = Some err
        \<and> slept w' = slept w @ map (\<lambda>m. m * Millisecond) (px_Retries p)"
proof -
  let ?rs = "px_Retries p"
  have slept: "slept (after_failures fn rs w) = slept w @ map (\<lambda>m. m * Millisecond) rs" for rs
    by (rule slept_after_failures) (rule assms(2))
  show ?thesis
    unfolding withRetries_def
  proof (rule retry_loop_cases [OF assms(1), of fn w])
    fix j
    assume j: "j < length ?rs" "\<forall>k < j. fst (fn (after_failures fn (take k ?rs) w)) \<noteq> None"
      "fst (fn (after_failures fn (take j ?rs) w)) = None"
    from j show "case retry_loop fn ?rs None w of
        (None, w') \<Rightarrow> \<exists>j < length ?rs. w' = snd (fn (after_failures fn (take j ?rs) w))
          \<and> fst (fn (after_failures fn (take j ?rs) w)) = None
          \<and> (\<forall>k < j. fst (fn (after_failures fn (take k ?rs) w)) \<noteq> None)
          \<and> slept w' = slept w @ map (\<lambda>m. m * Millisecond) (take j ?rs)
      | (Some err, w') \<Rightarrow> (\<forall>k < length ?rs. fst (fn (after_failures fn (take k ?rs) w)) \<noteq> None)
          \<and> fst (fn (after_failures fn (butlast ?rs) w)) = Some err
          \<and> slept w' = slept w @ map (\<lambda>m. m * Millisecond) ?rs"
      unfolding retry_loop_success [OF j, of None] by (auto simp: assms(2) slept intro!: exI [of _ j])
  next
    assume f: "\<forall>k < length ?rs. fst (fn (after_failures fn (take k ?rs) w)) \<noteq> None"
    obtain e where e: "fst (fn (after_failures fn (butlast ?rs) w)) = Some e"
      using f [THEN spec, of "length ?rs - 1"] assms(1) by (auto simp: butlast_conv_take)
    show "case retry_loop fn ?rs None w of
        (None, w') \<Rightarrow> \<exists>j < length ?rs. w' = snd (fn (after_failures fn (take j ?rs) w))
          \<and> fst (fn (after_failures fn (take j ?rs) w)) = None
          \<and> (\<forall>k < j. fst (fn (after_failures fn (take k ?rs) w)) \<noteq> None)
          \<and> slept w' = slept w @ map (\<lambda>m. m * Millisecond) (take j ?rs)
      | (Some err, w') \<Rightarrow> (\<forall>k < length ?rs. fst (fn (after_failures fn (take k ?rs) w)) \<noteq> None)
          \<and> fst (fn (after_failures fn (butlast ?rs) w)) = Some err
          \<and> slept w' = slept w @ map (\<lambda>m. m * Millisecond) ?rs"
      unfolding retry_loop_failure [OF f assms(1), of None] using f e by (simp add: slept)
  qed
qed

definition demo_proxy :: "nat EnvoyProxy" where
  "demo_proxy =
     \<lparr>px_ServerAddr = [], px_frontendAddr = \<lparr>IP = [], Port = 80\<rparr>, px_backendAddr = \<lparr>IP = [], Port = 80\<rparr>,
      px_Discoverer = (\<lambda>port x. (Inl ''none'', x)), px_Reload = False,
      px_Retries = [100, 500], px_GRPCTimeout = 0\<rparr>"

text \<open>An action that succeeds once it was tried before.\<close>

definition demo_action :: "nat world \<Rightarrow> goerror option \<times> nat world" where
  "demo_action w = (if outside w = 0 then Some ''busy'' else None, w\<lparr>outside := Suc (outside w)\<rparr>)"

lemma withRetries_outcome_witness:
  "slept (snd (withRetries demo_proxy demo_action \<lparr>outside = 0, slept = []\<rparr>)) = [100000000]"
proof -
  have "slept (snd (demo_action w)) = slept w" for w
    by (simp add: demo_action_def)
  then show ?thesis
    using withRetries_outcome [of demo_proxy demo_action "\<lparr>outside = 0, slept = []\<rparr>"]
    by (simp add: demo_proxy_def withRetries_def demo_action_def Sleep_def Millisecond_def)
qed

end
