(* ===== verification/UdpProxy.thy ===== *)
theory UdpProxy
  imports GoNet EnvoyProxy "HOL-Library.Sublist"
begin

text \<open>
  The shim's proxy for UDP ports (\<open>cmd/envoy-docker-shim/udp_proxy.go\<close>): the connection table and
  its keys, and the goroutines that share it as a step relation: the loop of \<open>Run\<close>, one
  \<open>replyLoop\<close> per connection, and \<open>Close\<close>. A step is one operation of one goroutine: taking the
  lock, the critical section with its unlock, one read, one write, closing a connection. What a
  read gives, whether a dial or a write succeeds and how much a write takes are choices of the
  relation, as is the goroutine that moves. The deadline of a read is one of the errors it can
  give. Log lines are not modelled.
\<close>

section \<open>Keys\<close>

record connTrackKey =
  IPHigh :: "64 word"
  IPLow :: "64 word"
  key_Port :: int64

text \<open>\<open>binary.BigEndian\<close>: the number that bytes denote, most significant first.\<close>

definition be_nat :: "byte list \<Rightarrow> nat" where
  "be_nat bs = foldl (\<lambda>n b. n * 256 + unat b) 0 bs"

text \<open>Slicing and reading past the end of an address that is neither 4 nor 16 bytes long panics.\<close>

definition newConnTrackKey :: "SockAddr \<Rightarrow> connTrackKey outcome" where
  "newConnTrackKey addr =
     (if length (IP addr) = 4 then
        Returns \<lparr>IPHigh = 0, IPLow = of_nat (be_nat (IP addr)), key_Port = Port addr\<rparr>
      else if length (IP addr) < 16 then Panics ''runtime error: slice bounds out of range''
      else
        Returns \<lparr>IPHigh = of_nat (be_nat (take 8 (IP addr))),
                 IPLow = of_nat (be_nat (take 8 (drop 8 (IP addr)))), key_Port = Port addr\<rparr>)"

lemma be_nat_snoc: "be_nat (bs @ [b]) = be_nat bs * 256 + unat b"
  by (simp add: be_nat_def)

lemma be_nat_bound: "be_nat bs < 256 ^ length bs"
proof (induction bs rule: rev_induct)
  case Nil
  then show ?case by (simp add: be_nat_def)
next
  case (snoc b bs)
  have "unat b < 256" using unsigned_less [of b] by simp
  with snoc show ?case by (simp add: be_nat_snoc)
qed

lemma base_256_inject:
  assumes "(x :: nat) * 256 + y = x' * 256 + y'" and "y < 256" and "y' < 256"
  shows "x = x' \<and> y = y'"
proof -
  have "(x * 256 + y) div 256 = x" "(x' * 256 + y') div 256 = x'"
    using assms(2,3) by simp_all
  with assms(1) have "x = x'" by simp
  with assms(1) show ?thesis by simp
qed

lemma be_nat_inject: "length bs = length cs \<Longrightarrow> be_nat bs = be_nat cs \<Longrightarrow> bs = cs"
proof (induction bs arbitrary: cs rule: rev_induct)
  case Nil
  then show ?case by simp
next
  case (snoc b bs)
  then obtain c ds where cs: "cs = ds @ [c]" by (cases cs rule: rev_cases) auto
  have "unat b < 256" "unat c < 256" using unsigned_less [of b] unsigned_less [of c] by simp_all
  with snoc.prems cs have "be_nat bs = be_nat ds" "unat b = unat c"
    using base_256_inject [of "be_nat bs" "unat b" "be_nat ds" "unat c"] by (simp_all add: be_nat_snoc)
  moreover from this(2) have "b = c" by (rule unsigned_word_eqI)
  ultimately show ?case using snoc cs by simp
qed

lemma be_word_inject:
  assumes "length bs = length cs" and "length bs \<le> 8"
    and "(of_nat (be_nat bs) :: 64 word) = of_nat (be_nat cs)"
  shows "bs = cs"
proof -
  have "(256 :: nat) ^ length bs \<le> 256 ^ 8" using assms(2) by (intro power_increasing) simp_all
  then have "be_nat bs < 2 ^ 64" "be_nat cs < 2 ^ 64"
    using be_nat_bound [of bs] be_nat_bound [of cs] assms(1) by simp_all
  then have "be_nat bs = be_nat cs"
    using assms(3) by (simp add: word_of_nat_eq_iff take_bit_nat_eq_self)
  with assms(1) show ?thesis by (rule be_nat_inject)
qed

text \<open>Two clients whose addresses have the same length never share a key.\<close>

lemma newConnTrackKey_inject:
  assumes "newConnTrackKey a = Returns k" and "newConnTrackKey b = Returns k"
    and "length (IP a) = length (IP b)" and "length (IP a) \<le> 16"
  shows "a = b"
proof -
  have port: "Port a = Port b"
    using assms(1,2) by (auto simp: newConnTrackKey_def split: if_splits)
  have "IP a = IP b"
  proof (cases "length (IP a) = 4")
    case True
    with assms show ?thesis
      by (intro be_word_inject) (auto simp: newConnTrackKey_def)
  next
    case False
    with assms have "take 8 (IP a) = take 8 (IP b)" "take 8 (drop 8 (IP a)) = take 8 (drop 8 (IP b))"
      by (intro be_word_inject; auto simp: newConnTrackKey_def split: if_splits)+
    moreover have "IP x = take 8 (IP x) @ take 8 (drop 8 (IP x))" if "length (IP x) \<le> 16" for x :: SockAddr
      using that by simp
    ultimately show ?thesis using assms(3,4) by metis
  qed
  with port show ?thesis by simp
qed

section \<open>State\<close>

text \<open>Connections are numbered in the order they are dialled.\<close>

type_synonym conn = nat

text \<open>
  Where a \<open>replyLoop\<close> is: reading; writing the rest of a datagram to the client; in the deferred
  function before the lock, in it, and before the connection is closed; ended.
\<close>

datatype loop_pc = L_Read | L_Write string | L_WantLock | L_Locked | L_Closing | L_Done

record loop =
  lp_clientAddr :: SockAddr
  lp_clientKey :: connTrackKey
  lp_pc :: loop_pc

datatype run_pc =
  R_Read
| R_WantLock SockAddr connTrackKey string
| R_Locked SockAddr connTrackKey string
| R_Write SockAddr conn string
| R_Stopped

datatype close_pc = C_Idle | C_WantLock | C_Locked | C_Done

datatype holder = H_Run | H_Loop conn | H_Close

text \<open>
  \<open>forwarded\<close> and \<open>replied\<close> record the traffic: which client's bytes went out over which
  connection, and which connection's bytes went to which client.
\<close>

record udp =
  u_listening :: bool
  u_connTrackTable :: "connTrackKey \<rightharpoonup> conn"
  u_lock :: "holder option"
  u_next :: conn
  u_open :: "conn set"
  u_run :: run_pc
  u_loops :: "conn \<rightharpoonup> loop"
  u_close :: close_pc
  u_forwarded :: "(SockAddr \<times> conn \<times> string) list"
  u_replied :: "(conn \<times> SockAddr \<times> string) list"

text \<open>\<open>NewUDPProxy\<close>; \<open>listen\<close> stands for the operating system and gives the local address.\<close>

record UDPProxy =
  udp_frontendAddr :: SockAddr
  udp_backendAddr :: SockAddr

definition NewUDPProxy ::
  "(SockAddr \<Rightarrow> goerror + SockAddr) \<Rightarrow> SockAddr \<Rightarrow> SockAddr \<Rightarrow> goerror + (UDPProxy \<times> udp)" where
  "NewUDPProxy listen frontendAddr backendAddr =
     (case listen frontendAddr of
        Inl err \<Rightarrow> Inl err
      | Inr local \<Rightarrow> Inr
          (\<lparr>udp_frontendAddr = local, udp_backendAddr = backendAddr\<rparr>,
           \<lparr>u_listening = True, u_connTrackTable = Map.empty, u_lock = None, u_next = 0,
            u_open = {}, u_run = R_Read, u_loops = Map.empty, u_close = C_Idle,
            u_forwarded = [], u_replied = []\<rparr>))"

definition udp_FrontendAddr :: "UDPProxy \<Rightarrow> Addr" where
  "udp_FrontendAddr proxy = UDPAddr (udp_frontendAddr proxy)"

definition udp_BackendAddr :: "UDPProxy \<Rightarrow> Addr" where
  "udp_BackendAddr proxy = UDPAddr (udp_backendAddr proxy)"

definition isClosedError :: "goerror \<Rightarrow> bool" where
  "isClosedError err = suffix ''use of closed network connection'' err"

definition set_loop :: "conn \<Rightarrow> loop_pc \<Rightarrow> udp \<Rightarrow> udp" where
  "set_loop c pc s =
     s\<lparr>u_loops := (u_loops s)(c := map_option (\<lambda>l. l\<lparr>lp_pc := pc\<rparr>) (u_loops s c))\<rparr>"

text \<open>Where the goroutine of a connection is, if it was started.\<close>

definition place :: "udp \<Rightarrow> conn \<rightharpoonup> loop_pc" where
  "place s c = map_option lp_pc (u_loops s c)"

abbreviation loop_at :: "udp \<Rightarrow> conn \<Rightarrow> loop_pc \<Rightarrow> bool" where
  "loop_at s c pc \<equiv> place s c = Some pc"

section \<open>Steps\<close>

text \<open>A read gives no more than the buffer holds; the rest of a longer datagram is lost.\<close>

definition UDPBufSize :: nat where
  "UDPBufSize = 65507"

inductive run_step :: "udp \<Rightarrow> udp \<Rightarrow> bool" where
  run_read: "u_run s = R_Read \<Longrightarrow> u_listening s \<Longrightarrow> newConnTrackKey sender = Returns fromKey \<Longrightarrow>
    length data \<le> UDPBufSize \<Longrightarrow> run_step s (s\<lparr>u_run := R_WantLock sender fromKey data\<rparr>)"
| run_read_error: "u_run s = R_Read \<Longrightarrow> run_step s (s\<lparr>u_run := R_Stopped\<rparr>)"
| run_lock: "u_run s = R_WantLock sender fromKey data \<Longrightarrow> u_lock s = None \<Longrightarrow>
    run_step s (s\<lparr>u_lock := Some H_Run, u_run := R_Locked sender fromKey data\<rparr>)"
| run_hit: "u_run s = R_Locked sender fromKey data \<Longrightarrow> u_connTrackTable s fromKey = Some proxyConn \<Longrightarrow>
    run_step s (s\<lparr>u_lock := None, u_run := R_Write sender proxyConn data\<rparr>)"
| run_dial_error: "u_run s = R_Locked sender fromKey data \<Longrightarrow> u_connTrackTable s fromKey = None \<Longrightarrow>
    run_step s (s\<lparr>u_lock := None, u_run := R_Read\<rparr>)"
| run_dial: "u_run s = R_Locked sender fromKey data \<Longrightarrow> u_connTrackTable s fromKey = None \<Longrightarrow>
    run_step s
      (s\<lparr>u_loops := (u_loops s)(u_next s \<mapsto>
           \<lparr>lp_clientAddr = sender, lp_clientKey = fromKey, lp_pc = L_Read\<rparr>),
         u_next := Suc (u_next s), u_open := insert (u_next s) (u_open s),
         u_connTrackTable := (u_connTrackTable s)(fromKey \<mapsto> u_next s),
         u_lock := None, u_run := R_Write sender (u_next s) data\<rparr>)"
| run_write: "u_run s = R_Write sender proxyConn data \<Longrightarrow> data \<noteq> [] \<Longrightarrow> proxyConn \<in> u_open s \<Longrightarrow>
    written \<le> length data \<Longrightarrow>
    run_step s (s\<lparr>u_forwarded := u_forwarded s @ [(sender, proxyConn, take written data)],
                  u_run := R_Write sender proxyConn (drop written data)\<rparr>)"
| run_write_error: "u_run s = R_Write sender proxyConn data \<Longrightarrow> data \<noteq> [] \<Longrightarrow>
    run_step s (s\<lparr>u_run := R_Read\<rparr>)"
| run_write_done: "u_run s = R_Write sender proxyConn [] \<Longrightarrow> run_step s (s\<lparr>u_run := R_Read\<rparr>)"

inductive loop_step :: "conn \<Rightarrow> udp \<Rightarrow> udp \<Rightarrow> bool" for c :: conn where
  loop_read: "loop_at s c L_Read \<Longrightarrow> c \<in> u_open s \<Longrightarrow> length data \<le> UDPBufSize \<Longrightarrow>
    loop_step c s (set_loop c (L_Write data) s)"
| loop_refused: "loop_at s c L_Read \<Longrightarrow> c \<in> u_open s \<Longrightarrow> loop_step c s s"
| loop_read_error: "loop_at s c L_Read \<Longrightarrow> loop_step c s (set_loop c L_WantLock s)"
| loop_write: "u_loops s c = Some l \<Longrightarrow> lp_pc l = L_Write data \<Longrightarrow> data \<noteq> [] \<Longrightarrow> u_listening s \<Longrightarrow>
    written \<le> length data \<Longrightarrow>
    loop_step c s ((set_loop c (L_Write (drop written data)) s)
      \<lparr>u_replied := u_replied s @ [(c, lp_clientAddr l, take written data)]\<rparr>)"
| loop_write_error: "loop_at s c (L_Write data) \<Longrightarrow> data \<noteq> [] \<Longrightarrow>
    loop_step c s (set_loop c L_WantLock s)"
| loop_write_done: "loop_at s c (L_Write []) \<Longrightarrow> loop_step c s (set_loop c L_Read s)"
| loop_lock: "loop_at s c L_WantLock \<Longrightarrow> u_lock s = None \<Longrightarrow>
    loop_step c s ((set_loop c L_Locked s)\<lparr>u_lock := Some (H_Loop c)\<rparr>)"
| loop_delete: "u_loops s c = Some l \<Longrightarrow> lp_pc l = L_Locked \<Longrightarrow>
    loop_step c s ((set_loop c L_Closing s)
      \<lparr>u_connTrackTable := (u_connTrackTable s)(lp_clientKey l := None), u_lock := None\<rparr>)"
| loop_close: "loop_at s c L_Closing \<Longrightarrow>
    loop_step c s ((set_loop c L_Done s)\<lparr>u_open := u_open s - {c}\<rparr>)"

inductive close_step :: "udp \<Rightarrow> udp \<Rightarrow> bool" where
  close_listener: "u_close s = C_Idle \<Longrightarrow>
    close_step s (s\<lparr>u_listening := False, u_close := C_WantLock\<rparr>)"
| close_lock: "u_close s = C_WantLock \<Longrightarrow> u_lock s = None \<Longrightarrow>
    close_step s (s\<lparr>u_lock := Some H_Close, u_close := C_Locked\<rparr>)"
| close_conns: "u_close s = C_Locked \<Longrightarrow>
    close_step s (s\<lparr>u_open := u_open s - ran (u_connTrackTable s), u_lock := None, u_close := C_Done\<rparr>)"

inductive udp_step :: "udp \<Rightarrow> udp \<Rightarrow> bool" where
  step_run: "run_step s t \<Longrightarrow> udp_step s t"
| step_loop: "loop_step c s t \<Longrightarrow> udp_step s t"
| step_close: "close_step s t \<Longrightarrow> udp_step s t"

inductive_cases run_stepE: "run_step s t"
inductive_cases loop_stepE: "loop_step c s t"
inductive_cases close_stepE: "close_step s t"
inductive_cases udp_stepE: "udp_step s t"

definition udp_init :: udp where
  "udp_init = \<lparr>u_listening = True, u_connTrackTable = Map.empty, u_lock = None, u_next = 0,
     u_open = {}, u_run = R_Read, u_loops = Map.empty, u_close = C_Idle,
     u_forwarded = [], u_replied = []\<rparr>"

lemma NewUDPProxy_init: "NewUDPProxy listen frontendAddr backendAddr = Inr (proxy, s) \<Longrightarrow> s = udp_init"
  by (auto simp: NewUDPProxy_def udp_init_def split: sum.splits)

inductive udp_reachable :: "udp \<Rightarrow> bool" where
  init: "udp_reachable udp_init"
| step: "udp_reachable s \<Longrightarrow> udp_step s t \<Longrightarrow> udp_reachable t"

section \<open>Invariants\<close>

text \<open>The client that a connection serves never changes, unlike the place of its goroutine.\<close>

definition client :: "udp \<Rightarrow> conn \<rightharpoonup> SockAddr \<times> connTrackKey" where
  "client s c = map_option (\<lambda>l. (lp_clientAddr l, lp_clientKey l)) (u_loops s c)"

lemma client_set_loop [simp]: "client (set_loop c pc s) c' = client s c'"
  by (simp add: client_def set_loop_def option.map_comp comp_def)

lemma place_set_loop [simp]:
  "place (set_loop c pc s) c' = (if c' = c then map_option (\<lambda>_. pc) (place s c) else place s c')"
  by (simp add: place_def set_loop_def option.map_comp comp_def)

lemma set_loop_frame [simp]:
  "u_listening (set_loop c pc s) = u_listening s" "u_lock (set_loop c pc s) = u_lock s"
  "u_connTrackTable (set_loop c pc s) = u_connTrackTable s" "u_next (set_loop c pc s) = u_next s"
  "u_open (set_loop c pc s) = u_open s" "u_run (set_loop c pc s) = u_run s"
  "u_close (set_loop c pc s) = u_close s" "u_forwarded (set_loop c pc s) = u_forwarded s"
  "u_replied (set_loop c pc s) = u_replied s"
  by (simp_all add: set_loop_def)

lemma client_place_update [simp]:
  "client (s\<lparr>u_lock := x1\<rparr>) = client s" "place (s\<lparr>u_lock := x1\<rparr>) = place s"
  "client (s\<lparr>u_run := x2\<rparr>) = client s" "place (s\<lparr>u_run := x2\<rparr>) = place s"
  "client (s\<lparr>u_forwarded := x3\<rparr>) = client s" "place (s\<lparr>u_forwarded := x3\<rparr>) = place s"
  "client (s\<lparr>u_replied := x4\<rparr>) = client s" "place (s\<lparr>u_replied := x4\<rparr>) = place s"
  "client (s\<lparr>u_connTrackTable := x5\<rparr>) = client s" "place (s\<lparr>u_connTrackTable := x5\<rparr>) = place s"
  "client (s\<lparr>u_open := x6\<rparr>) = client s" "place (s\<lparr>u_open := x6\<rparr>) = place s"
  "client (s\<lparr>u_listening := x7\<rparr>) = client s" "place (s\<lparr>u_listening := x7\<rparr>) = place s"
  "client (s\<lparr>u_close := x8\<rparr>) = client s" "place (s\<lparr>u_close := x8\<rparr>) = place s"
  "client (s\<lparr>u_next := x9\<rparr>) = client s" "place (s\<lparr>u_next := x9\<rparr>) = place s"
  by (simp_all add: client_def place_def fun_eq_iff)

lemma client_new_loop [simp]:
  "client (s\<lparr>u_loops := (u_loops s)(n \<mapsto> l)\<rparr>) c =
     (if c = n then Some (lp_clientAddr l, lp_clientKey l) else client s c)"
  "place (s\<lparr>u_loops := (u_loops s)(n \<mapsto> l)\<rparr>) c = (if c = n then Some (lp_pc l) else place s c)"
  by (simp_all add: client_def place_def)

lemma place_loop: "u_loops s c = Some l \<Longrightarrow> place s c = Some (lp_pc l)"
  and client_loop: "u_loops s c = Some l \<Longrightarrow> client s c = Some (lp_clientAddr l, lp_clientKey l)"
  by (simp_all add: place_def client_def)

lemma client_place_dom: "client s c = None \<longleftrightarrow> place s c = None"
  by (simp add: client_def place_def)

text \<open>A goroutine that has not yet taken its entry out of the table.\<close>

definition live :: "loop_pc \<Rightarrow> bool" where
  "live pc \<longleftrightarrow> pc \<noteq> L_Closing \<and> pc \<noteq> L_Done"

lemma live_simps [simp]:
  "live L_Read" "live (L_Write d)" "live L_WantLock" "live L_Locked" "\<not> live L_Closing" "\<not> live L_Done"
  by (simp_all add: live_def)

definition serves :: "udp \<Rightarrow> conn \<Rightarrow> SockAddr \<Rightarrow> bool" where
  "serves s c from \<longleftrightarrow> (\<exists>a k. client s c = Some (a, k) \<and> newConnTrackKey from = Returns k)"

lemma serves_update:
  "client t = client s \<Longrightarrow> serves t = serves s"
  by (simp add: serves_def fun_eq_iff)

definition inv_clients :: "udp \<Rightarrow> bool" where
  "inv_clients s \<longleftrightarrow>
     (\<forall>c. place s c \<noteq> None \<longleftrightarrow> c < u_next s)
     \<and> (\<forall>c a k. client s c = Some (a, k) \<longrightarrow> newConnTrackKey a = Returns k)
     \<and> (case u_run s of
          R_WantLock from k d \<Rightarrow> newConnTrackKey from = Returns k
        | R_Locked from k d \<Rightarrow> newConnTrackKey from = Returns k
        | R_Write from c d \<Rightarrow> serves s c from
        | _ \<Rightarrow> True)"

definition inv_table :: "udp \<Rightarrow> bool" where
  "inv_table s \<longleftrightarrow>
     (\<forall>k c. u_connTrackTable s k = Some c \<longleftrightarrow>
        (\<exists>a pc. client s c = Some (a, k) \<and> place s c = Some pc \<and> live pc))"

definition inv_traffic :: "udp \<Rightarrow> bool" where
  "inv_traffic s \<longleftrightarrow>
     (\<forall>(from, c, d) \<in> set (u_forwarded s). serves s c from)
     \<and> (\<forall>(c, a, d) \<in> set (u_replied s). \<exists>k. client s c = Some (a, k))"

definition inv_lock :: "udp \<Rightarrow> bool" where
  "inv_lock s \<longleftrightarrow>
     (u_lock s = Some H_Run \<longleftrightarrow> (\<exists>from k d. u_run s = R_Locked from k d))
     \<and> (\<forall>c. u_lock s = Some (H_Loop c) \<longleftrightarrow> place s c = Some L_Locked)
     \<and> (u_lock s = Some H_Close \<longleftrightarrow> u_close s = C_Locked)"

definition inv_open :: "udp \<Rightarrow> bool" where
  "inv_open s \<longleftrightarrow>
     (\<forall>c \<in> u_open s. \<exists>pc. place s c = Some pc \<and> pc \<noteq> L_Done)
     \<and> (u_close s \<noteq> C_Done \<longrightarrow> (\<forall>c pc. place s c = Some pc \<and> pc \<noteq> L_Done \<longrightarrow> c \<in> u_open s))"

lemma inv_tableD: "inv_table s \<Longrightarrow> u_connTrackTable s k = Some c \<Longrightarrow>
    \<exists>a pc. client s c = Some (a, k) \<and> place s c = Some pc \<and> live pc"
  by (simp add: inv_table_def)

lemma inv_tableI:
  assumes "\<And>k c. u_connTrackTable s k = Some c \<Longrightarrow>
      \<exists>a pc. client s c = Some (a, k) \<and> place s c = Some pc \<and> live pc"
    and "\<And>k c a pc. client s c = Some (a, k) \<Longrightarrow> place s c = Some pc \<Longrightarrow> live pc \<Longrightarrow>
      u_connTrackTable s k = Some c"
  shows "inv_table s"
  using assms unfolding inv_table_def by blast

lemma inv_table_live: "inv_table s \<Longrightarrow> client s c = Some (a, k) \<Longrightarrow> place s c = Some pc \<Longrightarrow>
    live pc \<Longrightarrow> u_connTrackTable s k = Some c"
  unfolding inv_table_def by blast

lemma inv_clients_run: "run_step s t \<Longrightarrow> inv_clients s \<Longrightarrow> inv_table s \<Longrightarrow> inv_clients t"
proof (induction rule: run_step.induct)
  case (run_hit s sender fromKey data proxyConn)
  then obtain a pc where "client s proxyConn = Some (a, fromKey)"
    using inv_tableD by blast
  with run_hit show ?case by (simp add: inv_clients_def serves_def)
next
  case (run_dial s sender fromKey data)
  then show ?case
    by (auto simp add: inv_clients_def serves_def less_Suc_eq)
qed (simp_all add: inv_clients_def serves_def)

lemma inv_clients_same:
  assumes "inv_clients s" and "client t = client s" and "u_run t = u_run s" and "u_next t = u_next s"
  shows "inv_clients t"
proof -
  have "place t c = None \<longleftrightarrow> place s c = None" for c
    using assms(2) by (simp flip: client_place_dom)
  with assms show ?thesis by (simp add: inv_clients_def serves_def split: run_pc.splits)
qed

lemma inv_clients_loop: "loop_step c s t \<Longrightarrow> inv_clients s \<Longrightarrow> inv_clients t"
  by (induction rule: loop_step.induct; erule inv_clients_same; simp add: fun_eq_iff)

lemma inv_clients_close: "close_step s t \<Longrightarrow> inv_clients s \<Longrightarrow> inv_clients t"
  by (induction rule: close_step.induct; erule inv_clients_same; simp)

text \<open>The table: its entries are exactly the connections whose goroutine has not removed its own.\<close>

lemma fresh_loop: "inv_clients s \<Longrightarrow> place s (u_next s) = None \<and> client s (u_next s) = None"
  unfolding client_place_dom inv_clients_def by (metis less_irrefl)

lemma inv_table_run: "run_step s t \<Longrightarrow> inv_clients s \<Longrightarrow> inv_table s \<Longrightarrow> inv_table t"
proof (induction rule: run_step.induct)
  case (run_dial s sender fromKey data)
  have "place s (u_next s) = None" "client s (u_next s) = None"
    using fresh_loop run_dial.prems(1) by blast+
  with run_dial.hyps(2) show ?case
    by (intro inv_tableI)
      (auto split: if_splits dest: inv_tableD [OF run_dial.prems(2)] inv_table_live [OF run_dial.prems(2)])
qed (simp_all add: inv_table_def)

lemma inv_table_loop: "loop_step c s t \<Longrightarrow> inv_table s \<Longrightarrow> inv_table t"
proof (induction rule: loop_step.induct)
  case (loop_delete s l)
  have c: "client s c = Some (lp_clientAddr l, lp_clientKey l)" "place s c = Some L_Locked"
    using loop_delete.hyps by (simp_all add: place_def client_def)
  then have "u_connTrackTable s (lp_clientKey l) = Some c"
    using inv_table_live [OF loop_delete.prems] by simp
  with c show ?case
    by (intro inv_tableI)
      (auto split: if_splits dest: inv_tableD [OF loop_delete.prems] inv_table_live [OF loop_delete.prems])
qed (auto simp: inv_table_def place_loop)

lemma inv_table_close: "close_step s t \<Longrightarrow> inv_table s \<Longrightarrow> inv_table t"
  by (induction rule: close_step.induct) (simp_all add: inv_table_def)

text \<open>The traffic: a connection carries one client's datagrams, and its replies go back there.\<close>

lemma inv_traffic_extends:
  assumes "client s \<subseteq>\<^sub>m client t" and "inv_traffic s"
    and "u_forwarded t = u_forwarded s" and "u_replied t = u_replied s"
  shows "inv_traffic t"
proof -
  have "client t c = Some x" if "client s c = Some x" for c x
    using assms(1) that by (auto simp: map_le_def dom_def)
  with assms(2-) show ?thesis unfolding inv_traffic_def serves_def by fastforce
qed

lemma inv_traffic_run: "run_step s t \<Longrightarrow> inv_clients s \<Longrightarrow> inv_traffic s \<Longrightarrow> inv_traffic t"
proof (induction rule: run_step.induct)
  case (run_dial s sender fromKey data)
  have "client s (u_next s) = None"
    using fresh_loop run_dial.prems(1) by blast
  then show ?case
    by (intro inv_traffic_extends [OF _ run_dial.prems(2)]) (auto simp: map_le_def)
next
  case (run_write s sender proxyConn data written)
  then show ?case by (auto simp: inv_traffic_def serves_def inv_clients_def)
qed (simp_all add: inv_traffic_def serves_def)

lemma inv_traffic_loop: "loop_step c s t \<Longrightarrow> inv_traffic s \<Longrightarrow> inv_traffic t"
proof (induction rule: loop_step.induct)
  case (loop_write s l data written)
  have "client s c = Some (lp_clientAddr l, lp_clientKey l)"
    using loop_write.hyps by (simp add: client_loop)
  with loop_write.prems show ?case
    by (auto simp: inv_traffic_def serves_def)
qed (simp_all add: inv_traffic_def serves_def)

lemma inv_traffic_close: "close_step s t \<Longrightarrow> inv_traffic s \<Longrightarrow> inv_traffic t"
  by (induction rule: close_step.induct) (simp_all add: inv_traffic_def serves_def)

text \<open>The lock.\<close>

lemma inv_lock_run: "run_step s t \<Longrightarrow> inv_clients s \<Longrightarrow> inv_lock s \<Longrightarrow> inv_lock t"
proof (induction rule: run_step.induct)
  case (run_dial s sender fromKey data)
  have "place s (u_next s) = None"
    using fresh_loop run_dial.prems(1) by blast
  with run_dial show ?case by (auto simp: inv_lock_def)
qed (auto simp: inv_lock_def)

lemma inv_lock_loop: "loop_step c s t \<Longrightarrow> inv_lock s \<Longrightarrow> inv_lock t"
proof (induction rule: loop_step.induct)
  case (loop_delete s l)
  then have "u_lock s = Some (H_Loop c)"
    using place_loop [of s c l] by (simp add: inv_lock_def)
  with loop_delete.prems show ?case by (auto simp: inv_lock_def)
qed (auto simp: inv_lock_def dest: place_loop)

lemma inv_lock_close: "close_step s t \<Longrightarrow> inv_lock s \<Longrightarrow> inv_lock t"
  by (induction rule: close_step.induct) (auto simp: inv_lock_def)

text \<open>Open connections.\<close>

lemma inv_open_run: "run_step s t \<Longrightarrow> inv_clients s \<Longrightarrow> inv_open s \<Longrightarrow> inv_open t"
proof (induction rule: run_step.induct)
  case (run_dial s sender fromKey data)
  have "place s (u_next s) = None"
    using fresh_loop run_dial.prems(1) by blast
  with run_dial show ?case by (auto simp: inv_open_def)
qed (simp_all add: inv_open_def)

lemma inv_open_moved:
  assumes "inv_open s" and "u_open t = u_open s" and "u_close t = u_close s"
    and "place t = (place s)(c \<mapsto> pc)" and "place s c = Some pc'" and "pc \<noteq> L_Done" and "pc' \<noteq> L_Done"
  shows "inv_open t"
  using assms by (simp add: inv_open_def)

lemma place_moved: "place s c = Some pc' \<Longrightarrow> place (set_loop c pc s) = (place s)(c \<mapsto> pc)"
  by (rule ext) simp

lemma inv_open_loop: "loop_step c s t \<Longrightarrow> inv_open s \<Longrightarrow> inv_open t"
proof (induction rule: loop_step.induct)
  case (loop_close s)
  then show ?case by (simp add: inv_open_def)
qed (auto elim!: inv_open_moved dest: place_loop simp: place_moved)

lemma inv_open_close: "close_step s t \<Longrightarrow> inv_open s \<Longrightarrow> inv_open t"
  by (induction rule: close_step.induct) (auto simp: inv_open_def)

definition udp_inv :: "udp \<Rightarrow> bool" where
  "udp_inv s \<longleftrightarrow> inv_clients s \<and> inv_table s \<and> inv_traffic s \<and> inv_lock s \<and> inv_open s"

lemmas udp_inv_run = inv_clients_run inv_table_run inv_traffic_run inv_lock_run inv_open_run
lemmas udp_inv_loop = inv_clients_loop inv_table_loop inv_traffic_loop inv_lock_loop inv_open_loop
lemmas udp_inv_close =
  inv_clients_close inv_table_close inv_traffic_close inv_lock_close inv_open_close

lemma udp_inv_step: "udp_step s t \<Longrightarrow> udp_inv s \<Longrightarrow> udp_inv t"
  unfolding udp_inv_def
  by (erule udp_stepE; blast intro: udp_inv_run udp_inv_loop udp_inv_close)

lemma udp_inv_init: "udp_inv udp_init"
  by (simp add: udp_inv_def inv_clients_def inv_table_def inv_traffic_def inv_lock_def inv_open_def
      udp_init_def client_def place_def)

lemma udp_inv_reachable: "udp_reachable s \<Longrightarrow> udp_inv s"
  by (induction rule: udp_reachable.induct) (blast intro: udp_inv_init udp_inv_step)+

lemma udp_invD:
  assumes "udp_reachable s"
  shows "inv_clients s" "inv_table s" "inv_traffic s" "inv_lock s" "inv_open s"
  using udp_inv_reachable [OF assms] by (simp_all add: udp_inv_def)

section \<open>An execution\<close>

text \<open>One client's datagram goes out over a new connection, and the answer comes back.\<close>

definition demo_client :: SockAddr where
  "demo_client = \<lparr>IP = [10, 0, 0, 7], Port = 5353\<rparr>"

definition demo_key :: connTrackKey where
  "demo_key = \<lparr>IPHigh = 0, IPLow = 167772167, key_Port = 5353\<rparr>"

definition demo_dialled :: udp where
  "demo_dialled = udp_init
     \<lparr>u_next := 1, u_open := {0}, u_connTrackTable := [demo_key \<mapsto> 0],
      u_loops := [0 \<mapsto> \<lparr>lp_clientAddr = demo_client, lp_clientKey = demo_key, lp_pc = L_Read\<rparr>],
      u_run := R_Write demo_client 0 ''q''\<rparr>"

definition demo_answered :: udp where
  "demo_answered = demo_dialled
     \<lparr>u_loops := [0 \<mapsto> \<lparr>lp_clientAddr = demo_client, lp_clientKey = demo_key, lp_pc = L_Write []\<rparr>],
      u_run := R_Write demo_client 0 [], u_forwarded := [(demo_client, 0, ''q'')],
      u_replied := [(0, demo_client, ''a'')]\<rparr>"

lemma demo_key: "newConnTrackKey demo_client = Returns demo_key"
  by (simp add: newConnTrackKey_def demo_client_def demo_key_def be_nat_def)

lemma reachable_run: "udp_reachable s \<Longrightarrow> run_step s t \<Longrightarrow> t = t' \<Longrightarrow> udp_reachable t'"
  and reachable_loop: "udp_reachable s \<Longrightarrow> loop_step c s t \<Longrightarrow> t = t' \<Longrightarrow> udp_reachable t'"
  and reachable_close: "udp_reachable s \<Longrightarrow> close_step s t \<Longrightarrow> t = t' \<Longrightarrow> udp_reachable t'"
  by (blast intro: udp_reachable.step udp_step.intros)+

lemma demo_read: "udp_reachable (udp_init\<lparr>u_run := R_WantLock demo_client demo_key ''q''\<rparr>)"
  by (rule reachable_run [OF init run_read [OF _ _ demo_key]]) (simp_all add: udp_init_def UDPBufSize_def)

lemma demo_locked:
  "udp_reachable (udp_init\<lparr>u_lock := Some H_Run, u_run := R_Locked demo_client demo_key ''q''\<rparr>)"
  by (rule reachable_run [OF demo_read run_lock]) (simp_all add: udp_init_def)

lemma demo_dialled: "udp_reachable demo_dialled"
  by (rule reachable_run [OF demo_locked run_dial]) (simp_all add: udp_init_def demo_dialled_def)

lemma demo_forwarded:
  "udp_reachable (demo_dialled\<lparr>u_run := R_Write demo_client 0 [], u_forwarded := [(demo_client, 0, ''q'')]\<rparr>)"
  by (rule reachable_run [OF demo_dialled run_write [where sender = demo_client and proxyConn = 0 and data = "''q''" and written = 1]])
    (simp_all add: udp_init_def demo_dialled_def)

lemma demo_reply:
  "udp_reachable (demo_dialled
     \<lparr>u_run := R_Write demo_client 0 [], u_forwarded := [(demo_client, 0, ''q'')],
      u_loops := [0 \<mapsto> \<lparr>lp_clientAddr = demo_client, lp_clientKey = demo_key, lp_pc = L_Write ''a''\<rparr>]\<rparr>)"
  by (rule reachable_loop [OF demo_forwarded loop_read [where c = 0 and data = "''a''"]])
    (simp_all add: udp_init_def demo_dialled_def place_def set_loop_def UDPBufSize_def)

lemma demo_answered: "udp_reachable demo_answered"
  by (rule reachable_loop [OF demo_reply loop_write [where c = 0 and written = 1 and data = "''a''"]])
    (auto simp: udp_init_def demo_dialled_def demo_answered_def place_def set_loop_def)

section \<open>Properties\<close>



text \<open>
  C13: The connection table is exactly the set of connections that are being served: a key is bound to
  a connection if and only if the connection's goroutine serves a client of that key and has not
  yet removed the binding. In particular no client has two connections at a time.
\<close>

theorem udp_table_exact:
  assumes "udp_reachable s"
  shows "((u_connTrackTable s k = Some c) =
      (\<exists>l. u_loops s c = Some l \<and> lp_clientKey l = k \<and> live (lp_pc l)))
    \<and> (u_loops s c = Some l \<and> u_loops s c' = Some l' \<and> live (lp_pc l) \<and> live (lp_pc l')
        \<and> lp_clientKey l = lp_clientKey l' \<longrightarrow> c = c')"
proof -
  have inv: "inv_table s" using udp_invD assms by blast
  have *: "(u_connTrackTable s k = Some c) =
      (\<exists>l. u_loops s c = Some l \<and> lp_clientKey l = k \<and> live (lp_pc l))" for k c
    using inv by (auto simp: inv_table_def client_def place_def)
  have "c = c'" if "u_loops s c = Some l" "u_loops s c' = Some l'" "live (lp_pc l)" "live (lp_pc l')"
    "lp_clientKey l = lp_clientKey l'"
    using that * [of "lp_clientKey l" c] * [of "lp_clientKey l" c'] by auto
  with * show ?thesis by blast
qed

lemma udp_table_exact_witness:
  "(u_connTrackTable demo_answered demo_key = Some 0)
   \<and> (\<exists>l. u_loops demo_answered 0 = Some l \<and> lp_clientKey l = demo_key \<and> live (lp_pc l))"
  using udp_table_exact [OF demo_answered, of demo_key 0]
  by (simp add: demo_answered_def)

text \<open>Which goroutine is between taking the lock and releasing it.\<close>

fun holds :: "udp \<Rightarrow> holder \<Rightarrow> bool" where
  "holds s H_Run = (\<exists>from k d. u_run s = R_Locked from k d)"
| "holds s (H_Loop c) = loop_at s c L_Locked"
| "holds s H_Close = (u_close s = C_Locked)"

text \<open>
  C23: The critical sections exclude each other: of the receive loop, the reply loops and \<open>Close\<close> at most
  one is between taking the lock and releasing it, and it is the one the lock belongs to.
\<close>

theorem udp_mutual_exclusion:
  assumes "udp_reachable s"
  shows "(holds s h \<longleftrightarrow> u_lock s = Some h) \<and> (holds s h \<and> holds s h' \<longrightarrow> h = h')"
proof -
  have "inv_lock s" using udp_invD assms by blast
  then have "holds s h \<longleftrightarrow> u_lock s = Some h" for h by (cases h) (simp_all add: inv_lock_def)
  then show ?thesis by auto
qed

lemma udp_mutual_exclusion_witness:
  "\<not> holds (udp_init\<lparr>u_lock := Some H_Run, u_run := R_Locked demo_client demo_key ''q''\<rparr>) H_Close"
  using udp_mutual_exclusion [OF demo_locked, of H_Close H_Run] by simp

text \<open>
  C24: \<open>Close\<close> leaves no connection open but those whose goroutine is just about to close its own. This
  is the state right after its critical section; while the lock was waited for, the table may have
  grown or shrunk.
\<close>

theorem udp_close_complete:
  assumes "udp_reachable s" and "close_step s t" and "u_close t = C_Done"
  shows "u_listening s = u_listening t \<and> u_lock t = None
    \<and> (\<forall>c. c \<in> u_open t \<longrightarrow> loop_at t c L_Closing)"
proof -
  have inv: "inv_table s" "inv_open s" using udp_invD assms(1) by blast+
  have t: "t = s\<lparr>u_open := u_open s - ran (u_connTrackTable s), u_lock := None, u_close := C_Done\<rparr>"
    using assms(2,3) by (auto elim: close_stepE)
  have "loop_at s c L_Closing" if c: "c \<in> u_open s" "c \<notin> ran (u_connTrackTable s)" for c
  proof -
    obtain pc where pc: "place s c = Some pc" "pc \<noteq> L_Done"
      using inv(2) c(1) by (auto simp: inv_open_def)
    then obtain a k where "client s c = Some (a, k)" using client_place_dom [of s c] by fastforce
    with pc(1) have "\<not> live pc" using inv_table_live [OF inv(1)] c(2) by (metis ranI)
    with pc show ?thesis by (simp add: live_def)
  qed
  with t show ?thesis by auto
qed

lemma udp_close_complete_witness:
  "u_open (udp_init\<lparr>u_listening := False, u_lock := None, u_close := C_Done\<rparr>) = {}"
proof -
  let ?s = "udp_init\<lparr>u_listening := False, u_lock := Some H_Close, u_close := C_Locked\<rparr>"
  have "udp_reachable (udp_init\<lparr>u_listening := False, u_close := C_WantLock\<rparr>)"
    by (rule reachable_close [OF init close_listener]) (simp_all add: udp_init_def)
  then have "udp_reachable ?s"
    by (rule reachable_close [OF _ close_lock]) (simp_all add: udp_init_def)
  moreover have "close_step ?s (udp_init\<lparr>u_listening := False, u_lock := None, u_close := C_Done\<rparr>)"
    using close_conns [of ?s] by (simp add: udp_init_def)
  ultimately show ?thesis
    using udp_close_complete [of ?s "udp_init\<lparr>u_listening := False, u_lock := None, u_close := C_Done\<rparr>"]
    by (auto simp: udp_init_def place_def)
qed

text \<open>
  C40: A datagram taken before \<open>Close\<close> is still dialled for after it: the connection that results is not
  closed by \<open>Close\<close>, and lasts until its reply loop gets an error, the timeout at the latest.
\<close>

theorem dial_after_close:
  "\<exists>s. udp_reachable s \<and> u_close s = C_Done \<and> u_open s = {0} \<and> loop_at s 0 L_Read"
proof -
  let ?r = "R_WantLock demo_client demo_key ''q''"
  let ?s = "udp_init\<lparr>u_run := ?r, u_listening := False\<rparr>"
  have "udp_reachable (?s\<lparr>u_close := C_WantLock\<rparr>)"
    by (rule reachable_close [OF demo_read close_listener]) (simp_all add: udp_init_def)
  then have "udp_reachable (?s\<lparr>u_lock := Some H_Close, u_close := C_Locked\<rparr>)"
    by (rule reachable_close [OF _ close_lock]) (simp_all add: udp_init_def)
  then have "udp_reachable (?s\<lparr>u_close := C_Done\<rparr>)"
    by (rule reachable_close [OF _ close_conns]) (simp_all add: udp_init_def)
  then have "udp_reachable (?s\<lparr>u_close := C_Done, u_lock := Some H_Run,
      u_run := R_Locked demo_client demo_key ''q''\<rparr>)"
    by (rule reachable_run [OF _ run_lock]) (simp_all add: udp_init_def)
  then have "udp_reachable (demo_dialled\<lparr>u_listening := False, u_close := C_Done\<rparr>)"
    by (rule reachable_run [OF _ run_dial]) (simp_all add: udp_init_def demo_dialled_def)
  then show ?thesis by (intro exI) (auto simp: demo_dialled_def place_def)
qed

section \<open>Which clients share a key\<close>

text \<open>The sixteen bytes that a key holds: four bytes are preceded by zeros.\<close>

definition key_bytes :: "SockAddr \<Rightarrow> byte list" where
  "key_bytes a = (if length (IP a) = 4 then replicate 12 0 @ IP a else IP a)"

lemma be_nat_zeros: "be_nat (replicate n 0 @ bs) = be_nat bs"
  by (induction n) (simp_all add: be_nat_def)

lemma newConnTrackKey_key_bytes:
  "newConnTrackKey a = newConnTrackKey (a\<lparr>IP := key_bytes a\<rparr>)"
proof -
  have "take 8 (replicate 12 (0 :: byte) @ IP a) = replicate 8 0"
    "take 8 (drop 8 (replicate 12 (0 :: byte) @ IP a)) = replicate 4 0 @ IP a" if "length (IP a) = 4"
    using that by simp_all
  then show ?thesis
    using be_nat_zeros [of 8 "[]"] be_nat_zeros [of 4 "IP a"]
    by (simp add: newConnTrackKey_def key_bytes_def) (simp add: be_nat_def)
qed

text \<open>
  C37: The key of a client says who it is: for the addresses that the listener can give, of four or
  sixteen bytes, computing the key never panics, and two clients share a key exactly when their
  ports and their addresses, four bytes being preceded by zeros, are the same.
\<close>

theorem keys_identify_clients:
  assumes "length (IP a) \<in> {4, 16}" and "length (IP b) \<in> {4, 16}"
  shows "(\<exists>k. newConnTrackKey a = Returns k)
    \<and> (newConnTrackKey a = newConnTrackKey b \<longleftrightarrow> key_bytes a = key_bytes b \<and> Port a = Port b)"
proof -
  have returns: "\<exists>k. newConnTrackKey x = Returns k" if "length (IP x) \<in> {4, 16}" for x
    using that by (auto simp: newConnTrackKey_def)
  have long: "length (key_bytes x) = 16" if "length (IP x) \<in> {4, 16}" for x
    using that by (auto simp: key_bytes_def)
  have "key_bytes a = key_bytes b \<and> Port a = Port b" if eq: "newConnTrackKey a = newConnTrackKey b"
  proof -
    obtain k where "newConnTrackKey (a\<lparr>IP := key_bytes a\<rparr>) = Returns k"
      "newConnTrackKey (b\<lparr>IP := key_bytes b\<rparr>) = Returns k"
      using returns [OF assms(1)] eq newConnTrackKey_key_bytes [of a] newConnTrackKey_key_bytes [of b] by auto
    then have "a\<lparr>IP := key_bytes a\<rparr> = b\<lparr>IP := key_bytes b\<rparr>"
      using long [OF assms(1)] long [OF assms(2)] by (intro newConnTrackKey_inject) simp_all
    then show ?thesis by (cases a; cases b) simp
  qed
  moreover have "newConnTrackKey a = newConnTrackKey b" if "key_bytes a = key_bytes b" "Port a = Port b"
  proof -
    have "a\<lparr>IP := key_bytes a\<rparr> = b\<lparr>IP := key_bytes b\<rparr>"
      using that by (cases a; cases b) simp
    then show ?thesis using newConnTrackKey_key_bytes by metis
  qed
  ultimately show ?thesis using returns [OF assms(1)] by blast
qed

lemma keys_identify_clients_witness:
  "newConnTrackKey \<lparr>IP = [10, 0, 0, 7], Port = 53\<rparr> \<noteq> newConnTrackKey \<lparr>IP = [10, 0, 0, 8], Port = 53\<rparr>"
  using keys_identify_clients [of "\<lparr>IP = [10, 0, 0, 7], Port = 53\<rparr>" "\<lparr>IP = [10, 0, 0, 8], Port = 53\<rparr>"]
  by (simp add: key_bytes_def)

end
