(* ===== verification/ShimMain.thy ===== *)
theory ShimMain
  imports GoFlag EnvoyProxy UdpProxy
begin

text \<open>
  The shim's entry point and the choice of the proxy (\<open>cmd/envoy-docker-shim/main.go\<close> and
  \<open>proxy.go\<close>). What is written to the pipe of the parent process is the string each function
  gives beside its outcome. An uncaught panic ends the process; it is kept apart as \<^const>\<open>Panics\<close>.
\<close>

section \<open>Proxies\<close>

text \<open>The interface \<open>Proxy\<close> and its two implementations; the second with its shared state.\<close>

datatype 'x Proxy = Envoy "'x EnvoyProxy" | UDP UDPProxy udp

primrec Proxy_FrontendAddr :: "'x Proxy \<Rightarrow> Addr" where
  "Proxy_FrontendAddr (Envoy p) = FrontendAddr p"
| "Proxy_FrontendAddr (UDP u s) = udp_FrontendAddr u"

primrec Proxy_BackendAddr :: "'x Proxy \<Rightarrow> Addr" where
  "Proxy_BackendAddr (Envoy p) = BackendAddr p"
| "Proxy_BackendAddr (UDP u s) = udp_BackendAddr u"

text \<open>The result of a constructor that returns a proxy and an error.\<close>

type_synonym 'x made = "(goerror + 'x Proxy) outcome"

definition made_envoy :: "('x EnvoyProxy \<times> goerror option) outcome \<Rightarrow> 'x made" where
  "made_envoy r =
     (case r of
        Returns (p, None) \<Rightarrow> Returns (Inr (Envoy p))
      | Returns (p, Some err) \<Rightarrow> Returns (Inl err)
      | Panics m \<Rightarrow> Panics m | Exits c \<Rightarrow> Exits c | Blocks \<Rightarrow> Blocks)"

definition NewProxy ::
  "'x discoverer \<Rightarrow> (SockAddr \<Rightarrow> goerror + SockAddr) \<Rightarrow> Addr \<Rightarrow> Addr \<Rightarrow> string \<Rightarrow> 'x made" where
  "NewProxy dockerClient listen frontendAddr backendAddr envoySocketPath =
     (case frontendAddr of
        UDPAddr front \<Rightarrow>
          (case backendAddr of
             UDPAddr back \<Rightarrow>
               Returns (case NewUDPProxy listen front back of
                          Inl err \<Rightarrow> Inl err | Inr (u, s) \<Rightarrow> Inr (UDP u s))
           | TCPAddr back \<Rightarrow>
               Panics ''interface conversion: net.Addr is *net.TCPAddr, not *net.UDPAddr'')
      | TCPAddr front \<Rightarrow>
          (case backendAddr of
             TCPAddr back \<Rightarrow>
               made_envoy (NewEnvoyProxy dockerClient frontendAddr backendAddr envoySocketPath)
           | UDPAddr back \<Rightarrow>
               Panics ''interface conversion: net.Addr is *net.UDPAddr, not *net.TCPAddr''))"

section \<open>Command line\<close>

definition ShimSocketPath :: string where
  "ShimSocketPath = ''/tmp/docker-envoy.sock''"

definition parseCLI :: "string list \<Rightarrow> (Addr \<times> Addr \<times> bool) outcome" where
  "parseCLI args =
     (case parse_flags args default_flags of
        None \<Rightarrow> Exits 2
      | Some fl \<Rightarrow>
          let host = \<lparr>IP = ParseIP (fl_hostIP fl), Port = fl_hostPort fl\<rparr>;
              container = \<lparr>IP = ParseIP (fl_containerIP fl), Port = fl_containerPort fl\<rparr>
          in if fl_proto fl = ''tcp'' then Returns (TCPAddr host, TCPAddr container, fl_reload fl)
             else if fl_proto fl = ''udp'' then Returns (UDPAddr host, UDPAddr container, fl_reload fl)
             else Exits 1)"

section \<open>main\<close>

text \<open>
  Up to the call of \<open>Run\<close>: the proxy to run, or how the process ended. The descriptor of the pipe is
  never nil (\<open>os.NewFile\<close> of a number that is not negative), so the message is always written.
\<close>

definition main_start ::
  "'x discoverer \<Rightarrow> (SockAddr \<Rightarrow> goerror + SockAddr) \<Rightarrow> string list \<Rightarrow> 'x Proxy outcome \<times> string" where
  "main_start dockerClient listen args =
     (case parseCLI args of
        Panics m \<Rightarrow> (Panics m, []) | Exits c \<Rightarrow> (Exits c, []) | Blocks \<Rightarrow> (Blocks, [])
      | Returns (host, container, reload) \<Rightarrow>
          let made =
            (if reload then
               (case NewEnvoyProxy dockerClient host container ShimSocketPath of
                  Returns (p, err) \<Rightarrow> made_envoy (Returns (p\<lparr>px_Reload := True\<rparr>, err))
                | Panics m \<Rightarrow> Panics m | Exits c \<Rightarrow> Exits c | Blocks \<Rightarrow> Blocks)
             else NewProxy dockerClient listen host container ShimSocketPath)
          in case made of
               Panics m \<Rightarrow> (Panics m, []) | Exits c \<Rightarrow> (Exits c, []) | Blocks \<Rightarrow> (Blocks, [])
             | Returns (Inl err) \<Rightarrow> (Exits 1, ''1'' @ [CHR 0x0A] @ err)
             | Returns (Inr p) \<Rightarrow> (Returns p, ''0'' @ [CHR 0x0A]))"

text \<open>
  The whole of \<open>main\<close> for a TCP port; a UDP proxy goes on with the steps of \<^const>\<open>udp_step\<close> from the
  state that is given.
\<close>

datatype running = Finished "unit outcome" | Forwarding UDPProxy udp

definition main ::
  "('x, 'conn) grpc \<Rightarrow> 'x discoverer \<Rightarrow> (SockAddr \<Rightarrow> goerror + SockAddr) \<Rightarrow> string list \<Rightarrow> 'x world
   \<Rightarrow> running \<times> string \<times> 'x world" where
  "main G dockerClient listen args w =
     (case main_start dockerClient listen args of
        (Panics m, out) \<Rightarrow> (Finished (Panics m), out, w)
      | (Exits c, out) \<Rightarrow> (Finished (Exits c), out, w)
      | (Blocks, out) \<Rightarrow> (Finished Blocks, out, w)
      | (Returns (Envoy p), out) \<Rightarrow> (case Run G p w of (r, w') \<Rightarrow> (Finished r, out, w'))
      | (Returns (UDP u s), out) \<Rightarrow> (Forwarding u s, out, w))"

text \<open>
  The first signal closes the proxy and ends the process. \<open>Close\<close> of a UDP proxy always returns; its
  effect is that of \<^const>\<open>close_step\<close>.
\<close>

definition handleStopSignals ::
  "('x, 'conn) grpc \<Rightarrow> 'x Proxy \<Rightarrow> 'x world \<Rightarrow> unit outcome \<times> 'x world" where
  "handleStopSignals G p w =
     (case p of
        UDP u s \<Rightarrow> (Exits 0, w)
      | Envoy p \<Rightarrow>
          (case Close G p w of
             (Returns _, w') \<Rightarrow> (Exits 0, w')
           | (Panics m, w') \<Rightarrow> (Panics m, w')
           | (Exits c, w') \<Rightarrow> (Exits c, w')
           | (Blocks, w') \<Rightarrow> (Blocks, w')))"

section \<open>The command lines the shim is started with\<close>

text \<open>Docker's command line, and the one of \<open>scripts/resync\<close>, which appends a flag to it.\<close>

definition docker_args :: "string \<Rightarrow> SockAddr \<Rightarrow> SockAddr \<Rightarrow> string list" where
  "docker_args proto host container =
     [''-proto'', proto,
      ''-host-ip'', IP_String (IP host), ''-host-port'', fmt_d (sint (Port host)),
      ''-container-ip'', IP_String (IP container), ''-container-port'', fmt_d (sint (Port container))]"

definition resync_args :: "string \<Rightarrow> SockAddr \<Rightarrow> SockAddr \<Rightarrow> string list" where
  "resync_args proto host container = docker_args proto host container @ [''-reload'']"

definition canonical :: "SockAddr \<Rightarrow> SockAddr" where
  "canonical a = a\<lparr>IP := To16 (IP a)\<rparr>"

definition ip_wf :: "SockAddr \<Rightarrow> bool" where
  "ip_wf a \<longleftrightarrow> length (IP a) \<in> {0, 4, 16}"

lemma parse_docker_flags:
  "parse_flags (docker_args proto host container @ args) fl =
     parse_flags args (fl\<lparr>fl_proto := proto, fl_hostIP := IP_String (IP host), fl_hostPort := Port host,
       fl_containerIP := IP_String (IP container), fl_containerPort := Port container\<rparr>)"
proof -
  have v: "parse_flags ((CHR ''-'' # name) # v # rest) fl = Option.bind (set_flag name v fl) (parse_flags rest)"
    if "name \<in> {''proto'', ''host-ip'', ''container-ip'', ''host-port'', ''container-port''}"
    for name v rest fl
    using that by (intro parse_flag_value [where k = "the (lookup_flag name)"]) (auto simp: lookup_flag_def)
  show ?thesis
    by (simp add: docker_args_def v set_flag_def ParseInt0_fmt_d)
qed

lemma parse_reload: "parse_flags [''-reload''] fl = Some (fl\<lparr>fl_reload := True\<rparr>)"
  by (simp add: parse_flags.simps(2) split_flag_plain lookup_flag_def set_flag_def ParseBool_def)

lemma parseCLI_docker:
  assumes "ip_wf host" and "ip_wf container"
  shows "parseCLI (docker_args ''tcp'' host container) =
      Returns (TCPAddr (canonical host), TCPAddr (canonical container), False)"
    and "parseCLI (resync_args ''tcp'' host container) =
      Returns (TCPAddr (canonical host), TCPAddr (canonical container), True)"
    and "parseCLI (docker_args ''udp'' host container) =
      Returns (UDPAddr (canonical host), UDPAddr (canonical container), False)"
    and "parseCLI (resync_args ''udp'' host container) =
      Returns (UDPAddr (canonical host), UDPAddr (canonical container), True)"
  using assms parse_docker_flags [of _ host container "[]"]
  by (simp_all add: parseCLI_def resync_args_def parse_docker_flags parse_reload default_flags_def
      canonical_def ip_wf_def ParseIP_IP_String)

text \<open>The proxy that Docker's command line gives.\<close>

definition docker_proxy :: "'x discoverer \<Rightarrow> SockAddr \<Rightarrow> SockAddr \<Rightarrow> bool \<Rightarrow> 'x EnvoyProxy" where
  "docker_proxy dockerClient host container reload =
     \<lparr>px_ServerAddr = ShimSocketPath, px_frontendAddr = canonical host,
      px_backendAddr = canonical container, px_Discoverer = dockerClient, px_Reload = reload,
      px_Retries = [100, 500, 1000, 1500], px_GRPCTimeout = 3 * Second\<rparr>"

lemma main_start_tcp:
  assumes "ip_wf host" and "ip_wf container"
  shows "main_start dockerClient listen (docker_args ''tcp'' host container) =
      (Returns (Envoy (docker_proxy dockerClient host container False)), ''0'' @ [CHR 0x0A])"
    and "main_start dockerClient listen (resync_args ''tcp'' host container) =
      (Returns (Envoy (docker_proxy dockerClient host container True)), ''0'' @ [CHR 0x0A])"
  using assms
  by (simp_all add: main_start_def parseCLI_docker NewProxy_def NewEnvoyProxy_def assert_TCPAddr_def
      made_envoy_def docker_proxy_def)

section \<open>Properties\<close>

text \<open>
  C30: What Docker prints on the shim's command line, the shim reads back: the protocol selects the
  kind of the addresses, ports of any value survive, and every IPv4 and IPv6 address becomes its
  16-byte form (an absent one stays absent).
\<close>

theorem command_line_round_trip:
  assumes "ip_wf host" and "ip_wf container" and "reload = [] \<or> reload = [''-reload'']"
  shows "parseCLI (docker_args ''tcp'' host container @ reload) =
      Returns (TCPAddr (canonical host), TCPAddr (canonical container), reload \<noteq> [])
    \<and> parseCLI (docker_args ''udp'' host container @ reload) =
      Returns (UDPAddr (canonical host), UDPAddr (canonical container), reload \<noteq> [])"
  using assms parseCLI_docker [OF assms(1,2)] by (auto simp: resync_args_def)

definition sample_host :: SockAddr where
  "sample_host = \<lparr>IP = [0, 0, 0, 0], Port = 32768\<rparr>"

definition sample_container :: SockAddr where
  "sample_container = \<lparr>IP = [172, 17, 0, 2], Port = 80\<rparr>"

lemma sample_wf: "ip_wf sample_host" "ip_wf sample_container"
  by (simp_all add: ip_wf_def sample_host_def sample_container_def)

lemma command_line_round_trip_witness:
  "parseCLI (docker_args ''tcp'' sample_host sample_container @ [''-reload'']) =
     Returns (TCPAddr (canonical sample_host), TCPAddr (canonical sample_container), True)"
  using command_line_round_trip [OF sample_wf, of "[''-reload'']"] by simp

text \<open>
  C34: The resynchronisation script's command line is fatal for the shim of a UDP port: the type
  assertion of \<open>NewEnvoyProxy\<close> panics before anything is reported to the parent, while the same
  command line without the flag starts the UDP proxy, in the initial state of its goroutines, or
  reports the error of listening to the parent and ends.
\<close>

theorem resync_udp_panics:
  assumes "ip_wf host" and "ip_wf container"
  shows "main_start dockerClient listen (resync_args ''udp'' host container) =
      (Panics ''interface conversion: net.Addr is *net.UDPAddr, not *net.TCPAddr'', [])
    \<and> main_start dockerClient listen (docker_args ''udp'' host container) =
      (case NewUDPProxy listen (canonical host) (canonical container) of
         Inl err \<Rightarrow> (Exits 1, ''1'' @ [CHR 0x0A] @ err)
       | Inr (u, s) \<Rightarrow> (Returns (UDP u s), ''0'' @ [CHR 0x0A]))
    \<and> (NewUDPProxy listen (canonical host) (canonical container) = Inr (u, s) \<longrightarrow> s = udp_init)"
  using assms NewUDPProxy_init
  by (auto simp: main_start_def parseCLI_docker NewProxy_def NewEnvoyProxy_def assert_TCPAddr_def
      split: sum.split prod.split)

lemma resync_udp_panics_witness:
  "fst (main_start (\<lambda>port (x :: unit). (Inl ''none'', x)) Inr (resync_args ''udp'' sample_host sample_container)) =
     Panics ''interface conversion: net.Addr is *net.UDPAddr, not *net.TCPAddr''"
  using resync_udp_panics [OF sample_wf, of "\<lambda>port (x :: unit). (Inl ''none'', x)" Inr] by simp

end
