(* ===== verification/ShimWorld.thy ===== *)
theory ShimWorld
  imports Registrar ShimMain
begin

text \<open>
  A shim and the registrar together: \<^const>\<open>main\<close> and \<^const>\<open>handleStopSignals\<close> of the shim in a world whose
  calls reach \<^const>\<open>Register\<close>, and in a world where every attempt fails.
\<close>

section \<open>The life of a shim\<close>

text \<open>
  The world of a shim that works: the labels can be looked up, the server can be dialled, and gRPC
  delivers a call to the registrar, which lies in the world under \<open>view\<close>. Only the calls change it.
\<close>

definition shim_world ::
  "('x, 'conn) grpc \<Rightarrow> 'x discoverer \<Rightarrow> (int64 \<Rightarrow> DockerSettings) \<Rightarrow> ('x \<Rightarrow> Registrar) \<Rightarrow> (Registrar \<Rightarrow> 'x \<Rightarrow> 'x) \<Rightarrow> bool" where
  "shim_world G dockerClient labels view put \<longleftrightarrow>
     (\<forall>port x. \<exists>x'. dockerClient port x = (Inr (labels port), x') \<and> view x' = view x)
     \<and> (\<forall>time x. \<exists>conn x'. gr_Dial G ShimSocketPath time x = (Inr conn, x') \<and> view x' = view x
          \<and> delivers (gr_Invoke G conn) Register view put)
     \<and> (\<forall>conn x. view (gr_Close G conn x) = view x)
     \<and> (\<forall>r x. view (put r x) = r)"

text \<open>The request that a shim for these addresses sends.\<close>

definition shim_request :: "SockAddr \<Rightarrow> SockAddr \<Rightarrow> DockerSettings \<Rightarrow> RegistrarRequest_Action \<Rightarrow> RegistrarRequest" where
  "shim_request host container settings action =
     RegistrarRequest_zero
       \<lparr>req_FrontendAddr := IP_String (IP host), req_FrontendPort := scast (Port host),
        req_BackendAddr := IP_String (IP container), req_BackendPort := scast (Port container),
        req_Action := action, req_ServiceName := set_ServiceName settings,
        req_EnvironmentName := set_EnvironmentName settings, req_ProxyMode := set_ProxyMode settings\<rparr>"

lemma canonical_Port: "Port (canonical a) = Port a"
  by (simp add: canonical_def)

lemma DoAction_delivers:
  assumes "shim_world G dockerClient labels view put" and "ip_wf host" and "ip_wf container"
    and "action \<in> {RegistrarRequest_REGISTER, RegistrarRequest_DEREGISTER}"
  shows "\<exists>x'. DoAction G (docker_proxy dockerClient host container reload) action x = (None, x')
    \<and> view x' = snd (Register (shim_request host container (labels (Port host)) action) (view x))"
proof -
  let ?p = "docker_proxy dockerClient host container reload"
  let ?req = "shim_request host container (labels (Port host)) action"
  obtain x1 where x1: "dockerClient (Port (canonical host)) x = (Inr (labels (Port host)), x1)" "view x1 = view x"
    using assms(1) unfolding shim_world_def by (metis canonical_Port)
  obtain conn x2 where x2: "gr_Dial G ShimSocketPath (3 * Second) x1 = (Inr conn, x2)" "view x2 = view x1"
      "delivers (gr_Invoke G conn) Register view put"
    using assms(1) unfolding shim_world_def by blast
  have req: "(RequestWithSettings ?p (labels (Port host)))\<lparr>req_Action := action\<rparr> = ?req"
    using assms(2,3) by (simp add: RequestWithSettings_def shim_request_def docker_proxy_def
        canonical_def ip_wf_def IP_String_To16)
  have "fst (Register ?req r) = (\<lparr>reply_StatusCode = 1\<rparr>, None)" for r
    using assms(4) by (auto simp: Register_reply is_register_def is_deregister_def shim_request_def)
  then obtain s where s: "Register ?req (view x2) = ((\<lparr>reply_StatusCode = 1\<rparr>, None), s)"
    by (metis prod.collapse)
  have "Client_Register (gr_Invoke G conn) ?req x2 = ((Some \<lparr>reply_StatusCode = 1\<rparr>, None), put s x2)"
    using Client_Register_delivers [OF x2(3), of ?req x2] s by simp
  then have "DoAction G ?p action x = (None, gr_Close G conn (put s x2))"
    unfolding DoAction_def WithClient_def Let_def
    using x1(1) x2(1) by (simp add: docker_proxy_def flip: req)
  moreover have "view (gr_Close G conn (put s x2)) = s"
    using assms(1) by (simp add: shim_world_def)
  ultimately show ?thesis using s x1(2) x2(2) by simp
qed

text \<open>The first attempt succeeds, so the loop of retries makes no other.\<close>

lemma withRetries_delivers:
  assumes "shim_world G dockerClient labels view put" and "ip_wf host" and "ip_wf container"
    and "action \<in> {RegistrarRequest_REGISTER, RegistrarRequest_DEREGISTER}"
  shows "\<exists>x'. withRetries (docker_proxy dockerClient host container reload)
      (on_outside (DoAction G (docker_proxy dockerClient host container reload) action)) w
      = (None, w\<lparr>outside := x'\<rparr>)
    \<and> view x' = snd (Register (shim_request host container (labels (Port host)) action) (view (outside w)))"
  using DoAction_delivers [OF assms, of reload "outside w"]
  by (auto simp: withRetries_def on_outside_def docker_proxy_def [of dockerClient host container reload])

text \<open>A port survives the way through the request's \<open>int32\<close> exactly when it fits.\<close>

lemma scast_scast_iff: "scast (scast p :: int32) = p \<longleftrightarrow> int32_range p" for p :: int64
proof
  assume "scast (scast p :: int32) = p"
  then show "int32_range p" using int32_range_widen [of "scast p"] by simp
next
  assume "int32_range p"
  then have "sint (scast (scast p :: int32) :: int64) = sint p"
    by (simp add: sint_widen sint_narrow int32_range_def)
  then have "(of_int (sint (scast (scast p :: int32) :: int64)) :: int64) = of_int (sint p)"
    by (rule arg_cong)
  then show "scast (scast p :: int32) = p" by (simp only: of_int_sint scast_id)
qed

lemma shim_entry:
  assumes "ip_wf host" and "ip_wf container" and "int32_range (Port host)" and "int32_range (Port container)"
  shows "RequestToEntry (shim_request host container settings action) =
    \<lparr>entry_FrontendAddr = canonical host, entry_BackendAddr = canonical container,
     entry_ServiceName = set_ServiceName settings, entry_EnvironmentName = set_EnvironmentName settings,
     entry_ProxyMode = set_ProxyMode settings\<rparr>"
  using assms
  by (simp add: RequestToEntry_def shim_request_def canonical_def ip_wf_def ParseIP_IP_String scast_scast_iff)

text \<open>The entry that a shim for these addresses stands for.\<close>

definition shim_backend :: "SockAddr \<Rightarrow> SockAddr \<Rightarrow> DockerSettings \<Rightarrow> Entry" where
  "shim_backend host container settings =
     \<lparr>entry_FrontendAddr = canonical host, entry_BackendAddr = canonical container,
      entry_ServiceName = set_ServiceName settings, entry_EnvironmentName = set_EnvironmentName settings,
      entry_ProxyMode = set_ProxyMode settings\<rparr>"

lemma Register_shim_request:
  assumes "ip_wf host" and "ip_wf container" and "int32_range (Port host)" and "int32_range (Port container)"
  shows "GetEntry (snd (Register (shim_request host container settings RegistrarRequest_REGISTER) r)) name =
      (if name = SvcName (shim_backend host container settings)
       then Some (shim_backend host container settings) else GetEntry r name)"
    and "GetEntry (snd (Register (shim_request host container settings RegistrarRequest_DEREGISTER) r)) name =
      (if name = SvcName (shim_backend host container settings) then None else GetEntry r name)"
proof -
  have actions: "is_register (shim_request host container settings RegistrarRequest_REGISTER)"
    "is_deregister (shim_request host container settings RegistrarRequest_DEREGISTER)"
    by (simp_all add: is_register_def is_deregister_def shim_request_def)
  have "RequestToEntry (shim_request host container settings a) = shim_backend host container settings" for a
    using shim_entry [OF assms] by (simp add: shim_backend_def)
  then show "GetEntry (snd (Register (shim_request host container settings RegistrarRequest_REGISTER) r)) name =
      (if name = SvcName (shim_backend host container settings)
       then Some (shim_backend host container settings) else GetEntry r name)"
    and "GetEntry (snd (Register (shim_request host container settings RegistrarRequest_DEREGISTER) r)) name =
      (if name = SvcName (shim_backend host container settings) then None else GetEntry r name)"
    using actions by (simp_all add: registrar.lookup_register registrar.lookup_deregister request_name_def)
qed

lemma Run_delivers:
  assumes "shim_world G dockerClient labels view put" and "ip_wf host" and "ip_wf container"
  shows "\<exists>x'. Run G (docker_proxy dockerClient host container False) w =
      (Blocks, w\<lparr>slept := slept w @ [Second], outside := x'\<rparr>)
    \<and> view x' = snd (Register (shim_request host container (labels (Port host)) RegistrarRequest_REGISTER) (view (outside w)))"
    and "\<exists>x'. Run G (docker_proxy dockerClient host container True) w = (Returns (), w\<lparr>outside := x'\<rparr>)
    \<and> view x' = snd (Register (shim_request host container (labels (Port host)) RegistrarRequest_REGISTER) (view (outside w)))"
proof -
  note delivered = withRetries_delivers [OF assms, of RegistrarRequest_REGISTER]
  have "px_Reload (docker_proxy dockerClient host container reload) = reload" for reload
    by (simp add: docker_proxy_def)
  then show "\<exists>x'. Run G (docker_proxy dockerClient host container False) w =
      (Blocks, w\<lparr>slept := slept w @ [Second], outside := x'\<rparr>)
    \<and> view x' = snd (Register (shim_request host container (labels (Port host)) RegistrarRequest_REGISTER) (view (outside w)))"
    and "\<exists>x'. Run G (docker_proxy dockerClient host container True) w = (Returns (), w\<lparr>outside := x'\<rparr>)
    \<and> view x' = snd (Register (shim_request host container (labels (Port host)) RegistrarRequest_REGISTER) (view (outside w)))"
    using delivered [of False "Sleep (1 * Second) w"] delivered [of True w]
    by (auto simp: Run_def Sleep_def)
qed

lemma stop_delivers:
  assumes "shim_world G dockerClient labels view put" and "ip_wf host" and "ip_wf container"
  shows "\<exists>x'. handleStopSignals G (Envoy (docker_proxy dockerClient host container False)) w =
      (Exits 0, w\<lparr>outside := x'\<rparr>)
    \<and> view x' = snd (Register (shim_request host container (labels (Port host)) RegistrarRequest_DEREGISTER) (view (outside w)))"
  using withRetries_delivers [OF assms, of RegistrarRequest_DEREGISTER False w]
  by (auto simp: handleStopSignals_def Close_def)

text \<open>
  C3: The whole way of a TCP port. In a world that works, the shim started with Docker's command line
  tells its parent that it is up, waits a second, registers the port, and blocks; from then on the
  registrar finds under the port's name the entry with the command line's addresses and the
  container's labels. The signal ends it with status 0, the entry gone and every other name as it
  was before the start.
\<close>

theorem shim_lifecycle:
  assumes "shim_world G dockerClient labels view put" and "ip_wf host" and "ip_wf container"
    and "int32_range (Port host)" and "int32_range (Port container)"
  shows "\<exists>x' x''.
      main G dockerClient listen (docker_args ''tcp'' host container) w =
        (Finished Blocks, ''0'' @ [CHR 0x0A], w\<lparr>slept := slept w @ [Second], outside := x'\<rparr>)
      \<and> GetEntry (view x') (SvcName (shim_backend host container (labels (Port host)))) =
        Some (shim_backend host container (labels (Port host)))
      \<and> handleStopSignals G (Envoy (docker_proxy dockerClient host container False))
          (w\<lparr>slept := slept w @ [Second], outside := x'\<rparr>) =
        (Exits 0, w\<lparr>slept := slept w @ [Second], outside := x''\<rparr>)
      \<and> GetEntry (view x'') = (GetEntry (view (outside w)))(SvcName (shim_backend host container (labels (Port host))) := None)"
proof -
  obtain x' where run: "Run G (docker_proxy dockerClient host container False) w =
      (Blocks, w\<lparr>slept := slept w @ [Second], outside := x'\<rparr>)"
    and x': "view x' = snd (Register (shim_request host container (labels (Port host)) RegistrarRequest_REGISTER) (view (outside w)))"
    using Run_delivers(1) [OF assms(1-3), of w] by blast
  obtain x'' where stop: "handleStopSignals G (Envoy (docker_proxy dockerClient host container False))
      (w\<lparr>slept := slept w @ [Second], outside := x'\<rparr>) = (Exits 0, w\<lparr>slept := slept w @ [Second], outside := x''\<rparr>)"
    and x'': "view x'' = snd (Register (shim_request host container (labels (Port host)) RegistrarRequest_DEREGISTER) (view x'))"
    using stop_delivers [OF assms(1-3), of "w\<lparr>slept := slept w @ [Second], outside := x'\<rparr>"] by auto
  have "main G dockerClient listen (docker_args ''tcp'' host container) w =
      (Finished Blocks, ''0'' @ [CHR 0x0A], w\<lparr>slept := slept w @ [Second], outside := x'\<rparr>)"
    using run by (simp add: main_def main_start_tcp [OF assms(2,3)])
  moreover have "GetEntry (view x'') = (GetEntry (view (outside w)))(SvcName (shim_backend host container (labels (Port host))) := None)"
    by (auto simp: x'' x' Register_shim_request [OF assms(2-5)])
  ultimately show ?thesis
    using stop by (auto simp: x' Register_shim_request [OF assms(2-5)])
qed

text \<open>A world that is the registrar itself, without delays or failures.\<close>

definition demo_grpc :: "(Registrar, unit) grpc" where
  "demo_grpc = \<lparr>gr_Dial = (\<lambda>addr time x. (Inr (), x)), gr_Invoke = (\<lambda>conn. direct_invoke),
     gr_Close = (\<lambda>conn x. x)\<rparr>"

definition demo_settings :: DockerSettings where
  "demo_settings = \<lparr>set_ServiceName = ''web'', set_EnvironmentName = ''dev'', set_ProxyMode = ''http''\<rparr>"

lemma demo_world: "shim_world demo_grpc (\<lambda>port x. (Inr demo_settings, x)) (\<lambda>_. demo_settings) id (\<lambda>r x. r)"
  by (simp add: shim_world_def demo_grpc_def direct_delivers)

lemma sample_ports: "int32_range (Port sample_host)" "int32_range (Port sample_container)"
  by (simp_all add: int32_range_def sample_host_def sample_container_def)

lemma shim_lifecycle_witness:
  "\<exists>x'. main demo_grpc (\<lambda>port x. (Inr demo_settings, x)) Inr (docker_args ''tcp'' sample_host sample_container)
        \<lparr>outside = NewRegistrar, slept = []\<rparr> =
      (Finished Blocks, ''0'' @ [CHR 0x0A], \<lparr>outside = x', slept = [Second]\<rparr>)
    \<and> GetEntry x' (SvcName (shim_backend sample_host sample_container demo_settings)) =
      Some (shim_backend sample_host sample_container demo_settings)"
  using shim_lifecycle [OF demo_world sample_wf sample_ports, of Inr "\<lparr>outside = NewRegistrar, slept = []\<rparr>"]
  by auto

text \<open>
  A shim run again with the flag \<open>-reload\<close>, as after a restart of the server, puts the port's entry
  into the new registrar, changes no other name, sleeps not at all, and ends normally: the original
  shim of the port is not needed for it.
\<close>

lemma resync_restores:
  assumes "shim_world G dockerClient labels view put" and "ip_wf host" and "ip_wf container"
    and "int32_range (Port host)" and "int32_range (Port container)"
  shows "\<exists>x'. main G dockerClient listen (resync_args ''tcp'' host container) w =
      (Finished (Returns ()), ''0'' @ [CHR 0x0A], w\<lparr>outside := x'\<rparr>)
    \<and> GetEntry (view x') = (GetEntry (view (outside w)))
        (SvcName (shim_backend host container (labels (Port host))) \<mapsto> shim_backend host container (labels (Port host)))"
proof -
  obtain x' where run: "Run G (docker_proxy dockerClient host container True) w = (Returns (), w\<lparr>outside := x'\<rparr>)"
    and x': "view x' = snd (Register (shim_request host container (labels (Port host)) RegistrarRequest_REGISTER) (view (outside w)))"
    using Run_delivers(2) [OF assms(1-3), of w] by blast
  have "GetEntry (view x') = (GetEntry (view (outside w)))
      (SvcName (shim_backend host container (labels (Port host))) \<mapsto> shim_backend host container (labels (Port host)))"
    by (auto simp: x' Register_shim_request [OF assms(2-5)])
  then show ?thesis
    using run by (auto simp: main_def main_start_tcp [OF assms(2,3)])
qed

section \<open>When registration fails\<close>

text \<open>
  Every attempt fails with this error and leaves the registrar alone: the label look-up fails, or the
  server cannot be dialled, or the call comes back with an error (dialling does not wait for the
  server, so this is what a server that is down gives).
\<close>

definition shim_world_down ::
  "('x, 'conn) grpc \<Rightarrow> 'x discoverer \<Rightarrow> ('x \<Rightarrow> Registrar) \<Rightarrow> goerror \<Rightarrow> bool" where
  "shim_world_down G dockerClient view err \<longleftrightarrow>
     (\<forall>port x. \<exists>x'. dockerClient port x = (Inl err, x') \<and> view x' = view x)
     \<or> (\<forall>port x. \<exists>settings x'. dockerClient port x = (Inr settings, x') \<and> view x' = view x)
       \<and> (\<forall>time x.
            (\<exists>x'. gr_Dial G ShimSocketPath time x = (Inl err, x') \<and> view x' = view x)
            \<or> (\<exists>conn x'. gr_Dial G ShimSocketPath time x = (Inr conn, x') \<and> view x' = view x
                 \<and> (\<forall>req out y. \<exists>out' y'. gr_Invoke G conn FullMethod req out y = ((out', Some err), y')
                      \<and> view y' = view y)
                 \<and> (\<forall>y. view (gr_Close G conn y) = view y)))"

lemma WithClient_down:
  assumes "(\<exists>x'. gr_Dial G (px_ServerAddr p) (px_GRPCTimeout p) x = (Inl err, x') \<and> view x' = view x)
    \<or> (\<exists>conn x'. gr_Dial G (px_ServerAddr p) (px_GRPCTimeout p) x = (Inr conn, x') \<and> view x' = view x
         \<and> (\<forall>req out y. \<exists>out' y'. gr_Invoke G conn FullMethod req out y = ((out', Some err), y')
              \<and> view y' = view y)
         \<and> (\<forall>y. view (gr_Close G conn y) = view y))"
  shows "\<exists>x'. WithClient G p (\<lambda>c x. case c req x of ((resp, err), x') \<Rightarrow> (err, x')) x = (Some err, x')
    \<and> view x' = view x"
  using assms
proof
  assume "\<exists>x'. gr_Dial G (px_ServerAddr p) (px_GRPCTimeout p) x = (Inl err, x') \<and> view x' = view x"
  then show ?thesis by (auto simp: WithClient_def)
next
  assume "\<exists>conn x'. gr_Dial G (px_ServerAddr p) (px_GRPCTimeout p) x = (Inr conn, x') \<and> view x' = view x
      \<and> (\<forall>req out y. \<exists>out' y'. gr_Invoke G conn FullMethod req out y = ((out', Some err), y')
           \<and> view y' = view y)
      \<and> (\<forall>y. view (gr_Close G conn y) = view y)"
  then obtain conn x1 where x1: "gr_Dial G (px_ServerAddr p) (px_GRPCTimeout p) x = (Inr conn, x1)" "view x1 = view x"
    and fails: "\<forall>req out y. \<exists>out' y'. gr_Invoke G conn FullMethod req out y = ((out', Some err), y')
      \<and> view y' = view y"
    and closes: "\<forall>y. view (gr_Close G conn y) = view y"
    by blast
  obtain out' x2 where "gr_Invoke G conn FullMethod req RegistrarReply_zero x1 = ((out', Some err), x2)"
      "view x2 = view x1"
    using fails by blast
  with x1 closes show ?thesis by (simp add: WithClient_def Client_Register_FullMethod)
qed

lemma DoAction_down:
  assumes "shim_world_down G dockerClient view err"
  shows "\<exists>x'. DoAction G (docker_proxy dockerClient host container reload) action x = (Some err, x')
    \<and> view x' = view x"
proof -
  let ?p = "docker_proxy dockerClient host container reload"
  have px: "px_ServerAddr ?p = ShimSocketPath" "px_Discoverer ?p = dockerClient"
    "px_frontendAddr ?p = canonical host" by (simp_all add: docker_proxy_def)
  from assms show ?thesis
    unfolding shim_world_down_def
  proof
    assume "\<forall>port x. \<exists>x'. dockerClient port x = (Inl err, x') \<and> view x' = view x"
    then obtain x' where "dockerClient (Port (canonical host)) x = (Inl err, x')" "view x' = view x" by blast
    then show ?thesis by (simp add: DoAction_def px)
  next
    assume down: "(\<forall>port x. \<exists>settings x'. dockerClient port x = (Inr settings, x') \<and> view x' = view x)
      \<and> (\<forall>time x.
            (\<exists>x'. gr_Dial G ShimSocketPath time x = (Inl err, x') \<and> view x' = view x)
            \<or> (\<exists>conn x'. gr_Dial G ShimSocketPath time x = (Inr conn, x') \<and> view x' = view x
                 \<and> (\<forall>req out y. \<exists>out' y'. gr_Invoke G conn FullMethod req out y = ((out', Some err), y')
                      \<and> view y' = view y)
                 \<and> (\<forall>y. view (gr_Close G conn y) = view y)))"
    then obtain settings x1 where x1: "dockerClient (Port (canonical host)) x = (Inr settings, x1)" "view x1 = view x"
      by blast
    have "\<exists>x'. WithClient G ?p (\<lambda>c x. case c ((RequestWithSettings ?p settings)\<lparr>req_Action := action\<rparr>) x of
        ((resp, err), x') \<Rightarrow> (err, x')) x1 = (Some err, x') \<and> view x' = view x1"
      by (rule WithClient_down) (use down px(1) in metis)
    with x1 show ?thesis by (simp add: DoAction_def px Let_def)
  qed
qed

text \<open>The pauses of the four attempts, in nanoseconds.\<close>

definition all_pauses :: "int64 list" where
  "all_pauses = map (\<lambda>m. m * Millisecond) [100, 500, 1000, 1500]"

lemma retry_loop_down:
  assumes "\<And>x. \<exists>x'. act x = (Some err, x') \<and> view x' = view x" and "rs \<noteq> [] \<or> e = Some err"
  shows "\<exists>x'. retry_loop (on_outside act) rs e w =
      (Some err, w\<lparr>slept := slept w @ map (\<lambda>m. m * Millisecond) rs, outside := x'\<rparr>)
    \<and> view x' = view (outside w)"
  using assms(2)
proof (induction rs arbitrary: e w)
  case Nil
  then show ?case by (intro exI [of _ "outside w"]) simp
next
  case (Cons m rs)
  obtain x1 where x1: "act (outside w) = (Some err, x1)" "view x1 = view (outside w)"
    using assms(1) by blast
  obtain x2 where "retry_loop (on_outside act) rs (Some err) (Sleep (m * Millisecond) (w\<lparr>outside := x1\<rparr>)) =
      (Some err, (w\<lparr>outside := x1, slept := slept w @ [m * Millisecond]\<rparr>)
         \<lparr>slept := slept w @ [m * Millisecond] @ map (\<lambda>m. m * Millisecond) rs, outside := x2\<rparr>)"
      "view x2 = view x1"
    using Cons.IH [of "Some err" "Sleep (m * Millisecond) (w\<lparr>outside := x1\<rparr>)"] by (auto simp: Sleep_def)
  moreover have "on_outside act w = (Some err, w\<lparr>outside := x1\<rparr>)"
    using x1 by (simp add: on_outside_def)
  ultimately show ?case using x1 by (auto intro!: exI [of _ x2])
qed

lemma withRetries_down:
  assumes "shim_world_down G dockerClient view err"
  shows "\<exists>x'. withRetries (docker_proxy dockerClient host container reload)
      (on_outside (DoAction G (docker_proxy dockerClient host container reload) action)) w =
      (Some err, w\<lparr>slept := slept w @ all_pauses, outside := x'\<rparr>)
    \<and> view x' = view (outside w)"
proof -
  let ?act = "DoAction G (docker_proxy dockerClient host container reload) action"
  have "\<exists>x'. retry_loop (on_outside ?act) [100, 500, 1000, 1500] None w =
      (Some err, w\<lparr>slept := slept w @ map (\<lambda>m. m * Millisecond) [100, 500, 1000, 1500], outside := x'\<rparr>)
    \<and> view x' = view (outside w)"
    by (rule retry_loop_down) (rule DoAction_down [OF assms], simp)
  moreover have "px_Retries (docker_proxy dockerClient host container reload) = [100, 500, 1000, 1500]"
    by (simp add: docker_proxy_def)
  ultimately show ?thesis by (simp add: withRetries_def all_pauses_def)
qed

text \<open>
  C26: A shim that cannot register. When Docker or the server never answers, a shim started by Docker
  has told its parent that it is up, tries four times and then blocks as if it had registered: the
  registrar does not know the port and nothing reports it. Only with \<open>-reload\<close> does the failure end
  the process, by a panic with the last error. The stop signal ends it with status 1, and the
  registrar still as it was: an entry registered earlier stays.
\<close>

theorem registration_failure:
  assumes "shim_world_down G dockerClient view err" and "ip_wf host" and "ip_wf container"
  shows "(\<exists>x'. main G dockerClient listen (docker_args ''tcp'' host container) w =
        (Finished Blocks, ''0'' @ [CHR 0x0A], w\<lparr>slept := slept w @ Second # all_pauses, outside := x'\<rparr>)
      \<and> view x' = view (outside w))
    \<and> (\<exists>x'. main G dockerClient listen (resync_args ''tcp'' host container) w =
        (Finished (Panics (''Could not call Envoy: '' @ err)), ''0'' @ [CHR 0x0A],
         w\<lparr>slept := slept w @ all_pauses, outside := x'\<rparr>)
      \<and> view x' = view (outside w))
    \<and> (\<exists>x'. handleStopSignals G (Envoy (docker_proxy dockerClient host container False)) w =
        (Exits 1, w\<lparr>slept := slept w @ all_pauses, outside := x'\<rparr>)
      \<and> view x' = view (outside w))"
proof -
  have reload: "px_Reload (docker_proxy dockerClient host container reload) = reload" for reload
    by (simp add: docker_proxy_def)
  note down = withRetries_down [OF assms(1), of host container]
  have "\<exists>x'. Run G (docker_proxy dockerClient host container False) w =
      (Blocks, w\<lparr>slept := slept w @ Second # all_pauses, outside := x'\<rparr>) \<and> view x' = view (outside w)"
    using down [of False RegistrarRequest_REGISTER "Sleep (1 * Second) w"]
    by (auto simp: Run_def Sleep_def reload)
  moreover have "\<exists>x'. Run G (docker_proxy dockerClient host container True) w =
      (Panics (''Could not call Envoy: '' @ err), w\<lparr>slept := slept w @ all_pauses, outside := x'\<rparr>)
      \<and> view x' = view (outside w)"
    using down [of True RegistrarRequest_REGISTER w] by (auto simp: Run_def reload)
  moreover have "\<exists>x'. handleStopSignals G (Envoy (docker_proxy dockerClient host container False)) w =
        (Exits 1, w\<lparr>slept := slept w @ all_pauses, outside := x'\<rparr>) \<and> view x' = view (outside w)"
    using down [of False RegistrarRequest_DEREGISTER w] by (auto simp: handleStopSignals_def Close_def)
  ultimately show ?thesis
    by (auto simp: main_def main_start_tcp [OF assms(2,3)])
qed

lemma registration_failure_witness:
  "\<exists>x'. main demo_grpc (\<lambda>port x. (Inl ''no Docker'', x)) Inr (docker_args ''tcp'' sample_host sample_container)
        \<lparr>outside = NewRegistrar, slept = []\<rparr> =
      (Finished Blocks, ''0'' @ [CHR 0x0A], \<lparr>outside = x', slept = Second # all_pauses\<rparr>)
    \<and> x' = NewRegistrar"
proof -
  have "shim_world_down demo_grpc (\<lambda>port x. (Inl ''no Docker'', x)) id ''no Docker''"
    by (simp add: shim_world_down_def)
  from registration_failure [OF this sample_wf, of Inr "\<lparr>outside = NewRegistrar, slept = []\<rparr>"]
  show ?thesis by auto
qed

end
