(* ===== verification/Resync.thy ===== *)
theory Resync
  imports ShimWorld
begin

text \<open>
  The script \<open>scripts/resync\<close>, which runs every shim of the process table again with the flag
  \<open>-reload\<close>, so that a server that was restarted learns of all ports. The lines that \<open>ps -ef\<close> prints
  are its input; the shell's \<open>eval\<close> is an argument, as it runs whatever the line says.
\<close>

section \<open>The pipeline\<close>

text \<open>Blanks separate the fields of \<open>awk\<close> and the words of the shell.\<close>

definition blank :: "char \<Rightarrow> bool" where
  "blank c \<longleftrightarrow> c = CHR '' '' \<or> c = CHR 0x09"

function fields :: "string \<Rightarrow> string list" where
  "fields s =
     (let t = dropWhile blank s
      in if t = [] then []
         else takeWhile (\<lambda>c. \<not> blank c) t # fields (dropWhile (\<lambda>c. \<not> blank c) t))"
  by auto
termination
proof (relation "measure length")
  fix s t :: string
  assume t: "t = dropWhile blank s" "t \<noteq> []"
  then have "\<not> blank (hd t)" using hd_dropWhile by metis
  with t(2) have "length (dropWhile (\<lambda>c. \<not> blank c) t) < length t"
    by (cases t) (simp_all add: le_imp_less_Suc length_dropWhile_le)
  moreover have "length t \<le> length s" using t(1) by (simp add: length_dropWhile_le)
  ultimately show "(dropWhile (\<lambda>c. \<not> blank c) t, s) \<in> measure length" by simp
qed simp

declare fields.simps [simp del]

text \<open>\<open>grep "envoy-docker-shi[m]" | grep -v dockerd\<close>; the bracket keeps \<open>grep\<close>'s own row out.\<close>

definition selected :: "string \<Rightarrow> bool" where
  "selected l \<longleftrightarrow> sublist ''envoy-docker-shim'' l \<and> \<not> sublist ''dockerd'' l"

text \<open>The loop of \<open>awk\<close> over the fields from the eighth on, each followed by a space.\<close>

definition awk_print :: "string \<Rightarrow> string" where
  "awk_print l = concat (map (\<lambda>f. f @ '' '') (drop 7 (fields l)))"

text \<open>\<open>read -r line\<close> takes the blanks at both ends off.\<close>

definition trim :: "string \<Rightarrow> string" where
  "trim s = rev (dropWhile blank (rev (dropWhile blank s)))"

text \<open>The loop of the script: what it echoes, and the world after the commands.\<close>

fun resync_loop :: "(string \<Rightarrow> 'w \<Rightarrow> 'w) \<Rightarrow> string list \<Rightarrow> 'w \<Rightarrow> string list \<times> 'w" where
  "resync_loop eval [] w = ([], w)"
| "resync_loop eval (l # ls) w =
     (let line = trim l @ '' -reload'';
          (out, w') = resync_loop eval ls (eval line w)
      in ((''+ '' @ line) # out, w'))"

definition resync :: "(string \<Rightarrow> 'w \<Rightarrow> 'w) \<Rightarrow> string list \<Rightarrow> 'w \<Rightarrow> string list \<times> 'w" where
  "resync eval ps w = resync_loop eval (map awk_print (filter selected ps)) w"

section \<open>Words\<close>

definition word :: "string \<Rightarrow> bool" where
  "word f \<longleftrightarrow> f \<noteq> [] \<and> (\<forall>c \<in> set f. \<not> blank c)"

lemma fields_Nil [simp]: "fields [] = []"
  by (simp add: fields.simps)

lemma fields_word: "word f \<Longrightarrow> s = [] \<or> blank (hd s) \<Longrightarrow> fields (f @ s) = f # fields s"
proof -
  assume f: "word f" and s: "s = [] \<or> blank (hd s)"
  from f have d: "dropWhile blank (f @ s) = f @ s" by (cases f) (simp_all add: word_def)
  have "takeWhile (\<lambda>c. \<not> blank c) (f @ s) = f" "dropWhile (\<lambda>c. \<not> blank c) (f @ s) = s"
    using f s by (cases s; simp add: word_def takeWhile_append2 dropWhile_append2)+
  with d f show ?thesis by (subst fields.simps) (simp add: word_def Let_def)
qed

lemma fields_blank: "blank c \<Longrightarrow> fields (c # s) = fields s"
  by (subst (1 2) fields.simps) simp

lemma fields_words: "\<forall>f \<in> set fs. word f \<Longrightarrow> fields (join '' '' fs) = fs"
proof (induction fs)
  case (Cons f fs)
  show ?case
  proof (cases "fs = []")
    case True
    with Cons.prems show ?thesis using fields_word [of f "[]"] by simp
  next
    case False
    have "fields (f @ '' '' @ join '' '' fs) = f # fields ('' '' @ join '' '' fs)"
      using Cons.prems by (intro fields_word) (simp_all add: blank_def)
    with Cons False show ?thesis by (simp add: join_Cons fields_blank blank_def)
  qed
qed simp

lemma word_fields: "f \<in> set (fields s) \<Longrightarrow> word f"
proof (induction s rule: fields.induct)
  case (1 s)
  let ?t = "dropWhile blank s"
  show ?case
  proof (cases "?t = []")
    case True
    with 1 show ?thesis by (subst (asm) fields.simps) simp
  next
    case False
    then have hd: "\<not> blank (hd ?t)" using hd_dropWhile by metis
    from False have "fields s = takeWhile (\<lambda>c. \<not> blank c) ?t # fields (dropWhile (\<lambda>c. \<not> blank c) ?t)"
      by (subst fields.simps) (simp only: Let_def if_False)
    then have "f = takeWhile (\<lambda>c. \<not> blank c) ?t \<or> f \<in> set (fields (dropWhile (\<lambda>c. \<not> blank c) ?t))"
      using 1(2) by simp
    moreover have "word (takeWhile (\<lambda>c. \<not> blank c) ?t)"
      using False hd by (cases ?t) (auto simp: word_def dest: set_takeWhileD)
    ultimately show ?thesis using 1(1) False by blast
  qed
qed

lemma join_word:
  assumes "\<forall>f \<in> set fs. word f" and "fs \<noteq> []"
  shows "join '' '' fs \<noteq> []" "\<not> blank (hd (join '' '' fs))" "\<not> blank (last (join '' '' fs))"
proof -
  have f: "f \<noteq> []" "\<not> blank (hd f)" "\<not> blank (last f)" if "word f" for f
    using that by (auto simp: word_def)
  have "join '' '' fs \<noteq> [] \<and> \<not> blank (hd (join '' '' fs)) \<and> \<not> blank (last (join '' '' fs))"
    using assms
  proof (induction fs)
    case (Cons g fs)
    then show ?case using f [of g] by (cases "fs = []") (simp_all add: join_Cons)
  qed simp
  then show "join '' '' fs \<noteq> []" "\<not> blank (hd (join '' '' fs))" "\<not> blank (last (join '' '' fs))"
    by simp_all
qed

lemma join_trailing: "concat (map (\<lambda>f. f @ '' '') fs) = (if fs = [] then [] else join '' '' fs @ '' '')"
  by (induction fs) (simp_all add: join_Cons)

lemma trim_words:
  assumes "\<forall>f \<in> set fs. word f"
  shows "trim (concat (map (\<lambda>f. f @ '' '') fs)) = join '' '' fs"
proof (cases "fs = []")
  case False
  let ?s = "join '' '' fs"
  note s = join_word [OF assms False]
  have "dropWhile blank (?s @ '' '') = ?s @ '' ''"
    using s(1,2) by (cases ?s) simp_all
  moreover have "dropWhile blank (rev ?s) = rev ?s"
    using s(1,3) by (cases ?s rule: rev_cases) simp_all
  ultimately show ?thesis using False by (simp add: trim_def join_trailing blank_def)
qed (simp add: trim_def)

lemma sublist_fields: "f \<in> set (fields s) \<Longrightarrow> sublist f s"
proof (induction s rule: fields.induct)
  case (1 s)
  let ?t = "dropWhile blank s"
  have "?t \<noteq> []" using 1(2) by (subst (asm) fields.simps) (auto simp: Let_def split: if_splits)
  then have "fields s = takeWhile (\<lambda>c. \<not> blank c) ?t # fields (dropWhile (\<lambda>c. \<not> blank c) ?t)"
    by (subst fields.simps) (simp only: Let_def if_False)
  then consider "f = takeWhile (\<lambda>c. \<not> blank c) ?t" | "f \<in> set (fields (dropWhile (\<lambda>c. \<not> blank c) ?t))"
    using 1(2) by auto
  then have "sublist f ?t"
  proof cases
    case 1
    then show ?thesis by (simp add: prefix_imp_sublist takeWhile_is_prefix)
  next
    case 2
    then have "sublist f (dropWhile (\<lambda>c. \<not> blank c) ?t)" using 1(1) \<open>?t \<noteq> []\<close> by blast
    then show ?thesis using suffix_imp_sublist suffix_dropWhile sublist_order.order.trans by blast
  qed
  then show ?case using suffix_imp_sublist suffix_dropWhile sublist_order.order.trans by blast
qed

section \<open>The shell\<close>

text \<open>
  Characters that no shell gives a meaning: a line of them and of blanks is a command with its
  arguments. A shim's command line has no others, as long as its addresses are not absent.
\<close>

definition plain :: "char \<Rightarrow> bool" where
  "plain c \<longleftrightarrow>
     (let n = of_char c :: nat
      in 45 \<le> n \<and> n \<le> 58 \<or> 65 \<le> n \<and> n \<le> 90 \<or> n = 95 \<or> 97 \<le> n \<and> n \<le> 122)"

definition plain_word :: "string \<Rightarrow> bool" where
  "plain_word f \<longleftrightarrow> f \<noteq> [] \<and> (\<forall>c \<in> set f. plain c)"

lemma plain_not_blank: "plain c \<Longrightarrow> \<not> blank c"
  by (auto simp: plain_def blank_def Let_def)

lemma plain_word: "plain_word f \<Longrightarrow> word f"
  by (auto simp: plain_word_def word_def plain_not_blank)

lemma plain_digits: "\<forall>d < 16. plain (digit_char d)"
  by code_simp

lemma plain_seps [simp]: "plain CHR ''.''" "plain CHR '':''" "plain CHR ''-''"
  by code_simp+

lemma plain_nat_str: "2 \<le> base \<Longrightarrow> base \<le> 16 \<Longrightarrow> c \<in> set (nat_str base n) \<Longrightarrow> plain c"
  using nat_str_digits [of base n] plain_digits by fastforce

lemma plain_fmt_d: "plain_word (fmt_d i)"
  unfolding plain_word_def by (auto simp: fmt_d_def intro: plain_nat_str [of 10])

lemma plain_join: "\<forall>x \<in> set xs. \<forall>c \<in> set x. plain c \<Longrightarrow> \<forall>c \<in> set sep. plain c \<Longrightarrow> c \<in> set (join sep xs) \<Longrightarrow> plain c"
  by (induction sep xs rule: join.induct) auto

lemma plain_fmt_groups: "c \<in> set (fmt_groups gs e i) \<Longrightarrow> plain c"
proof (induction gs e i rule: fmt_groups.induct)
  case (1 gs e i)
  have hex: "c \<in> set (hex n) \<Longrightarrow> plain c" for n by (rule plain_nat_str [of 16]) simp_all
  show ?case
  proof (cases "length gs \<le> i")
    case True
    with 1(4) show ?thesis by (simp add: fmt_groups.simps)
  next
    case False
    show ?thesis
    proof (cases e)
      case None
      show ?thesis
        using 1(4) 1(1) [OF False None] False
        by (subst (asm) fmt_groups.simps) (auto simp: None dest: hex split: if_splits)
    next
      case (Some e01)
      obtain e0 e1 where e: "e = Some (e0, e1)" using Some by (cases e01) simp
      show ?thesis
        using 1(4) 1(2) [OF False e refl] 1(3) [OF False e refl] False
        by (subst (asm) fmt_groups.simps) (auto simp: e dest: hex split: if_splits)
    qed
  qed
qed

lemma plain_IP_String: "length (IP a) \<in> {4, 16} \<Longrightarrow> plain_word (IP_String (IP a))"
proof -
  assume a: "length (IP a) \<in> {4, 16}"
  have "ParseIP (IP_String (IP a)) = To16 (IP a)"
    using a ParseIP_IP_String by auto
  moreover have "To16 (IP a) \<noteq> []"
    using a by (auto simp: To16_def v4InV6Prefix_def)
  moreover have "ParseIP [] = []" by (simp add: ParseIP_def)
  ultimately have "IP_String (IP a) \<noteq> []" by metis
  moreover have "plain c" if c: "c \<in> set (dotted p)" for c p
    using c unfolding dotted_def by (rule plain_join [rotated 2]) (auto intro: plain_nat_str [of 10])
  moreover have "IP a \<noteq> []" using a by auto
  ultimately show ?thesis
    using a by (auto simp: plain_word_def IP_String_def plain_fmt_groups To4_def split: if_splits)
qed

lemma plain_flags:
  "plain_word ''-proto''" "plain_word ''-host-ip''" "plain_word ''-host-port''"
  "plain_word ''-container-ip''" "plain_word ''-container-port''" "plain_word ''-reload''"
  by code_simp+

section \<open>The process table\<close>

text \<open>
  A row of \<open>ps -ef\<close> has seven columns before the command. The rows that the script selects are those
  of shims, with the protocol and the addresses that Docker gave them, in the order of the table;
  the others it leaves out.
\<close>

type_synonym shim_args = "string \<times> SockAddr \<times> SockAddr"

inductive ps_table :: "string \<Rightarrow> string list \<Rightarrow> shim_args list \<Rightarrow> bool" for prog :: string where
  ps_end: "ps_table prog [] []"
| ps_other: "\<not> selected l \<Longrightarrow> ps_table prog ls ps \<Longrightarrow> ps_table prog (l # ls) ps"
| ps_shim: "fields l = cols @ prog # docker_args proto host container \<Longrightarrow> length cols = 7 \<Longrightarrow>
    \<not> sublist ''dockerd'' l \<Longrightarrow> ps_table prog ls ps \<Longrightarrow>
    ps_table prog (l # ls) ((proto, host, container) # ps)"

definition shim_ok :: "shim_args \<Rightarrow> bool" where
  "shim_ok p \<longleftrightarrow>
     (case p of (proto, host, container) \<Rightarrow>
        plain_word proto \<and> length (IP host) \<in> {4, 16} \<and> length (IP container) \<in> {4, 16}
        \<and> int32_range (Port host) \<and> int32_range (Port container))"

text \<open>
  What is relied on of the shell: a line of plain words is a command; with the shim's program as its
  first word it is the shim's \<^const>\<open>main\<close> with the others as arguments, and the loop goes on when it
  has ended.
\<close>

definition runs_shim ::
  "(string \<Rightarrow> 'x world \<Rightarrow> 'x world) \<Rightarrow> string \<Rightarrow> ('x, 'conn) grpc \<Rightarrow> 'x discoverer
   \<Rightarrow> (SockAddr \<Rightarrow> goerror + SockAddr) \<Rightarrow> bool" where
  "runs_shim eval prog G dockerClient listen \<longleftrightarrow>
     plain_word prog \<and> sublist ''envoy-docker-shim'' prog
     \<and> (\<forall>args w. list_all plain_word args \<longrightarrow>
          eval (join '' '' (prog # args)) w = snd (snd (main G dockerClient listen args w)))"

text \<open>The command line of a shim, run again.\<close>

definition resync_line :: "string \<Rightarrow> shim_args \<Rightarrow> string" where
  "resync_line prog p =
     (case p of (proto, host, container) \<Rightarrow> join '' '' (prog # resync_args proto host container))"

lemma plain_resync_args:
  "shim_ok (proto, host, container) \<Longrightarrow> list_all plain_word (resync_args proto host container)"
  by (simp add: shim_ok_def resync_args_def docker_args_def plain_flags plain_IP_String plain_fmt_d)

lemma join_snoc: "xs \<noteq> [] \<Longrightarrow> join sep (xs @ [x]) = join sep xs @ sep @ x"
proof (induction xs)
  case (Cons y ys)
  then show ?case by (cases "ys = []") (simp_all add: join_Cons)
qed simp

lemma awk_print_shim:
  assumes "fields l = cols @ prog # docker_args proto host container" and "length cols = 7"
  shows "trim (awk_print l) @ '' -reload'' = resync_line prog (proto, host, container)"
proof -
  let ?fs = "prog # docker_args proto host container"
  have "drop 7 (fields l) = ?fs" using assms by simp
  moreover have "\<forall>f \<in> set ?fs. word f" using word_fields [of _ l] assms(1) by simp
  ultimately have "trim (awk_print l) = join '' '' ?fs"
    unfolding awk_print_def by (metis trim_words)
  then show ?thesis
    using join_snoc [of "prog # docker_args proto host container" "'' ''" "''-reload''"]
    by (simp add: resync_line_def resync_args_def)
qed

lemma selected_shim:
  assumes "fields l = cols @ prog # args" and "sublist ''envoy-docker-shim'' prog" and "\<not> sublist ''dockerd'' l"
  shows "selected l"
proof -
  have "sublist prog l" using assms(1) by (intro sublist_fields) simp
  then show ?thesis using assms(2,3) sublist_order.order.trans unfolding selected_def by blast
qed

text \<open>The script runs exactly the shims of the table, one after the other.\<close>

lemma resync_table:
  assumes "ps_table prog ls ps" and "sublist ''envoy-docker-shim'' prog"
  shows "resync eval ls w =
    (map (\<lambda>p. ''+ '' @ resync_line prog p) ps, fold (\<lambda>p. eval (resync_line prog p)) ps w)"
  using assms
proof (induction arbitrary: w rule: ps_table.induct)
  case (ps_shim l cols proto host container ls ps)
  then show ?case
    using selected_shim [OF ps_shim.hyps(1)] by (simp add: resync_def awk_print_shim Let_def)
qed (simp_all add: resync_def)

section \<open>Running it\<close>

lemma main_resync_other:
  assumes "shim_ok (proto, host, container)" and "proto \<noteq> ''tcp''"
  shows "snd (snd (main G dockerClient listen (resync_args proto host container) w)) = w"
proof (cases "proto = ''udp''")
  case True
  have "ip_wf host" "ip_wf container" using assms(1) by (auto simp: shim_ok_def ip_wf_def)
  then show ?thesis
    by (simp add: True main_def main_start_def parseCLI_docker NewEnvoyProxy_def assert_TCPAddr_def)
next
  case False
  with assms(2) have "parseCLI (resync_args proto host container) = Exits 1"
    by (simp add: parseCLI_def resync_args_def parse_docker_flags parse_reload Let_def)
  then show ?thesis by (simp add: main_def main_start_def)
qed

text \<open>The names and entries that the TCP shims of a table stand for.\<close>

definition published :: "(int64 \<Rightarrow> DockerSettings) \<Rightarrow> shim_args list \<Rightarrow> (string \<times> Entry) list" where
  "published labels ps =
     concat (map (\<lambda>(proto, host, container).
       if proto = ''tcp'' then
         let e = shim_backend host container (labels (Port host)) in [(SvcName e, e)]
       else []) ps)"

lemma published_Cons:
  "published labels ((proto, host, container) # ps) =
     (if proto = ''tcp'' then
        let e = shim_backend host container (labels (Port host)) in [(SvcName e, e)]
      else []) @ published labels ps"
  by (simp add: published_def)

text \<open>One command of the script.\<close>

lemma resync_command:
  assumes "shim_world G dockerClient labels view put" and "runs_shim eval prog G dockerClient listen"
    and "shim_ok p"
  shows "\<exists>x'. eval (resync_line prog p) w = w\<lparr>outside := x'\<rparr>
    \<and> GetEntry (view x') = GetEntry (view (outside w)) ++ map_of (published labels [p])"
proof (cases p)
  case (fields proto host container)
  have run: "eval (resync_line prog p) w = snd (snd (main G dockerClient listen (resync_args proto host container) w))"
    using assms(2) plain_resync_args assms(3) unfolding runs_shim_def resync_line_def fields by simp
  have wf: "ip_wf host" "ip_wf container" "int32_range (Port host)" "int32_range (Port container)"
    using assms(3) by (auto simp: fields shim_ok_def ip_wf_def)
  show ?thesis
  proof (cases "proto = ''tcp''")
    case True
    with run resync_restores [OF assms(1) wf, of listen w] show ?thesis
      by (auto simp: published_def fields Let_def)
  next
    case False
    with run main_resync_other [of proto host container G dockerClient listen w] assms(3) show ?thesis
      by (intro exI [of _ "outside w"]) (simp add: published_def fields)
  qed
qed

lemma resync_commands:
  assumes "shim_world G dockerClient labels view put" and "runs_shim eval prog G dockerClient listen"
    and "list_all shim_ok ps"
  shows "\<exists>x'. fold (\<lambda>p. eval (resync_line prog p)) ps w = w\<lparr>outside := x'\<rparr>
    \<and> GetEntry (view x') = GetEntry (view (outside w)) ++ map_of (rev (published labels ps))"
  using assms(3)
proof (induction ps arbitrary: w)
  case Nil
  then show ?case by (intro exI [of _ "outside w"]) (simp add: published_def)
next
  case (Cons p ps)
  obtain x1 where x1: "eval (resync_line prog p) w = w\<lparr>outside := x1\<rparr>"
      "GetEntry (view x1) = GetEntry (view (outside w)) ++ map_of (published labels [p])"
    using resync_command [OF assms(1,2), of p w] Cons.prems by auto
  obtain x2 where x2: "fold (\<lambda>p. eval (resync_line prog p)) ps (w\<lparr>outside := x1\<rparr>) = w\<lparr>outside := x2\<rparr>"
      "GetEntry (view x2) = GetEntry (view x1) ++ map_of (rev (published labels ps))"
    using Cons.IH [of "w\<lparr>outside := x1\<rparr>"] Cons.prems by auto
  have "rev (published labels (p # ps)) = rev (published labels ps) @ published labels [p]"
    by (cases p) (simp add: published_def Let_def)
  then show ?case using x1 x2 by (intro exI [of _ x2]) (simp add: map_add_assoc)
qed

section \<open>Properties\<close>

text \<open>
  C5: The script brings a server up to date. Run on a process table in a world that works, it echoes and
  runs exactly the shims' command lines with the flag appended, in the order of the table; afterwards
  the registrar has, besides what it had, exactly the entries of the TCP shims of the table (of two
  with the same name the later one); the commands for other ports change nothing, and nothing sleeps.
\<close>

theorem resync_rebuilds:
  assumes "shim_world G dockerClient labels view put" and "runs_shim eval prog G dockerClient listen"
    and "ps_table prog ls ps" and "list_all shim_ok ps"
  shows "\<exists>x'. resync eval ls w = (map (\<lambda>p. ''+ '' @ resync_line prog p) ps, w\<lparr>outside := x'\<rparr>)
    \<and> GetEntry (view x') = GetEntry (view (outside w)) ++ map_of (rev (published labels ps))"
  using resync_table [OF assms(3), of eval w] resync_commands [OF assms(1,2,4), of w] assms(2)
  unfolding runs_shim_def by auto

definition demo_row :: string where
  "demo_row = join '' '' ([''root'', ''77'', ''1'', ''0'', ''10:00'', ''?'', ''00:00:00'']
     @ ''/usr/bin/envoy-docker-shim'' # docker_args ''tcp'' sample_host sample_container)"

definition demo_dockerd :: string where
  "demo_dockerd = ''root 1 0 0 10:00 ? 00:00:01 dockerd --userland-proxy-path=/usr/bin/envoy-docker-shim''"

definition demo_eval :: "string \<Rightarrow> Registrar world \<Rightarrow> Registrar world" where
  "demo_eval line w = snd (snd (main demo_grpc (\<lambda>port x. (Inr demo_settings, x)) Inr (tl (fields line)) w))"

lemma demo_runs:
  "runs_shim demo_eval ''/usr/bin/envoy-docker-shim'' demo_grpc (\<lambda>port x. (Inr demo_settings, x)) Inr"
proof -
  have prog: "plain_word ''/usr/bin/envoy-docker-shim''" by code_simp
  moreover have "sublist ''envoy-docker-shim'' ''/usr/bin/envoy-docker-shim''" by code_simp
  moreover have "fields (join '' '' (''/usr/bin/envoy-docker-shim'' # args)) = ''/usr/bin/envoy-docker-shim'' # args"
    if "list_all plain_word args" for args
    using that prog by (intro fields_words) (auto simp: plain_word list_all_iff)
  ultimately show ?thesis by (simp add: runs_shim_def demo_eval_def)
qed

lemma sample_shim_ok: "shim_ok (''tcp'', sample_host, sample_container)"
proof -
  have "plain_word ''tcp''" by code_simp
  then show ?thesis
    using sample_ports by (simp add: shim_ok_def) (simp add: sample_host_def sample_container_def)
qed

lemma demo_args: "docker_args ''tcp'' sample_host sample_container =
    [''-proto'', ''tcp'', ''-host-ip'', ''0.0.0.0'', ''-host-port'', ''32768'',
     ''-container-ip'', ''172.17.0.2'', ''-container-port'', ''80'']"
  by (simp add: docker_args_def sample_host_def sample_container_def IP_String_def dotted_def To4_def fmt_d_def)
    (simp add: nat_str.simps digit_char_def)

lemma demo_row_text: "demo_row = ''root 77 1 0 10:00 ? 00:00:00 /usr/bin/envoy-docker-shim -proto tcp -host-ip 0.0.0.0 -host-port 32768 -container-ip 172.17.0.2 -container-port 80''"
  unfolding demo_row_def demo_args by code_simp

lemma demo_table:
  "ps_table ''/usr/bin/envoy-docker-shim'' [demo_dockerd, demo_row] [(''tcp'', sample_host, sample_container)]"
proof (rule ps_other [OF _ ps_shim [where cols = "[''root'', ''77'', ''1'', ''0'', ''10:00'', ''?'', ''00:00:00'']", OF _ _ _ ps_end]])
  show "\<not> selected demo_dockerd" by code_simp
  show "\<not> sublist ''dockerd'' demo_row" unfolding demo_row_text by code_simp
  have "list_all plain_word (docker_args ''tcp'' sample_host sample_container)"
    using plain_resync_args [OF sample_shim_ok] by (simp add: resync_args_def)
  moreover have "list_all word [''root'', ''77'', ''1'', ''0'', ''10:00'', ''?'', ''00:00:00'', ''/usr/bin/envoy-docker-shim'']"
    by code_simp
  ultimately show "fields demo_row = [''root'', ''77'', ''1'', ''0'', ''10:00'', ''?'', ''00:00:00'']
      @ ''/usr/bin/envoy-docker-shim'' # docker_args ''tcp'' sample_host sample_container"
    unfolding demo_row_def by (intro fields_words) (auto simp: plain_word list_all_iff)
qed simp

lemma resync_rebuilds_witness:
  "\<exists>x'. snd (resync demo_eval [demo_dockerd, demo_row] \<lparr>outside = NewRegistrar, slept = []\<rparr>) = \<lparr>outside = x', slept = []\<rparr>
    \<and> GetEntry x' = [SvcName (shim_backend sample_host sample_container demo_settings)
        \<mapsto> shim_backend sample_host sample_container demo_settings]"
proof -
  have "GetEntry NewRegistrar = Map.empty" by (simp add: fun_eq_iff GetEntry_def NewRegistrar_def)
  then obtain x' where "resync demo_eval [demo_dockerd, demo_row] \<lparr>outside = NewRegistrar, slept = []\<rparr> =
      ([''+ '' @ resync_line ''/usr/bin/envoy-docker-shim'' (''tcp'', sample_host, sample_container)],
       \<lparr>outside = x', slept = []\<rparr>)"
    "GetEntry x' = [SvcName (shim_backend sample_host sample_container demo_settings)
        \<mapsto> shim_backend sample_host sample_container demo_settings]"
    using resync_rebuilds [OF demo_world demo_runs demo_table, of "\<lparr>outside = NewRegistrar, slept = []\<rparr>"]
      sample_shim_ok by (auto simp: published_def Let_def)
  then show ?thesis by simp
qed

text \<open>
  A row is selected by its text, whatever the program: the command line of an editor with the shim's
  source open is run again too.
\<close>

lemma editor_selected:
  "fst (resync (\<lambda>line w. w) [''root 99 1 0 10:00 pts/0 00:00:00 vi envoy-docker-shim.go''] ()) =
     [''+ vi envoy-docker-shim.go -reload'']"
  by code_simp

end
