(* ===== verification/ShimSignals.thy ===== *)
theory ShimSignals
  imports ShimWorld
begin

text \<open>
  The two goroutines of a TCP shim, \<open>Run\<close> and \<open>handleStopSignals\<close> (\<open>cmd/envoy-docker-shim/main.go\<close> and
  \<open>envoy_proxy.go\<close>), interleaved with each other, with other shims, and with the server. Every attempt
  dials a connection of its own, so that the server may serve requests in another order than they
  were sent in, and may serve a request whose sender has given up or ended. \<open>EnvoyProxy\<close> has the same
  functions undisturbed, with an attempt as one operation.
\<close>

section \<open>State\<close>

text \<open>
  Where a goroutine is in \<open>withRetries\<close>: before an attempt, whose pause is the first of the list;
  waiting for the reply to a call; in the pause after a failure; or the loop is over.
\<close>

datatype tries =
  Trying "int64 list"
| Calling "int64 list" nat
| Pausing "int64 list" goerror
| Succeeded
| GaveUp goerror

text \<open>
  The server, the requests on their way to it, the calls that it has replied to, and those that have
  failed: refused by the server, or their connection is broken.
\<close>

record net =
  n_registrar :: Registrar
  n_wire :: "nat \<rightharpoonup> RegistrarRequest"
  n_replied :: "nat set"
  n_failed :: "nat set"
  n_next :: nat

datatype run_pc = Run_Sleep | Run_Tries tries

datatype stop_pc = Stop_Wait | Stop_Tries tries

record 'x shim =
  sh_proxy :: "'x EnvoyProxy"
  sh_run :: run_pc
  sh_stop :: stop_pc
  sh_end :: "unit outcome option"

record 'x sys =
  s_net :: net
  s_shims :: "nat \<rightharpoonup> 'x shim"

section \<open>Steps\<close>

text \<open>
  What Docker says of a port: the labels of its container, or nothing. A look-up can fail in any case
  (it has a deadline), as can dialling, which does not wait. A call has no deadline
  (\<open>context.Background()\<close>): it comes back when the server has replied to it, or when it has failed, and
  waits for as long as neither is the case.
\<close>

type_synonym labels = "int64 \<rightharpoonup> DockerSettings"

definition action_request :: "'x EnvoyProxy \<Rightarrow> DockerSettings \<Rightarrow> RegistrarRequest_Action \<Rightarrow> RegistrarRequest" where
  "action_request p settings action = (RequestWithSettings p settings)\<lparr>req_Action := action\<rparr>"

inductive try_step ::
  "labels \<Rightarrow> 'x EnvoyProxy \<Rightarrow> RegistrarRequest_Action \<Rightarrow> tries \<times> net \<Rightarrow> tries \<times> net \<Rightarrow> bool"
  for labels p action where
  try_no_call: "try_step labels p action (Trying (m # rs), n) (Pausing rs err, n)"
| try_call: "labels (Port (px_frontendAddr p)) = Some settings \<Longrightarrow>
    try_step labels p action (Trying (m # rs), n)
      (Calling rs (n_next n),
       n\<lparr>n_wire := (n_wire n)(n_next n \<mapsto> action_request p settings action), n_next := Suc (n_next n)\<rparr>)"
| try_ok: "i \<in> n_replied n \<Longrightarrow> try_step labels p action (Calling rs i, n) (Succeeded, n)"
| try_error: "i \<in> n_failed n \<Longrightarrow> try_step labels p action (Calling rs i, n) (Pausing rs err, n)"
| try_again: "rs \<noteq> [] \<Longrightarrow> try_step labels p action (Pausing rs err, n) (Trying rs, n)"
| try_over: "try_step labels p action (Pausing [] err, n) (GaveUp err, n)"

inductive shim_step :: "labels \<Rightarrow> 'x shim \<times> net \<Rightarrow> 'x shim \<times> net \<Rightarrow> bool" for labels where
  sh_awake: "sh_end sh = None \<Longrightarrow> sh_run sh = Run_Sleep \<Longrightarrow>
    shim_step labels (sh, n) (sh\<lparr>sh_run := Run_Tries (Trying (px_Retries (sh_proxy sh)))\<rparr>, n)"
| sh_register: "sh_end sh = None \<Longrightarrow> sh_run sh = Run_Tries t \<Longrightarrow>
    try_step labels (sh_proxy sh) RegistrarRequest_REGISTER (t, n) (t', n') \<Longrightarrow>
    shim_step labels (sh, n) (sh\<lparr>sh_run := Run_Tries t'\<rparr>, n')"
| sh_reloaded: "sh_end sh = None \<Longrightarrow> sh_run sh = Run_Tries Succeeded \<Longrightarrow> px_Reload (sh_proxy sh) \<Longrightarrow>
    shim_step labels (sh, n) (sh\<lparr>sh_end := Some (Returns ())\<rparr>, n)"
| sh_panics: "sh_end sh = None \<Longrightarrow> sh_run sh = Run_Tries (GaveUp err) \<Longrightarrow> px_Reload (sh_proxy sh) \<Longrightarrow>
    shim_step labels (sh, n) (sh\<lparr>sh_end := Some (Panics (''Could not call Envoy: '' @ err))\<rparr>, n)"
| sh_signal: "sh_end sh = None \<Longrightarrow> sh_stop sh = Stop_Wait \<Longrightarrow> \<not> px_Reload (sh_proxy sh) \<Longrightarrow>
    shim_step labels (sh, n) (sh\<lparr>sh_stop := Stop_Tries (Trying (px_Retries (sh_proxy sh)))\<rparr>, n)"
| sh_deregister: "sh_end sh = None \<Longrightarrow> sh_stop sh = Stop_Tries t \<Longrightarrow>
    try_step labels (sh_proxy sh) RegistrarRequest_DEREGISTER (t, n) (t', n') \<Longrightarrow>
    shim_step labels (sh, n) (sh\<lparr>sh_stop := Stop_Tries t'\<rparr>, n')"
| sh_exit: "sh_end sh = None \<Longrightarrow> sh_stop sh = Stop_Tries Succeeded \<Longrightarrow>
    shim_step labels (sh, n) (sh\<lparr>sh_end := Some (Exits 0)\<rparr>, n)"
| sh_fatal: "sh_end sh = None \<Longrightarrow> sh_stop sh = Stop_Tries (GaveUp err) \<Longrightarrow>
    shim_step labels (sh, n) (sh\<lparr>sh_end := Some (Exits 1)\<rparr>, n)"
| sh_killed: "sh_end sh = None \<Longrightarrow> shim_step labels (sh, n) (sh\<lparr>sh_end := Some (Exits 137)\<rparr>, n)"

text \<open>
  The server serves a request, in its method handler, or refuses it; a connection breaks, with its
  request lost or still to be served, or with the reply lost; the server is restarted, which
  breaks all connections. A server that hangs takes no step.
\<close>

inductive net_step :: "net \<Rightarrow> net \<Rightarrow> bool" where
  net_serve: "n_wire n i = Some req \<Longrightarrow> Register req (n_registrar n) = ((reply, None), r) \<Longrightarrow>
    net_step n (n\<lparr>n_registrar := r, n_wire := (n_wire n)(i := None), n_replied := insert i (n_replied n)\<rparr>)"
| net_refuse: "n_wire n i = Some req \<Longrightarrow> Register req (n_registrar n) = ((reply, Some err), r) \<Longrightarrow>
    net_step n (n\<lparr>n_registrar := r, n_wire := (n_wire n)(i := None), n_failed := insert i (n_failed n)\<rparr>)"
| net_lose: "i < n_next n \<Longrightarrow>
    net_step n (n\<lparr>n_wire := (n_wire n)(i := None), n_failed := insert i (n_failed n)\<rparr>)"
| net_break: "i < n_next n \<Longrightarrow> net_step n (n\<lparr>n_failed := insert i (n_failed n)\<rparr>)"
| net_restart: "net_step n (n\<lparr>n_registrar := NewRegistrar, n_wire := Map.empty, n_failed := {..<n_next n}\<rparr>)"

text \<open>A shim is started on a command line for a TCP port, by Docker or by the resynchronisation.\<close>

definition new_shim :: "'x EnvoyProxy \<Rightarrow> 'x shim" where
  "new_shim p =
     \<lparr>sh_proxy = p,
      sh_run = (if px_Reload p then Run_Tries (Trying (px_Retries p)) else Run_Sleep),
      sh_stop = Stop_Wait, sh_end = None\<rparr>"

inductive sys_step :: "labels \<Rightarrow> 'x sys \<Rightarrow> 'x sys \<Rightarrow> bool" for labels where
  sys_start: "s_shims s pid = None \<Longrightarrow> main_start dockerClient listen args = (Returns (Envoy p), out) \<Longrightarrow>
    sys_step labels s (s\<lparr>s_shims := (s_shims s)(pid \<mapsto> new_shim p)\<rparr>)"
| sys_shim: "s_shims s pid = Some sh \<Longrightarrow> shim_step labels (sh, s_net s) (sh', n') \<Longrightarrow>
    sys_step labels s (s\<lparr>s_shims := (s_shims s)(pid \<mapsto> sh'), s_net := n'\<rparr>)"
| sys_net: "net_step (s_net s) n' \<Longrightarrow> sys_step labels s (s\<lparr>s_net := n'\<rparr>)"

inductive_cases try_stepE: "try_step labels p action (t, n) (t', n')"
inductive_cases shim_stepE: "shim_step labels (sh, n) (sh', n')"
inductive_cases net_stepE: "net_step n n'"
inductive_cases sys_stepE: "sys_step labels s s'"

definition sys_init :: "'x sys" where
  "sys_init = \<lparr>s_net = \<lparr>n_registrar = NewRegistrar, n_wire = Map.empty, n_replied = {}, n_failed = {}, n_next = 0\<rparr>,
     s_shims = Map.empty\<rparr>"

text \<open>The labels may change from step to step.\<close>

inductive sys_reachable :: "'x sys \<Rightarrow> bool" where
  init: "sys_reachable sys_init"
| step: "sys_reachable s \<Longrightarrow> sys_step labels s t \<Longrightarrow> sys_reachable t"

section \<open>Requests\<close>

text \<open>The name under which a shim's requests are filed, whatever their action.\<close>

definition shim_name :: "'x EnvoyProxy \<Rightarrow> DockerSettings \<Rightarrow> string" where
  "shim_name p settings = request_name (RequestWithSettings p settings)"

lemma action_request_name [simp]: "request_name (action_request p settings action) = shim_name p settings"
  unfolding shim_name_def action_request_def by (rule request_name_cong) simp_all

lemma action_request_kind [simp]:
  "is_register (action_request p settings action) \<longleftrightarrow> action = RegistrarRequest_REGISTER"
  "is_deregister (action_request p settings action) \<longleftrightarrow> action = RegistrarRequest_DEREGISTER"
  by (simp_all add: action_request_def is_register_def is_deregister_def)

lemma RegistrarRequest_actions [simp]: "RegistrarRequest_DEREGISTER \<noteq> RegistrarRequest_REGISTER"
  by (simp add: RegistrarRequest_DEREGISTER_def RegistrarRequest_REGISTER_def)

text \<open>All that a goroutine does to the net is to send requests of its own under new numbers.\<close>

definition sends :: "labels \<Rightarrow> 'x EnvoyProxy \<Rightarrow> RegistrarRequest_Action \<Rightarrow> net \<Rightarrow> net \<Rightarrow> bool" where
  "sends labels p action n n' \<longleftrightarrow> n' = n \<or>
     (\<exists>settings. labels (Port (px_frontendAddr p)) = Some settings
        \<and> n' = n\<lparr>n_wire := (n_wire n)(n_next n \<mapsto> action_request p settings action), n_next := Suc (n_next n)\<rparr>)"

lemma try_step_sends: "try_step labels p action (t, n) (t', n') \<Longrightarrow> sends labels p action n n'"
  by (auto simp: sends_def elim: try_stepE)

lemma shim_step_sends:
  "shim_step labels (sh, n) (sh', n') \<Longrightarrow>
     sh_proxy sh' = sh_proxy sh \<and> (\<exists>action. sends labels (sh_proxy sh) action n n')"
  by (erule shim_stepE) (auto simp: sends_def dest: try_step_sends [unfolded sends_def])

text \<open>A shim stays in the table, with its proxy.\<close>

lemma sys_step_keeps:
  "sys_step labels s t \<Longrightarrow> s_shims s pid = Some sh \<Longrightarrow>
     \<exists>sh'. s_shims t pid = Some sh' \<and> sh_proxy sh' = sh_proxy sh"
  by (erule sys_stepE) (auto dest: shim_step_sends)

lemma sys_steps_keep:
  "(sys_step labels)\<^sup>*\<^sup>* s t \<Longrightarrow> s_shims s pid = Some sh \<Longrightarrow>
     \<exists>sh'. s_shims t pid = Some sh' \<and> sh_proxy sh' = sh_proxy sh"
proof (induction rule: rtranclp_induct)
  case (step t u)
  then obtain sh1 where "s_shims t pid = Some sh1" "sh_proxy sh1 = sh_proxy sh" by blast
  with sys_step_keeps [OF step.hyps(2)] show ?case by fastforce
qed simp

section \<open>The numbers of calls\<close>

definition net_inv :: "net \<Rightarrow> bool" where
  "net_inv n \<longleftrightarrow> dom (n_wire n) \<subseteq> {..<n_next n} \<and> n_replied n \<subseteq> {..<n_next n} \<and> n_failed n \<subseteq> {..<n_next n}"

lemma net_inv_sends: "net_inv n \<Longrightarrow> sends labels p action n n' \<Longrightarrow> net_inv n'"
  by (fastforce simp: net_inv_def sends_def dom_def subset_iff less_Suc_eq split: if_splits)

lemma net_inv_step: "net_step n n' \<Longrightarrow> net_inv n \<Longrightarrow> net_inv n'"
  by (erule net_stepE) (auto simp: net_inv_def)

lemma net_inv_sys: "sys_step labels s t \<Longrightarrow> net_inv (s_net s) \<Longrightarrow> net_inv (s_net t)"
  by (erule sys_stepE) (auto dest!: shim_step_sends dest: net_inv_sends net_inv_step)

lemma net_inv_reachable: "sys_reachable s \<Longrightarrow> net_inv (s_net s)"
  by (induction rule: sys_reachable.induct) (simp add: sys_init_def net_inv_def, rule net_inv_sys)

section \<open>A shim that stops after its registration is over\<close>

definition run_over :: "run_pc \<Rightarrow> bool" where
  "run_over pc \<longleftrightarrow> pc = Run_Tries Succeeded \<or> (\<exists>err. pc = Run_Tries (GaveUp err))"

lemma run_over_no_try: "run_over (Run_Tries t) \<Longrightarrow> \<not> try_step labels p action (t, n) (t', n')"
  by (auto simp: run_over_def elim: try_stepE)

definition absent :: "string \<Rightarrow> net \<Rightarrow> bool" where
  "absent name n \<longleftrightarrow> GetEntry (n_registrar n) name = None"

text \<open>No request to register the name is on its way.\<close>

definition no_register :: "string \<Rightarrow> net \<Rightarrow> bool" where
  "no_register name n \<longleftrightarrow> (\<forall>i req. n_wire n i = Some req \<and> is_register req \<longrightarrow> request_name req \<noteq> name)"

text \<open>What the stop goroutine knows: once its call has been replied to, the entry is gone.\<close>

fun stop_knows :: "string \<Rightarrow> stop_pc \<Rightarrow> net \<Rightarrow> bool" where
  "stop_knows name (Stop_Tries (Calling rs i)) n =
     (i < n_next n \<and> (i \<in> n_replied n \<longrightarrow> absent name n)
      \<and> (\<forall>req. n_wire n i = Some req \<longrightarrow> is_deregister req \<and> request_name req = name))"
| "stop_knows name (Stop_Tries Succeeded) n = absent name n"
| "stop_knows name pc n = True"

definition stop_inv :: "string \<Rightarrow> 'x shim \<Rightarrow> net \<Rightarrow> bool" where
  "stop_inv name sh n \<longleftrightarrow>
     run_over (sh_run sh) \<and> stop_knows name (sh_stop sh) n \<and> (sh_end sh = Some (Exits 0) \<longrightarrow> absent name n)"

lemma no_register_sends:
  assumes "no_register name n" and "sends labels p action n n'"
    and "action = RegistrarRequest_REGISTER \<Longrightarrow>
      \<forall>settings. labels (Port (px_frontendAddr p)) = Some settings \<longrightarrow> shim_name p settings \<noteq> name"
  shows "no_register name n'"
  unfolding no_register_def
proof (intro allI impI)
  fix i req assume req: "n_wire n' i = Some req \<and> is_register req"
  show "request_name req \<noteq> name"
  proof (cases "n_wire n i = Some req")
    case True
    with req assms(1) show ?thesis unfolding no_register_def by blast
  next
    case False
    with req assms(2,3) show ?thesis by (auto simp: sends_def split: if_splits)
  qed
qed

lemma absent_sends: "sends labels p action n n' \<Longrightarrow> absent name n' = absent name n"
  by (auto simp: sends_def absent_def)

lemma stop_knows_sends:
  assumes "sends labels p action n n'" and "stop_knows name pc n"
  shows "stop_knows name pc n'"
  using assms by (cases "(name, pc, n)" rule: stop_knows.cases) (auto simp: sends_def absent_def)

lemma stop_inv_sends: "sends labels p action n n' \<Longrightarrow> stop_inv name sh n \<Longrightarrow> stop_inv name sh n'"
  by (simp add: stop_inv_def stop_knows_sends absent_sends)

text \<open>The server never brings the name back.\<close>

lemma GetEntry_Register:
  "Register req r = (reply, r') \<Longrightarrow>
     GetEntry r' name = (if is_register req \<and> request_name req = name then Some (RequestToEntry req)
       else if is_deregister req \<and> request_name req = name then None else GetEntry r name)"
  using registrar.lookup_register [of req r name] registrar.lookup_deregister [of req r name]
    registrar.other_rejected [of req r] register_not_deregister [of req]
  by (cases "is_register req"; cases "is_deregister req") auto

lemma no_register_net: "net_step n n' \<Longrightarrow> no_register name n \<Longrightarrow> no_register name n'"
  by (erule net_stepE) (auto simp: no_register_def split: if_splits)

lemma absent_net: "net_step n n' \<Longrightarrow> no_register name n \<Longrightarrow> absent name n \<Longrightarrow> absent name n'"
  by (erule net_stepE) (auto simp: no_register_def absent_def GetEntry_Register, simp add: GetEntry_def NewRegistrar_def)

lemma stop_knows_net:
  assumes "net_step n n'" and "no_register name n" and "stop_knows name pc n"
  shows "stop_knows name pc n'"
  using assms(1)
proof cases
  case (net_serve i req reply r)
  then show ?thesis
    using assms(2,3) absent_net [OF assms(1,2)]
    by (cases "(name, pc, n)" rule: stop_knows.cases)
      (auto simp: absent_def GetEntry_Register dest: register_not_deregister)
qed (use assms(2,3) absent_net [OF assms(1,2)] in
    \<open>cases "(name, pc, n)" rule: stop_knows.cases; auto simp: absent_def\<close>)+

lemma stop_inv_net: "net_step n n' \<Longrightarrow> no_register name n \<Longrightarrow> stop_inv name sh n \<Longrightarrow> stop_inv name sh n'"
  by (auto simp: stop_inv_def intro: stop_knows_net absent_net)

lemma stop_inv_own:
  assumes "shim_step labels (sh, n) (sh', n')" and "stop_inv name sh n" and "net_inv n"
    and "labels (Port (px_frontendAddr (sh_proxy sh))) = Some settings" and "shim_name (sh_proxy sh) settings = name"
  shows "stop_inv name sh' n'" and "no_register name n \<Longrightarrow> no_register name n'"
proof -
  have over: "run_over (sh_run sh)" using assms(2) by (simp add: stop_inv_def)
  have new: "n_next n \<notin> n_replied n" using assms(3) by (auto simp: net_inv_def)
  have "stop_inv name sh' n' \<and> (no_register name n \<longrightarrow> no_register name n')"
    using assms(1)
  proof cases
    case (sh_register t t')
    then show ?thesis using over run_over_no_try by metis
  next
    case (sh_deregister t t')
    from sh_deregister(4) have "stop_knows name (Stop_Tries t') n' \<and> (no_register name n \<longrightarrow> no_register name n')
        \<and> absent name n' = absent name n"
    proof cases
      case (try_call settings' m rs)
      with assms(4,5) new show ?thesis by (simp add: absent_def no_register_def) blast
    next
      case (try_ok i rs)
      with assms(2) sh_deregister(3) show ?thesis by (simp add: stop_inv_def)
    qed simp_all
    with sh_deregister assms(2) show ?thesis by (simp add: stop_inv_def)
  qed (use assms(2) over in \<open>simp_all add: stop_inv_def run_over_def\<close>)
  then show "stop_inv name sh' n'" and "no_register name n \<Longrightarrow> no_register name n'" by simp_all
qed

text \<open>No other shim registers the name.\<close>

definition only_shim :: "labels \<Rightarrow> 'x sys \<Rightarrow> nat \<Rightarrow> string \<Rightarrow> bool" where
  "only_shim labels s pid name \<longleftrightarrow>
     (\<forall>q sh settings. s_shims s q = Some sh \<and> q \<noteq> pid
        \<and> labels (Port (px_frontendAddr (sh_proxy sh))) = Some settings
        \<longrightarrow> shim_name (sh_proxy sh) settings \<noteq> name)"

lemma only_shim_step:
  assumes "sys_step labels s t" and "only_shim labels t pid name"
  shows "only_shim labels s pid name"
  unfolding only_shim_def
proof (intro allI impI, elim conjE)
  fix q sh settings
  assume sh: "s_shims s q = Some sh" "q \<noteq> pid" "labels (Port (px_frontendAddr (sh_proxy sh))) = Some settings"
  obtain sh' where sh': "s_shims t q = Some sh'" "sh_proxy sh' = sh_proxy sh"
    using sys_step_keeps [OF assms(1) sh(1)] by blast
  have "shim_name (sh_proxy sh') settings \<noteq> name"
    using assms(2) sh'(1) sh(2,3) unfolding only_shim_def sh'(2) [symmetric] by blast
  then show "shim_name (sh_proxy sh) settings \<noteq> name" by (simp add: sh'(2))
qed

definition stopping_inv :: "labels \<Rightarrow> nat \<Rightarrow> 'x EnvoyProxy \<Rightarrow> string \<Rightarrow> 'x sys \<Rightarrow> bool" where
  "stopping_inv labels pid p name s \<longleftrightarrow>
     net_inv (s_net s) \<and> no_register name (s_net s)
     \<and> (\<exists>sh. s_shims s pid = Some sh \<and> sh_proxy sh = p \<and> stop_inv name sh (s_net s))"

lemma stopping_inv_step:
  assumes "sys_step labels s t" and "stopping_inv labels pid p name s" and "only_shim labels s pid name"
    and "labels (Port (px_frontendAddr p)) = Some settings" and "shim_name p settings = name"
  shows "stopping_inv labels pid p name t"
proof -
  have net: "net_inv (s_net t)"
    using assms(1,2) net_inv_sys by (auto simp: stopping_inv_def)
  obtain sh where sh: "s_shims s pid = Some sh" "sh_proxy sh = p" "stop_inv name sh (s_net s)"
      "no_register name (s_net s)" "net_inv (s_net s)"
    using assms(2) by (auto simp: stopping_inv_def)
  show ?thesis
    using assms(1)
  proof cases
    case (sys_start q dockerClient listen args p' out)
    with sh net show ?thesis by (auto simp: stopping_inv_def)
  next
    case (sys_shim q shq shq' n')
    show ?thesis
    proof (cases "q = pid")
      case True
      with sys_shim sh have step: "shim_step labels (sh, s_net s) (shq', n')" by simp
      from stop_inv_own [OF step sh(3,5)] shim_step_sends [OF step] sh(2,4) assms(4,5) net sys_shim True
      show ?thesis by (simp add: stopping_inv_def)
    next
      case False
      obtain action where sends: "sends labels (sh_proxy shq) action (s_net s) n'"
        using shim_step_sends [OF sys_shim(3)] by blast
      have "shim_name (sh_proxy shq) settings' \<noteq> name"
        if "labels (Port (px_frontendAddr (sh_proxy shq))) = Some settings'" for settings'
        using assms(3) sys_shim(2) False that by (auto simp: only_shim_def)
      with no_register_sends [OF sh(4) sends] have "no_register name n'" by blast
      with sends stop_inv_sends sh False sys_shim net show ?thesis
        by (auto simp: stopping_inv_def)
    qed
  next
    case (sys_net n')
    with sh net no_register_net stop_inv_net show ?thesis
      by (fastforce simp: stopping_inv_def)
  qed
qed

section \<open>Where entries come from\<close>

definition registered_for :: "'x sys \<Rightarrow> Entry \<Rightarrow> bool" where
  "registered_for s e \<longleftrightarrow>
     (\<exists>pid sh settings. s_shims s pid = Some sh \<and> e = RequestToEntry (RequestWithSettings (sh_proxy sh) settings))"

definition origin_inv :: "'x sys \<Rightarrow> bool" where
  "origin_inv s \<longleftrightarrow>
     (\<forall>i req. n_wire (s_net s) i = Some req \<longrightarrow> registered_for s (RequestToEntry req))
     \<and> (\<forall>name e. GetEntry (n_registrar (s_net s)) name = Some e \<longrightarrow> name = SvcName e \<and> registered_for s e)"

lemma registered_for_step: "sys_step labels s t \<Longrightarrow> registered_for s e \<Longrightarrow> registered_for t e"
  unfolding registered_for_def by (elim exE conjE) (drule (1) sys_step_keeps, metis)

lemma RequestToEntry_action: "RequestToEntry (action_request p settings action) = RequestToEntry (RequestWithSettings p settings)"
  by (simp add: RequestToEntry_def action_request_def)

lemma origin_inv_step:
  assumes "sys_step labels s t" and "origin_inv s"
  shows "origin_inv t"
proof -
  have wire: "registered_for t (RequestToEntry req)" if "n_wire (s_net s) i = Some req" for i req
    using assms(2) that registered_for_step [OF assms(1)] unfolding origin_inv_def by blast
  have entry: "name = SvcName e \<and> registered_for t e" if "GetEntry (n_registrar (s_net s)) name = Some e" for name e
    using assms(2) that registered_for_step [OF assms(1)] unfolding origin_inv_def by blast
  show ?thesis
    using assms(1)
  proof cases
    case (sys_start pid dockerClient listen args p out)
    with wire entry show ?thesis unfolding origin_inv_def by simp
  next
    case (sys_shim pid sh sh' n')
    obtain action where sends: "sends labels (sh_proxy sh) action (s_net s) n'" and p: "sh_proxy sh' = sh_proxy sh"
      using shim_step_sends [OF sys_shim(3)] by blast
    have "registered_for t (RequestToEntry (action_request (sh_proxy sh) settings action))" for settings
      unfolding RequestToEntry_action registered_for_def
      by (intro exI [of _ pid] exI [of _ sh'] exI [of _ settings]) (simp add: sys_shim(1) p)
    with sends wire entry show ?thesis
      unfolding origin_inv_def sends_def by (auto simp: sys_shim(1) split: if_splits)
  next
    case (sys_net n')
    have t: "s_net t = n'" by (simp add: sys_net(1))
    from sys_net(2) show ?thesis
      unfolding origin_inv_def t
    proof cases
      case (net_serve i req reply r)
      have "name = SvcName e \<and> registered_for t e" if "GetEntry r name = Some e" for name e
        using that entry wire [OF net_serve(2)] by (auto simp: GetEntry_Register [OF net_serve(3)] request_name_def split: if_splits)
      with wire show "(\<forall>i req. n_wire n' i = Some req \<longrightarrow> registered_for t (RequestToEntry req))
          \<and> (\<forall>name e. GetEntry (n_registrar n') name = Some e \<longrightarrow> name = SvcName e \<and> registered_for t e)"
        by (simp add: net_serve(1))
    next
      case (net_refuse i req reply err r)
      have "name = SvcName e \<and> registered_for t e" if "GetEntry r name = Some e" for name e
        using that entry wire [OF net_refuse(2)] by (auto simp: GetEntry_Register [OF net_refuse(3)] request_name_def split: if_splits)
      with wire show "(\<forall>i req. n_wire n' i = Some req \<longrightarrow> registered_for t (RequestToEntry req))
          \<and> (\<forall>name e. GetEntry (n_registrar n') name = Some e \<longrightarrow> name = SvcName e \<and> registered_for t e)"
        by (simp add: net_refuse(1))
    qed (use wire entry in \<open>simp_all add: GetEntry_def NewRegistrar_def\<close>)
  qed
qed

lemma origin_inv_reachable: "sys_reachable s \<Longrightarrow> origin_inv s"
proof (induction rule: sys_reachable.induct)
  case init
  then show ?case by (simp add: origin_inv_def sys_init_def GetEntry_def NewRegistrar_def)
next
  case (step s labels t)
  then show ?case using origin_inv_step by blast
qed

section \<open>A shim on its own\<close>

text \<open>
  A goroutine whose call is served and replied to at once, by the steps of one attempt. \<open>g\<close> is the
  shim with the goroutine at a given place.
\<close>

lemma undisturbed_call:
  assumes go: "\<And>t t' n n'. try_step labels p action (t, n) (t', n') \<Longrightarrow> shim_step labels (g t, n) (g t', n')"
    and s: "s_shims s pid = Some (g (Trying (m # rs)))" and labels: "labels (Port (px_frontendAddr p)) = Some settings"
    and action: "action \<in> {RegistrarRequest_REGISTER, RegistrarRequest_DEREGISTER}"
  shows "\<exists>t. (sys_step labels)\<^sup>*\<^sup>* s t \<and> s_shims t = (s_shims s)(pid \<mapsto> g Succeeded)
    \<and> n_registrar (s_net t) = snd (Register (action_request p settings action) (n_registrar (s_net s)))"
proof -
  let ?n = "s_net s" and ?i = "n_next (s_net s)" and ?req = "action_request p settings action"
  let ?n1 = "?n\<lparr>n_wire := (n_wire ?n)(?i \<mapsto> ?req), n_next := Suc ?i\<rparr>"
  let ?r = "snd (Register ?req (n_registrar ?n))"
  let ?n2 = "?n1\<lparr>n_registrar := ?r, n_wire := (n_wire ?n1)(?i := None), n_replied := insert ?i (n_replied ?n1)\<rparr>"
  let ?s1 = "s\<lparr>s_shims := (s_shims s)(pid \<mapsto> g (Calling rs ?i)), s_net := ?n1\<rparr>"
  let ?s3 = "(?s1\<lparr>s_net := ?n2\<rparr>)\<lparr>s_shims := (s_shims ?s1)(pid \<mapsto> g Succeeded), s_net := ?n2\<rparr>"
  have "Register ?req (n_registrar ?n1) = ((\<lparr>reply_StatusCode = 1\<rparr>, None), ?r)"
    using action Register_reply [of ?req "n_registrar ?n"] by (cases "Register ?req (n_registrar ?n)") auto
  then have served: "net_step ?n1 ?n2" using net_serve [of ?n1 ?i ?req] by simp
  have "sys_step labels s ?s1"
    by (rule sys_shim [OF s go [OF try_call [of labels p, OF labels]]])
  moreover have "sys_step labels ?s1 (?s1\<lparr>s_net := ?n2\<rparr>)"
    using sys_net [of ?s1 ?n2] served by simp
  moreover have "sys_step labels (?s1\<lparr>s_net := ?n2\<rparr>) ?s3"
    using sys_shim [of "?s1\<lparr>s_net := ?n2\<rparr>" pid _ labels "g Succeeded" ?n2] go [OF try_ok [of ?i ?n2]] by simp
  ultimately have "(sys_step labels)\<^sup>*\<^sup>* s ?s3"
    by (meson rtranclp.rtrancl_refl rtranclp.rtrancl_into_rtrancl)
  then show ?thesis by (intro exI [of _ ?s3]) simp
qed

lemma action_request_shim:
  assumes "ip_wf host" and "ip_wf container"
  shows "action_request (docker_proxy dockerClient host container reload) settings action =
    shim_request host container settings action"
  using assms by (simp add: action_request_def RequestWithSettings_def shim_request_def docker_proxy_def
      canonical_def ip_wf_def IP_String_To16)

text \<open>The shim after its registration, with its stop goroutine at a given place.\<close>

definition registered :: "'x EnvoyProxy \<Rightarrow> stop_pc \<Rightarrow> 'x shim" where
  "registered p stop = (new_shim p)\<lparr>sh_run := Run_Tries Succeeded, sh_stop := stop\<rparr>"

lemma undisturbed_run:
  assumes "s_shims s pid = Some (new_shim p)" and "\<not> px_Reload p" and "px_Retries p = m # rs"
    and "labels (Port (px_frontendAddr p)) = Some settings"
  shows "\<exists>t. (sys_step labels)\<^sup>*\<^sup>* s t \<and> s_shims t pid = Some (registered p Stop_Wait)
    \<and> n_registrar (s_net t) = snd (Register (action_request p settings RegistrarRequest_REGISTER) (n_registrar (s_net s)))"
proof -
  let ?run = "\<lambda>t. (new_shim p)\<lparr>sh_run := Run_Tries t\<rparr>"
  let ?s = "s\<lparr>s_shims := (s_shims s)(pid \<mapsto> ?run (Trying (m # rs))), s_net := s_net s\<rparr>"
  have new: "sh_proxy (new_shim p) = p" "sh_run (new_shim p) = Run_Sleep" "sh_end (new_shim p) = None"
      "?run Succeeded = registered p Stop_Wait"
    using assms(2) by (simp_all add: new_shim_def registered_def)
  have awake: "sys_step labels s ?s"
    using sys_shim [OF assms(1), of labels _ "s_net s"] sh_awake [of "new_shim p"] new assms(3) by auto
  obtain t where "(sys_step labels)\<^sup>*\<^sup>* ?s t" "s_shims t = (s_shims ?s)(pid \<mapsto> ?run Succeeded)"
      "n_registrar (s_net t) = snd (Register (action_request p settings RegistrarRequest_REGISTER) (n_registrar (s_net s)))"
    using undisturbed_call [of labels p RegistrarRequest_REGISTER ?run ?s pid m rs settings]
      sh_register [of "?run _"] new(1,3) assms(4) by auto
  with converse_rtranclp_into_rtranclp [of "sys_step labels", OF awake] new(4) show ?thesis
    by (intro exI [of _ t] conjI) auto
qed

lemma undisturbed_stop:
  assumes "s_shims s pid = Some (registered p Stop_Wait)" and "\<not> px_Reload p" and "px_Retries p = m # rs"
    and "labels (Port (px_frontendAddr p)) = Some settings"
  shows "\<exists>t. (sys_step labels)\<^sup>*\<^sup>* s t
    \<and> s_shims t pid = Some ((registered p (Stop_Tries Succeeded))\<lparr>sh_end := Some (Exits 0)\<rparr>)
    \<and> n_registrar (s_net t) = snd (Register (action_request p settings RegistrarRequest_DEREGISTER) (n_registrar (s_net s)))"
proof -
  let ?stop = "\<lambda>t. registered p (Stop_Tries t)" and ?n = "s_net s"
  let ?s = "s\<lparr>s_shims := (s_shims s)(pid \<mapsto> ?stop (Trying (m # rs))), s_net := ?n\<rparr>"
  have registered: "sh_proxy (registered p stop) = p" "sh_end (registered p stop) = None" "sh_stop (registered p stop) = stop"
      "(registered p stop)\<lparr>sh_stop := stop'\<rparr> = registered p stop'" for stop stop'
    by (simp_all add: registered_def new_shim_def)
  have signal: "sys_step labels s ?s"
    using sys_shim [OF assms(1), of labels _ ?n] sh_signal [of "registered p Stop_Wait" labels ?n] registered assms(2,3)
    by simp
  obtain t where t: "(sys_step labels)\<^sup>*\<^sup>* ?s t" "s_shims t = (s_shims ?s)(pid \<mapsto> ?stop Succeeded)"
      "n_registrar (s_net t) = snd (Register (action_request p settings RegistrarRequest_DEREGISTER) (n_registrar ?n))"
    using undisturbed_call [of labels p RegistrarRequest_DEREGISTER ?stop ?s pid m rs settings]
      sh_deregister [of "?stop _"] registered assms(4) by auto
  let ?over = "(?stop Succeeded)\<lparr>sh_end := Some (Exits 0)\<rparr>"
  let ?t = "t\<lparr>s_shims := (s_shims t)(pid \<mapsto> ?over), s_net := s_net t\<rparr>"
  have "sys_step labels t ?t"
    using sys_shim [of t pid "?stop Succeeded" labels ?over "s_net t"] sh_exit [of "?stop Succeeded"] t(2) registered by auto
  then have "(sys_step labels)\<^sup>*\<^sup>* s ?t"
    using rtranclp.rtrancl_into_rtrancl [of "sys_step labels", OF converse_rtranclp_into_rtranclp [of "sys_step labels", OF signal t(1)]] by blast
  then show ?thesis using t(3) by (intro exI [of _ ?t]) simp
qed

section \<open>Executions\<close>

text \<open>The shim of one port, and the world around it.\<close>

definition demo_port :: "unit EnvoyProxy" where
  "demo_port = docker_proxy (\<lambda>port x. (Inr demo_settings, x)) sample_host sample_container False"

definition demo_labels :: labels where
  "demo_labels port = Some demo_settings"

definition one_shim :: "run_pc \<Rightarrow> stop_pc \<Rightarrow> unit outcome option \<Rightarrow> net \<Rightarrow> unit sys" where
  "one_shim run stop end n =
     \<lparr>s_net = n, s_shims = [0 \<mapsto> \<lparr>sh_proxy = demo_port, sh_run = run, sh_stop = stop, sh_end = end\<rparr>]\<rparr>"

abbreviation demo_register :: RegistrarRequest where
  "demo_register \<equiv> action_request demo_port demo_settings RegistrarRequest_REGISTER"

abbreviation demo_deregister :: RegistrarRequest where
  "demo_deregister \<equiv> action_request demo_port demo_settings RegistrarRequest_DEREGISTER"

definition demo_net :: "Registrar \<Rightarrow> (nat \<rightharpoonup> RegistrarRequest) \<Rightarrow> nat set \<Rightarrow> nat \<Rightarrow> net" where
  "demo_net r wire replied i = \<lparr>n_registrar = r, n_wire = wire, n_replied = replied, n_failed = {}, n_next = i\<rparr>"

lemma demo_port: "\<not> px_Reload demo_port" "px_Retries demo_port = [100, 500, 1000, 1500]"
  by (simp_all add: demo_port_def docker_proxy_def)

lemma one_shim_step:
  assumes "shim_step demo_labels
      (\<lparr>sh_proxy = demo_port, sh_run = run, sh_stop = stop, sh_end = end\<rparr>, n)
      (\<lparr>sh_proxy = demo_port, sh_run = run', sh_stop = stop', sh_end = end'\<rparr>, n')"
  shows "sys_step demo_labels (one_shim run stop end n) (one_shim run' stop' end' n')"
  using sys_shim [of "one_shim run stop end n" 0 _ demo_labels _ n'] assms by (simp add: one_shim_def)

text \<open>One step of one of the two goroutines, or of the server.\<close>

lemma demo_steps:
  "sys_step demo_labels (one_shim Run_Sleep stop None n)
     (one_shim (Run_Tries (Trying [100, 500, 1000, 1500])) stop None n)"
  "sys_step demo_labels (one_shim (Run_Tries (Trying (m # rs))) stop None (demo_net r wire replied i))
     (one_shim (Run_Tries (Calling rs i)) stop None (demo_net r (wire(i \<mapsto> demo_register)) replied (Suc i)))"
  "j \<in> replied \<Longrightarrow>
   sys_step demo_labels (one_shim (Run_Tries (Calling rs j)) stop None (demo_net r wire replied i))
     (one_shim (Run_Tries Succeeded) stop None (demo_net r wire replied i))"
  "sys_step demo_labels (one_shim run Stop_Wait None n)
     (one_shim run (Stop_Tries (Trying [100, 500, 1000, 1500])) None n)"
  "sys_step demo_labels (one_shim run (Stop_Tries (Trying (m # rs))) None (demo_net r wire replied i))
     (one_shim run (Stop_Tries (Calling rs i)) None (demo_net r (wire(i \<mapsto> demo_deregister)) replied (Suc i)))"
  "j \<in> replied \<Longrightarrow>
   sys_step demo_labels (one_shim run (Stop_Tries (Calling rs j)) None (demo_net r wire replied i))
     (one_shim run (Stop_Tries Succeeded) None (demo_net r wire replied i))"
  "sys_step demo_labels (one_shim run (Stop_Tries Succeeded) None n)
     (one_shim run (Stop_Tries Succeeded) (Some (Exits 0)) n)"
proof -
  note call = try_call [of demo_labels demo_port demo_settings]
  have labels: "demo_labels (Port (px_frontendAddr demo_port)) = Some demo_settings" by (simp add: demo_labels_def)
  show "sys_step demo_labels (one_shim Run_Sleep stop None n)
     (one_shim (Run_Tries (Trying [100, 500, 1000, 1500])) stop None n)"
    using sh_awake [of "\<lparr>sh_proxy = demo_port, sh_run = Run_Sleep, sh_stop = stop, sh_end = None\<rparr>" demo_labels n]
    by (intro one_shim_step) (simp add: demo_port)
  show "sys_step demo_labels (one_shim (Run_Tries (Trying (m # rs))) stop None (demo_net r wire replied i))
     (one_shim (Run_Tries (Calling rs i)) stop None (demo_net r (wire(i \<mapsto> demo_register)) replied (Suc i)))"
    using sh_register [of "\<lparr>sh_proxy = demo_port, sh_run = Run_Tries (Trying (m # rs)), sh_stop = stop, sh_end = None\<rparr>"]
      call [OF labels, of RegistrarRequest_REGISTER m rs "demo_net r wire replied i"]
    by (intro one_shim_step) (simp add: demo_net_def)
  show "sys_step demo_labels (one_shim (Run_Tries (Calling rs j)) stop None (demo_net r wire replied i))
     (one_shim (Run_Tries Succeeded) stop None (demo_net r wire replied i))" if "j \<in> replied"
    using sh_register [where sh = "\<lparr>sh_proxy = demo_port, sh_run = Run_Tries (Calling rs j), sh_stop = stop, sh_end = None\<rparr>"
        and labels = demo_labels and t = "Calling rs j" and t' = Succeeded]
      try_ok [of j "demo_net r wire replied i" demo_labels demo_port RegistrarRequest_REGISTER rs] that
    by (intro one_shim_step) (simp add: demo_net_def)
  show "sys_step demo_labels (one_shim run Stop_Wait None n)
     (one_shim run (Stop_Tries (Trying [100, 500, 1000, 1500])) None n)"
    using sh_signal [of "\<lparr>sh_proxy = demo_port, sh_run = run, sh_stop = Stop_Wait, sh_end = None\<rparr>" demo_labels n]
    by (intro one_shim_step) (simp add: demo_port)
  show "sys_step demo_labels (one_shim run (Stop_Tries (Trying (m # rs))) None (demo_net r wire replied i))
     (one_shim run (Stop_Tries (Calling rs i)) None (demo_net r (wire(i \<mapsto> demo_deregister)) replied (Suc i)))"
    using sh_deregister [of "\<lparr>sh_proxy = demo_port, sh_run = run, sh_stop = Stop_Tries (Trying (m # rs)), sh_end = None\<rparr>"]
      call [OF labels, of RegistrarRequest_DEREGISTER m rs "demo_net r wire replied i"]
    by (intro one_shim_step) (simp add: demo_net_def)
  show "sys_step demo_labels (one_shim run (Stop_Tries (Calling rs j)) None (demo_net r wire replied i))
     (one_shim run (Stop_Tries Succeeded) None (demo_net r wire replied i))" if "j \<in> replied"
    using sh_deregister [where sh = "\<lparr>sh_proxy = demo_port, sh_run = run, sh_stop = Stop_Tries (Calling rs j), sh_end = None\<rparr>"
        and labels = demo_labels and t = "Calling rs j" and t' = Succeeded]
      try_ok [of j "demo_net r wire replied i" demo_labels demo_port RegistrarRequest_DEREGISTER rs] that
    by (intro one_shim_step) (simp add: demo_net_def)
  show "sys_step demo_labels (one_shim run (Stop_Tries Succeeded) None n)
     (one_shim run (Stop_Tries Succeeded) (Some (Exits 0)) n)"
    using sh_exit [of "\<lparr>sh_proxy = demo_port, sh_run = run, sh_stop = Stop_Tries Succeeded, sh_end = None\<rparr>" demo_labels n]
    by (intro one_shim_step) simp
qed

lemma demo_serve:
  assumes "wire j = Some req" and "is_register req \<or> is_deregister req"
  shows "sys_step demo_labels (one_shim run stop end (demo_net r wire replied i))
    (one_shim run stop end (demo_net (snd (Register req r)) (wire(j := None)) (insert j replied) i))"
proof -
  have "Register req r = ((\<lparr>reply_StatusCode = 1\<rparr>, None), snd (Register req r))"
    using assms(2) Register_reply [of req r] by (metis prod.collapse)
  then have "net_step (demo_net r wire replied i)
      (demo_net (snd (Register req r)) (wire(j := None)) (insert j replied) i)"
    using net_serve [of "demo_net r wire replied i" j req] assms(1) by (simp add: demo_net_def)
  with sys_net [of "one_shim run stop end (demo_net r wire replied i)"] show ?thesis
    by (simp add: one_shim_def)
qed

lemma demo_started: "sys_reachable (one_shim Run_Sleep Stop_Wait None (demo_net NewRegistrar Map.empty {} 0))"
proof -
  have "main_start (\<lambda>port x. (Inr demo_settings, x)) Inr (docker_args ''tcp'' sample_host sample_container)
      = (Returns (Envoy demo_port), ''0'' @ [CHR 0x0A])"
    using main_start_tcp(1) [OF sample_wf] by (simp add: demo_port_def)
  from sys_start [OF _ this, of sys_init 0 demo_labels]
  have "sys_step demo_labels sys_init (one_shim Run_Sleep Stop_Wait None (demo_net NewRegistrar Map.empty {} 0))"
    by (simp add: sys_init_def one_shim_def demo_net_def new_shim_def demo_port)
  with sys_reachable.init show ?thesis by (rule sys_reachable.step)
qed

text \<open>The shim has registered its port, and its call has been replied to.\<close>

abbreviation demo_registered :: Registrar where
  "demo_registered \<equiv> snd (Register demo_register NewRegistrar)"

lemma demo_up: "sys_reachable (one_shim (Run_Tries Succeeded) Stop_Wait None (demo_net demo_registered Map.empty {0} 1))"
proof -
  let ?s = "\<lambda>run. one_shim run Stop_Wait None"
  have "sys_reachable (?s (Run_Tries (Trying [100, 500, 1000, 1500])) (demo_net NewRegistrar Map.empty {} 0))"
    by (rule sys_reachable.step [OF demo_started demo_steps(1)])
  then have "sys_reachable (?s (Run_Tries (Calling [500, 1000, 1500] 0)) (demo_net NewRegistrar [0 \<mapsto> demo_register] {} (Suc 0)))"
    by (rule sys_reachable.step [OF _ demo_steps(2)])
  then have "sys_reachable (?s (Run_Tries (Calling [500, 1000, 1500] 0))
      (demo_net demo_registered ([0 \<mapsto> demo_register](0 := None)) (insert 0 {}) (Suc 0)))"
    by (rule sys_reachable.step [OF _ demo_serve]) simp_all
  then have "sys_reachable (?s (Run_Tries Succeeded)
      (demo_net demo_registered ([0 \<mapsto> demo_register](0 := None)) (insert 0 {}) (Suc 0)))"
    by (rule sys_reachable.step [OF _ demo_steps(3)]) simp
  then show ?thesis by simp
qed

text \<open>From there the signal leads to the shim's end with status 0.\<close>

lemma demo_down:
  "(sys_step demo_labels)\<^sup>*\<^sup>* (one_shim (Run_Tries Succeeded) Stop_Wait None (demo_net demo_registered Map.empty {0} 1))
     (one_shim (Run_Tries Succeeded) (Stop_Tries Succeeded) (Some (Exits 0))
        (demo_net (snd (Register demo_deregister demo_registered)) Map.empty {0, 1} 2))"
proof -
  let ?s = "one_shim (Run_Tries Succeeded)" and ?to = "(sys_step demo_labels)\<^sup>*\<^sup>*"
  let ?start = "?s Stop_Wait None (demo_net demo_registered Map.empty {0} 1)"
  have "?to ?start (?s (Stop_Tries (Trying [100, 500, 1000, 1500])) None (demo_net demo_registered Map.empty {0} 1))"
    by (rule r_into_rtranclp [of "sys_step demo_labels", OF demo_steps(4)])
  then have "?to ?start (?s (Stop_Tries (Calling [500, 1000, 1500] 1)) None
      (demo_net demo_registered [1 \<mapsto> demo_deregister] {0} (Suc 1)))"
    by (rule rtranclp.rtrancl_into_rtrancl [of "sys_step demo_labels", OF _ demo_steps(5)])
  then have "?to ?start (?s (Stop_Tries (Calling [500, 1000, 1500] 1)) None
      (demo_net (snd (Register demo_deregister demo_registered)) ([1 \<mapsto> demo_deregister](1 := None)) (insert 1 {0}) (Suc 1)))"
    by (rule rtranclp.rtrancl_into_rtrancl [of "sys_step demo_labels", OF _ demo_serve]) simp_all
  then have "?to ?start (?s (Stop_Tries Succeeded) None
      (demo_net (snd (Register demo_deregister demo_registered)) ([1 \<mapsto> demo_deregister](1 := None)) (insert 1 {0}) (Suc 1)))"
    by (rule rtranclp.rtrancl_into_rtrancl [of "sys_step demo_labels", OF _ demo_steps(6)]) simp
  then have "?to ?start (?s (Stop_Tries Succeeded) (Some (Exits 0))
      (demo_net (snd (Register demo_deregister demo_registered)) ([1 \<mapsto> demo_deregister](1 := None)) (insert 1 {0}) (Suc 1)))"
    by (rule rtranclp.rtrancl_into_rtrancl [of "sys_step demo_labels", OF _ demo_steps(7)])
  then show ?thesis by (simp add: insert_commute numeral_2_eq_2)
qed

section \<open>Properties\<close>

text \<open>
  C4: A shim that has finished its registration before the signal comes leaves nothing behind. Take any
  reachable state in which \<open>Run\<close> has ended its attempts (with or without success), no request to register
  the name is still on its way, and the signal has not come. From then on, however the goroutines, the
  server (its restarts too) and other shims go on, while Docker's labels stay as they are and no
  other shim has the name: once the shim has ended with status 0, the registrar has no entry under
  its name.
\<close>

theorem stop_is_clean:
  assumes "sys_reachable s" and "s_shims s pid = Some sh" and "run_over (sh_run sh)"
    and "sh_stop sh = Stop_Wait" and "sh_end sh = None"
    and "labels (Port (px_frontendAddr (sh_proxy sh))) = Some settings"
    and "no_register (shim_name (sh_proxy sh) settings) (s_net s)"
    and "(sys_step labels)\<^sup>*\<^sup>* s t" and "only_shim labels t pid (shim_name (sh_proxy sh) settings)"
    and "s_shims t pid = Some sh'" and "sh_end sh' = Some (Exits 0)"
  shows "GetEntry (n_registrar (s_net t)) (shim_name (sh_proxy sh) settings) = None"
proof -
  let ?name = "shim_name (sh_proxy sh) settings"
  have "stopping_inv labels pid (sh_proxy sh) ?name s"
    using assms(2-5,7) net_inv_reachable [OF assms(1)] by (simp add: stopping_inv_def stop_inv_def)
  with assms(8,9) have "stopping_inv labels pid (sh_proxy sh) ?name t"
  proof (induction rule: rtranclp_induct)
    case (step u v)
    then have "only_shim labels u pid ?name" using only_shim_step by blast
    with step show ?case using stopping_inv_step [OF step.hyps(2)] assms(6) by blast
  qed simp
  with assms(10,11) show ?thesis by (auto simp: stopping_inv_def stop_inv_def absent_def)
qed

lemma stop_is_clean_witness:
  "GetEntry (snd (Register demo_deregister demo_registered)) (shim_name demo_port demo_settings) = None"
proof -
  let ?s = "one_shim (Run_Tries Succeeded) Stop_Wait None (demo_net demo_registered Map.empty {0} 1)"
  let ?t = "one_shim (Run_Tries Succeeded) (Stop_Tries Succeeded) (Some (Exits 0))
    (demo_net (snd (Register demo_deregister demo_registered)) Map.empty {0, 1} 2)"
  let ?sh = "\<lparr>sh_proxy = demo_port, sh_run = Run_Tries Succeeded, sh_stop = Stop_Wait, sh_end = None\<rparr>"
  have "s_shims ?s 0 = Some ?sh" "no_register (shim_name demo_port demo_settings) (s_net ?s)"
    "only_shim demo_labels ?t 0 (shim_name demo_port demo_settings)"
    by (simp_all add: one_shim_def demo_net_def no_register_def only_shim_def)
  with stop_is_clean [OF demo_up, of 0 ?sh demo_labels demo_settings ?t] demo_down show ?thesis
    by (simp add: run_over_def demo_labels_def) (simp add: one_shim_def demo_net_def)
qed

text \<open>
  C22: A signal that comes while the registration is under way can leave the port behind for good. The two
  goroutines do not wait for each other, and the server may serve the later request first: there is an
  execution at whose end the shim has ended with status 0, no request is on its way, and the
  registrar still reports the port.
\<close>

theorem stop_race_leaves_entry:
  "\<exists>s. sys_reachable s
     \<and> (\<exists>sh. s_shims s = [0 \<mapsto> sh] \<and> sh_proxy sh = demo_port \<and> sh_end sh = Some (Exits 0))
     \<and> n_wire (s_net s) = Map.empty
     \<and> GetEntry (n_registrar (s_net s)) (shim_name demo_port demo_settings)
         = Some (RequestToEntry (RequestWithSettings demo_port demo_settings))"
proof -
  let ?run = "Run_Tries (Calling [500, 1000, 1500] 0)"
  let ?both = "[0 \<mapsto> demo_register, 1 \<mapsto> demo_deregister]"
  let ?r = "snd (Register demo_deregister NewRegistrar)"
  have "sys_reachable (one_shim (Run_Tries (Trying [100, 500, 1000, 1500])) Stop_Wait None (demo_net NewRegistrar Map.empty {} 0))"
    by (rule sys_reachable.step [OF demo_started demo_steps(1)])
  then have "sys_reachable (one_shim ?run Stop_Wait None (demo_net NewRegistrar [0 \<mapsto> demo_register] {} (Suc 0)))"
    by (rule sys_reachable.step [OF _ demo_steps(2)])
  then have "sys_reachable (one_shim ?run (Stop_Tries (Trying [100, 500, 1000, 1500])) None
      (demo_net NewRegistrar [0 \<mapsto> demo_register] {} (Suc 0)))"
    by (rule sys_reachable.step [OF _ demo_steps(4)])
  then have "sys_reachable (one_shim ?run (Stop_Tries (Calling [500, 1000, 1500] (Suc 0))) None
      (demo_net NewRegistrar ([0 \<mapsto> demo_register](Suc 0 \<mapsto> demo_deregister)) {} (Suc (Suc 0))))"
    by (rule sys_reachable.step [OF _ demo_steps(5)])
  then have "sys_reachable (one_shim ?run (Stop_Tries (Calling [500, 1000, 1500] (Suc 0))) None
      (demo_net ?r ([0 \<mapsto> demo_register, Suc 0 \<mapsto> demo_deregister](Suc 0 := None)) {Suc 0} (Suc (Suc 0))))"
    by (rule sys_reachable.step [OF _ demo_serve]) simp_all
  then have "sys_reachable (one_shim ?run (Stop_Tries Succeeded) None
      (demo_net ?r ([0 \<mapsto> demo_register, Suc 0 \<mapsto> demo_deregister](Suc 0 := None)) {Suc 0} (Suc (Suc 0))))"
    by (rule sys_reachable.step [OF _ demo_steps(6)]) simp
  then have "sys_reachable (one_shim ?run (Stop_Tries Succeeded) (Some (Exits 0))
      (demo_net ?r ([0 \<mapsto> demo_register, Suc 0 \<mapsto> demo_deregister](Suc 0 := None)) {Suc 0} (Suc (Suc 0))))"
    by (rule sys_reachable.step [OF _ demo_steps(7)])
  then have "sys_reachable (one_shim ?run (Stop_Tries Succeeded) (Some (Exits 0))
      (demo_net (snd (Register demo_register ?r))
        ([0 \<mapsto> demo_register, Suc 0 \<mapsto> demo_deregister](Suc 0 := None, 0 := None)) {0, Suc 0} (Suc (Suc 0))))"
    by (rule sys_reachable.step [OF _ demo_serve]) simp_all
  moreover have "GetEntry (snd (Register demo_register ?r)) (shim_name demo_port demo_settings)
      = Some (RequestToEntry (RequestWithSettings demo_port demo_settings))"
    by (subst GetEntry_Register [OF prod.collapse [symmetric]]) (simp add: RequestToEntry_action)
  ultimately show ?thesis
    unfolding one_shim_def demo_net_def by (intro exI conjI) (assumption, simp, simp, simp, simp, simp)
qed

text \<open>
  C16: The registrar invents nothing. Whatever shims are started, signalled and killed, in every
  interleaving, whatever Docker answers, and however often the server is restarted: every entry of
  the registrar lies under its own name and is what some shim that was started asks for, with that
  shim's addresses.
\<close>

theorem entries_have_shims:
  assumes "sys_reachable s" and "GetEntry (n_registrar (s_net s)) name = Some e"
  shows "name = SvcName e
    \<and> (\<exists>pid sh settings. s_shims s pid = Some sh \<and> e = RequestToEntry (RequestWithSettings (sh_proxy sh) settings))"
  using origin_inv_reachable [OF assms(1)] assms(2) unfolding origin_inv_def registered_for_def by blast

lemma entries_have_shims_witness:
  "shim_name demo_port demo_settings = SvcName (RequestToEntry (RequestWithSettings demo_port demo_settings))"
proof -
  have "GetEntry demo_registered (shim_name demo_port demo_settings)
      = Some (RequestToEntry (RequestWithSettings demo_port demo_settings))"
    by (subst GetEntry_Register [OF prod.collapse [symmetric]]) (simp add: RequestToEntry_action)
  with entries_have_shims [OF demo_up, of "shim_name demo_port demo_settings"] show ?thesis
    by (simp add: one_shim_def demo_net_def)
qed

text \<open>
  C20: The interleaved shim is the shim. Left alone with a server that serves its calls, the two goroutines
  go, step by step, through what \<open>Run\<close> and \<open>handleStopSignals\<close> do undisturbed in a world that works: after
  the registration and after the end with status 0 the registrar is the same.
\<close>

theorem undisturbed_shim:
  assumes "shim_world G dockerClient labels view put" and "ip_wf host" and "ip_wf container"
    and "s_shims s pid = Some (new_shim (docker_proxy dockerClient host container False))"
    and "view (outside w) = n_registrar (s_net s)"
  shows "let p = docker_proxy dockerClient host container False; step = sys_step (\<lambda>port. Some (labels port)) in
    \<exists>t sh w' u sh' w''.
      step\<^sup>*\<^sup>* s t \<and> s_shims t pid = Some sh \<and> sh_run sh = Run_Tries Succeeded \<and> sh_end sh = None
      \<and> Run G p w = (Blocks, w') \<and> view (outside w') = n_registrar (s_net t)
      \<and> step\<^sup>*\<^sup>* t u \<and> s_shims u pid = Some sh' \<and> sh_end sh' = Some (Exits 0)
      \<and> handleStopSignals G (Envoy p) w' = (Exits 0, w'') \<and> view (outside w'') = n_registrar (s_net u)"
proof -
  let ?p = "docker_proxy dockerClient host container False" and ?labels = "\<lambda>port. Some (labels port)"
  have p: "px_Retries ?p = 100 # [500, 1000, 1500]" "\<not> px_Reload ?p" "?labels (Port (px_frontendAddr ?p)) = Some (labels (Port host))"
    by (simp_all add: docker_proxy_def canonical_def)
  note request = action_request_shim [OF assms(2,3), of dockerClient False]
  obtain t where t: "(sys_step ?labels)\<^sup>*\<^sup>* s t" "s_shims t pid = Some (registered ?p Stop_Wait)"
      "n_registrar (s_net t) = snd (Register (shim_request host container (labels (Port host)) RegistrarRequest_REGISTER) (n_registrar (s_net s)))"
    using undisturbed_run [OF assms(4) p(2,1), of ?labels, OF p(3)] unfolding request by blast
  obtain u where u: "(sys_step ?labels)\<^sup>*\<^sup>* t u"
      "s_shims u pid = Some ((registered ?p (Stop_Tries Succeeded))\<lparr>sh_end := Some (Exits 0)\<rparr>)"
      "n_registrar (s_net u) = snd (Register (shim_request host container (labels (Port host)) RegistrarRequest_DEREGISTER) (n_registrar (s_net t)))"
    using undisturbed_stop [OF t(2) p(2,1), of ?labels, OF p(3)] unfolding request by blast
  obtain x' where x': "Run G ?p w = (Blocks, w\<lparr>slept := slept w @ [Second], outside := x'\<rparr>)"
      "view x' = snd (Register (shim_request host container (labels (Port host)) RegistrarRequest_REGISTER) (view (outside w)))"
    using Run_delivers(1) [OF assms(1-3), of w] by blast
  let ?w = "w\<lparr>slept := slept w @ [Second], outside := x'\<rparr>"
  obtain x'' where x'': "handleStopSignals G (Envoy ?p) ?w = (Exits 0, ?w\<lparr>outside := x''\<rparr>)"
      "view x'' = snd (Register (shim_request host container (labels (Port host)) RegistrarRequest_DEREGISTER) (view x'))"
    using stop_delivers [OF assms(1-3), of ?w] by auto
  have "view (outside ?w) = n_registrar (s_net t)" "view (outside (?w\<lparr>outside := x''\<rparr>)) = n_registrar (s_net u)"
    using x'(2) x''(2) t(3) u(3) assms(5) by simp_all
  moreover have "sh_run (registered ?p Stop_Wait) = Run_Tries Succeeded" "sh_end (registered ?p Stop_Wait) = None"
      "sh_end ((registered ?p (Stop_Tries Succeeded))\<lparr>sh_end := Some (Exits 0)\<rparr>) = Some (Exits 0)"
    by (simp_all add: registered_def new_shim_def)
  ultimately show ?thesis unfolding Let_def using t(1,2) u(1,2) x'(1) x''(1) by blast
qed

lemma undisturbed_shim_witness:
  "\<exists>u sh. (sys_step (\<lambda>port. Some demo_settings))\<^sup>*\<^sup>*
      (sys_init\<lparr>s_shims := [0 \<mapsto> new_shim (docker_proxy (\<lambda>port (x :: Registrar). (Inr demo_settings, x))
         sample_host sample_container False)]\<rparr>) u
    \<and> s_shims u 0 = Some sh \<and> sh_end sh = Some (Exits 0)"
proof -
  let ?s = "sys_init\<lparr>s_shims := [0 \<mapsto> new_shim (docker_proxy (\<lambda>port (x :: Registrar). (Inr demo_settings, x))
      sample_host sample_container False)]\<rparr>"
  have "s_shims ?s 0 = Some (new_shim (docker_proxy (\<lambda>port x. (Inr demo_settings, x)) sample_host sample_container False))"
    "id (outside \<lparr>outside = NewRegistrar, slept = []\<rparr>) = n_registrar (s_net ?s)"
    by (simp_all add: sys_init_def)
  from undisturbed_shim [OF demo_world sample_wf this] show ?thesis
    unfolding Let_def by (meson rtranclp_trans)
qed

end
