(* ===== verification/ShimStop.thy ===== *)
theory ShimStop
  imports ShimSignals
begin

text \<open>
  The end of a signalled shim: in the executions of \<open>ShimSignals\<close> that are fair to the goroutine of
  \<open>handleStopSignals\<close> (\<open>cmd/envoy-docker-shim/main.go\<close>) the process ends, unless \<open>Close\<close>
  (\<open>envoy_proxy.go\<close>) waits in a call that is never answered.
\<close>

section \<open>The loop of attempts\<close>

lemma main_start_retries:
  assumes "main_start dockerClient listen args = (Returns (Envoy p), out)"
  shows "px_Retries p = [100, 500, 1000, 1500]"
  using assms
  by (auto simp: main_start_def NewProxy_def NewEnvoyProxy_def assert_TCPAddr_def made_envoy_def Let_def
      split: outcome.splits prod.splits sum.splits if_splits Addr.splits option.splits)

text \<open>No loop begins without an attempt to make.\<close>

definition tries_inv :: "'x sys \<Rightarrow> bool" where
  "tries_inv s \<longleftrightarrow>
     (\<forall>pid sh. s_shims s pid = Some sh \<longrightarrow> px_Retries (sh_proxy sh) \<noteq> [] \<and> sh_stop sh \<noteq> Stop_Tries (Trying []))"

lemma tries_inv_step: "sys_step labels s t \<Longrightarrow> tries_inv s \<Longrightarrow> tries_inv t"
  by (erule sys_stepE)
    (auto simp: tries_inv_def new_shim_def dest: main_start_retries elim!: shim_stepE elim: try_stepE)

lemma tries_inv_reachable: "sys_reachable s \<Longrightarrow> tries_inv s"
proof (induction rule: sys_reachable.induct)
  case init
  then show ?case by (simp add: tries_inv_def sys_init_def)
next
  case (step s labels t)
  then show ?case using tries_inv_step by blast
qed

text \<open>
  An execution: at every moment a step of the system, or none. The steps of the stop goroutine of one
  shim are those that lead on in its loop or end the process with the loop's result.
\<close>

definition execution :: "(nat \<Rightarrow> labels) \<Rightarrow> (nat \<Rightarrow> 'x sys) \<Rightarrow> bool" where
  "execution labels run \<longleftrightarrow>
     sys_reachable (run 0) \<and> (\<forall>k. run (Suc k) = run k \<or> sys_step (labels k) (run k) (run (Suc k)))"

definition stop_step :: "labels \<Rightarrow> nat \<Rightarrow> 'x sys \<Rightarrow> 'x sys \<Rightarrow> bool" where
  "stop_step labels pid s t \<longleftrightarrow>
     (\<exists>sh sh' n'. s_shims s pid = Some sh \<and> shim_step labels (sh, s_net s) (sh', n')
        \<and> t = s\<lparr>s_shims := (s_shims s)(pid \<mapsto> sh'), s_net := n'\<rparr>
        \<and> sh_stop sh \<noteq> Stop_Wait
        \<and> (sh_stop sh' \<noteq> sh_stop sh \<or> sh_end sh' \<in> {Some (Exits 0), Some (Exits 1)}))"

text \<open>Fairness: a goroutine that can go on from some moment on, goes on.\<close>

definition stop_fair :: "(nat \<Rightarrow> labels) \<Rightarrow> nat \<Rightarrow> (nat \<Rightarrow> 'x sys) \<Rightarrow> bool" where
  "stop_fair labels pid run \<longleftrightarrow>
     (\<forall>k. (\<forall>j\<ge>k. \<exists>t. stop_step (labels j) pid (run j) t) \<longrightarrow> (\<exists>j\<ge>k. stop_step (labels j) pid (run j) (run (Suc j))))"

text \<open>Every step of the loop brings it nearer to its end.\<close>

fun tries_rank :: "tries \<Rightarrow> nat" where
  "tries_rank (Trying rs) = 3 * length rs"
| "tries_rank (Calling rs i) = 3 * length rs + 2"
| "tries_rank (Pausing rs err) = 3 * length rs + 1"
| "tries_rank Succeeded = 0"
| "tries_rank (GaveUp err) = 0"

lemma try_step_rank: "try_step labels p action (t, n) (t', n') \<Longrightarrow> tries_rank t' < tries_rank t"
  by (erule try_stepE) (auto simp: neq_Nil_conv)

text \<open>A shim whose stop goroutine is in its loop.\<close>

definition stopping :: "'x shim \<Rightarrow> tries \<Rightarrow> bool" where
  "stopping sh t \<longleftrightarrow> sh_stop sh = Stop_Tries t \<and> sh_end sh = None \<and> \<not> px_Reload (sh_proxy sh) \<and> t \<noteq> Trying []"

lemma stopping_step:
  assumes "shim_step labels (sh, n) (sh', n')" and "stopping sh t"
  shows "sh_end sh' \<in> {Some (Exits 0), Some (Exits 1), Some (Exits 137)}
    \<or> (\<exists>t'. stopping sh' t' \<and> (t' = t \<or> tries_rank t' < tries_rank t))"
  using assms
proof cases
  case (sh_deregister t1 t2)
  with assms(2) have "stopping sh' t2" by (auto simp: stopping_def elim: try_stepE)
  with sh_deregister assms(2) try_step_rank [OF sh_deregister(4)] show ?thesis by (auto simp: stopping_def)
qed (auto simp: stopping_def)

lemma stopping_sys:
  assumes "sys_step labels s s'" and "s_shims s pid = Some sh" and "stopping sh t"
  shows "\<exists>sh'. s_shims s' pid = Some sh' \<and>
    (sh_end sh' \<in> {Some (Exits 0), Some (Exits 1), Some (Exits 137)}
     \<or> (\<exists>t'. stopping sh' t' \<and> (t' = t \<or> tries_rank t' < tries_rank t)))"
  using assms(1)
proof cases
  case (sys_shim q shq shq' n')
  with assms(2,3) stopping_step [of labels sh "s_net s" shq' n' t] show ?thesis by (cases "q = pid") auto
qed (use assms(2,3) in auto)

text \<open>A call that the server has neither replied to nor failed.\<close>

definition unanswered :: "nat \<Rightarrow> net \<Rightarrow> bool" where
  "unanswered i n \<longleftrightarrow> i \<notin> n_replied n \<and> i \<notin> n_failed n"

text \<open>But for such a call the goroutine can go on.\<close>

lemma try_ready:
  assumes "t \<noteq> Trying []" and "t \<noteq> Succeeded" and "\<And>err. t \<noteq> GaveUp err"
    and "\<And>rs i. t = Calling rs i \<Longrightarrow> \<not> unanswered i n"
  shows "\<exists>t'. try_step labels p action (t, n) (t', n)"
proof (cases t)
  case (Trying rs)
  with assms(1) show ?thesis using try_no_call by (cases rs) blast+
next
  case (Calling rs i)
  with assms(4) show ?thesis using try_ok try_error by (fastforce simp: unanswered_def)
next
  case (Pausing rs err)
  then show ?thesis using try_again try_over by (cases "rs = []") blast+
qed (use assms in simp_all)

lemma stop_ready:
  assumes "s_shims s pid = Some sh" and "stopping sh t"
    and "\<And>rs i. t = Calling rs i \<Longrightarrow> \<not> unanswered i (s_net s)"
  shows "\<exists>u. stop_step labels pid s u"
proof -
  have sh: "sh_stop sh = Stop_Tries t" "sh_end sh = None" "t \<noteq> Trying []"
    using assms(2) by (simp_all add: stopping_def)
  have "\<exists>sh'. shim_step labels (sh, s_net s) (sh', s_net s)
      \<and> (sh_stop sh' \<noteq> sh_stop sh \<or> sh_end sh' \<in> {Some (Exits 0), Some (Exits 1)})"
  proof (cases "t = Succeeded \<or> (\<exists>err. t = GaveUp err)")
    case True
    then show ?thesis
      using sh_exit [of sh labels "s_net s"] sh_fatal [of sh _ labels "s_net s"] sh by fastforce
  next
    case False
    then obtain t' where t': "try_step labels (sh_proxy sh) RegistrarRequest_DEREGISTER (t, s_net s) (t', s_net s)"
      using try_ready [of t "s_net s"] assms(3) sh(3) by blast
    have "sh_stop (sh\<lparr>sh_stop := Stop_Tries t'\<rparr>) \<noteq> sh_stop sh"
      using try_step_rank [OF t'] sh(1) by auto
    with sh_deregister [OF sh(2,1) t'] show ?thesis by blast
  qed
  then show ?thesis using assms(1) sh(1) unfolding stop_step_def by (metis stop_pc.distinct(1))
qed

text \<open>What the stop goroutine has done, it has got nearer to its end.\<close>

lemma stop_step_rank:
  assumes "stop_step labels pid s u" and "s_shims s pid = Some sh" and "stopping sh t"
    and "s_shims u pid = Some sh'" and "stopping sh' t'"
  shows "t' \<noteq> t"
proof -
  obtain sh1 n' where step: "shim_step labels (sh, s_net s) (sh1, n')" "u = s\<lparr>s_shims := (s_shims s)(pid \<mapsto> sh1), s_net := n'\<rparr>"
      "sh_stop sh1 \<noteq> sh_stop sh \<or> sh_end sh1 \<in> {Some (Exits 0), Some (Exits 1)}"
    using assms(1,2) by (auto simp: stop_step_def)
  with assms(3-5) show ?thesis by (auto simp: stopping_def)
qed

text \<open>Answers are kept.\<close>

lemma answered_step: "sys_step labels s t \<Longrightarrow> net_inv (s_net s) \<Longrightarrow> unanswered i (s_net t) \<Longrightarrow> unanswered i (s_net s)"
  by (erule sys_stepE)
    (auto simp: unanswered_def sends_def net_inv_def dest!: shim_step_sends elim!: net_stepE)

text \<open>A process that has ended stays as it is.\<close>

lemma ended_step:
  "sys_step labels s t \<Longrightarrow> s_shims s pid = Some sh \<Longrightarrow> sh_end sh = Some c \<Longrightarrow> s_shims t pid = Some sh"
  by (erule sys_stepE) (auto elim: shim_stepE)

text \<open>A call without an answer holds the goroutine.\<close>

lemma hung_step:
  assumes "sys_step labels s s'" and "s_shims s pid = Some sh" and "stopping sh (Calling rs i)" and "unanswered i (s_net s)"
  shows "\<exists>sh'. s_shims s' pid = Some sh' \<and> (stopping sh' (Calling rs i) \<or> sh_end sh' = Some (Exits 137))"
  using assms(1)
proof cases
  case (sys_shim q shq shq' n')
  show ?thesis
  proof (cases "q = pid")
    case True
    with sys_shim assms(2) have step: "shim_step labels (sh, s_net s) (shq', n')" by simp
    have "stopping shq' (Calling rs i) \<or> sh_end shq' = Some (Exits 137)"
      using step assms(3,4) by cases (auto simp: stopping_def unanswered_def elim: try_stepE)
    with True sys_shim show ?thesis by simp
  qed (use sys_shim assms(2,3) in simp)
qed (use assms(2,3) in auto)

lemma execution_reachable: "execution labels run \<Longrightarrow> sys_reachable (run k)"
  by (induction k) (auto simp: execution_def, metis sys_reachable.step)

lemma answered_before:
  assumes "execution labels run" and "k \<le> j" and "unanswered i (s_net (run j))"
  shows "unanswered i (s_net (run k))"
  using assms(2,3)
proof (induction rule: dec_induct)
  case (step m)
  have "net_inv (s_net (run m))" by (rule net_inv_reachable [OF execution_reachable [OF assms(1)]])
  with step answered_step assms(1) show ?case by (metis execution_def)
qed

text \<open>A shim that never ends stays in its loop, at one place from some moment on.\<close>

lemma stuck_somewhere:
  assumes run: "execution labels run" and start: "s_shims (run 0) pid = Some sh" "stopping sh t"
    and alive: "\<forall>k sh'. s_shims (run k) pid = Some sh' \<longrightarrow>
      sh_end sh' \<notin> {Some (Exits 0), Some (Exits 1), Some (Exits 137)}"
  shows "\<exists>k t. \<forall>j\<ge>k. \<exists>sh. s_shims (run j) pid = Some sh \<and> stopping sh t"
proof -
  have next_pc: "\<exists>sh'. s_shims (run (Suc k)) pid = Some sh'
      \<and> (\<exists>t'. stopping sh' t' \<and> (t' = t \<or> tries_rank t' < tries_rank t))"
    if "s_shims (run k) pid = Some sh" "stopping sh t" for k sh t
    using run that stopping_sys [OF _ that] alive unfolding execution_def by metis
  have "\<exists>sh t. s_shims (run k) pid = Some sh \<and> stopping sh t" for k
    by (induction k) (use start next_pc in blast)+
  then obtain S T where ST: "\<And>k. s_shims (run k) pid = Some (S k)" "\<And>k. stopping (S k) (T k)" by metis
  have "T (Suc k) = T k \<or> tries_rank (T (Suc k)) < tries_rank (T k)" for k
    using next_pc [OF ST(1,2) [of k]] ST [of "Suc k"] by (auto simp: stopping_def)
  then obtain K where "\<forall>j\<ge>K. T j = T K" using eventually_constant [of T tries_rank] by blast
  then show ?thesis using ST by metis
qed

lemma stuck_hangs:
  assumes run: "execution labels run" and fair: "stop_fair labels pid run"
    and stuck: "\<And>j. k \<le> j \<Longrightarrow> \<exists>sh. s_shims (run j) pid = Some sh \<and> stopping sh t"
  shows "\<exists>rs i. t = Calling rs i \<and> (\<forall>j\<ge>k. unanswered i (s_net (run j)))"
proof (rule ccontr)
  assume not_hung: "\<not> ?thesis"
  have "\<exists>m\<ge>k. \<forall>j\<ge>m. \<forall>rs i. t = Calling rs i \<longrightarrow> \<not> unanswered i (s_net (run j))"
  proof (cases "\<exists>rs i. t = Calling rs i")
    case True
    then obtain rs i where t: "t = Calling rs i" by blast
    with not_hung have "\<exists>m\<ge>k. \<not> unanswered i (s_net (run m))" by blast
    with answered_before [OF run] t show ?thesis by blast
  qed blast
  then obtain m where m: "k \<le> m" "\<And>j rs i. m \<le> j \<Longrightarrow> t = Calling rs i \<Longrightarrow> \<not> unanswered i (s_net (run j))" by blast
  have "\<exists>u. stop_step (labels j) pid (run j) u" if "m \<le> j" for j
    using stop_ready [of "run j" pid _ t] stuck [of j] m that by (meson le_trans)
  then obtain j where "m \<le> j" "stop_step (labels j) pid (run j) (run (Suc j))"
    using fair unfolding stop_fair_def by blast
  with stop_step_rank stuck m(1) show False by (meson le_SucI le_trans)
qed

lemma execution_keeps:
  assumes "execution labels run" and "s_shims (run k) pid = Some sh" and "k \<le> j"
  shows "\<exists>sh'. s_shims (run j) pid = Some sh' \<and> sh_proxy sh' = sh_proxy sh"
  using assms(3)
proof (induction rule: dec_induct)
  case (step m)
  then obtain sh' where "s_shims (run m) pid = Some sh'" "sh_proxy sh' = sh_proxy sh" by blast
  with assms(1) sys_step_keeps show ?case by (metis execution_def)
qed (use assms(2) in simp)

lemma hung_forever:
  assumes run: "execution labels run" and "s_shims (run k) pid = Some sh" and "stopping sh (Calling rs i)"
    and "\<And>j. k \<le> j \<Longrightarrow> unanswered i (s_net (run j))" and "k \<le> j"
  shows "\<exists>sh'. s_shims (run j) pid = Some sh' \<and> (stopping sh' (Calling rs i) \<or> sh_end sh' = Some (Exits 137))"
  using assms(5)
proof (induction rule: dec_induct)
  case base
  with assms(2,3) show ?case by simp
next
  case (step m)
  then obtain sh' where sh': "s_shims (run m) pid = Some sh'" "stopping sh' (Calling rs i) \<or> sh_end sh' = Some (Exits 137)"
    by blast
  have "run (Suc m) = run m \<or> sys_step (labels m) (run m) (run (Suc m))" using run by (simp add: execution_def)
  then show ?case
  proof
    assume step': "sys_step (labels m) (run m) (run (Suc m))"
    from sh'(2) show ?thesis
    proof
      assume "stopping sh' (Calling rs i)"
      with hung_step [OF step' sh'(1)] assms(4) step.hyps show ?thesis by simp
    next
      assume "sh_end sh' = Some (Exits 137)"
      with ended_step [OF step' sh'(1)] show ?thesis by simp
    qed
  qed (use sh' in simp)
qed

lemma hung_no_stop_step:
  assumes "s_shims s pid = Some sh" and "stopping sh (Calling rs i)" and "unanswered i (s_net s)"
  shows "\<not> stop_step labels pid s t"
proof
  assume "stop_step labels pid s t"
  then obtain sh' n' where "shim_step labels (sh, s_net s) (sh', n')"
      and moved: "sh_stop sh' \<noteq> sh_stop sh \<or> sh_end sh' \<in> {Some (Exits 0), Some (Exits 1)}"
    using assms(1) by (auto simp: stop_step_def)
  then show False
    using assms(2,3) by cases (auto simp: stopping_def unanswered_def elim: try_stepE)
qed

section \<open>Properties\<close>

text \<open>
  C21: The stop signal ends a shim that Docker started, unless a call hangs. Take any execution of shims,
  server and network that is fair to the stop goroutine, with the signal come to a shim in whatever
  state its \<open>Run\<close> is. Either the process ends, with status 0 or 1 or because it is killed; or from
  some moment on the goroutine waits in one call that the server never replies to and whose
  connection never breaks. Failing look-ups and calls can only use up the attempts. Such a call does
  hold the shim for good: it has no deadline, so that nothing but a kill ends the process while the
  call has no answer.
\<close>

theorem stop_signal_ends:
  assumes "execution labels run" and "stop_fair labels pid run"
    and "s_shims (run 0) pid = Some sh" and "sh_stop sh = Stop_Tries t" and "sh_end sh = None" and "\<not> px_Reload (sh_proxy sh)"
  shows "((\<exists>k sh' c. s_shims (run k) pid = Some sh' \<and> sh_end sh' = Some (Exits c) \<and> c \<in> {0, 1, 137})
      \<or> (\<exists>k rs i. \<forall>j\<ge>k. \<exists>sh'. s_shims (run j) pid = Some sh' \<and> sh_end sh' = None
           \<and> sh_stop sh' = Stop_Tries (Calling rs i) \<and> unanswered i (s_net (run j))))
    \<and> (\<forall>k rs i sh'. s_shims (run k) pid = Some sh' \<and> sh_end sh' = None \<and> sh_stop sh' = Stop_Tries (Calling rs i)
           \<and> (\<forall>j\<ge>k. unanswered i (s_net (run j)))
         \<longrightarrow> (\<forall>j\<ge>k. \<exists>sh''. s_shims (run j) pid = Some sh'' \<and> sh_end sh'' \<in> {None, Some (Exits 137)}))"
    (is "(?ends \<or> ?hangs) \<and> ?held")
proof
  have start: "stopping sh t"
    using tries_inv_reachable [OF execution_reachable [OF assms(1), of 0]] assms(3-6)
    by (auto simp: tries_inv_def stopping_def)
  show "?ends \<or> ?hangs"
  proof (cases ?ends)
    case False
    then have alive: "\<forall>k sh'. s_shims (run k) pid = Some sh' \<longrightarrow>
        sh_end sh' \<notin> {Some (Exits 0), Some (Exits 1), Some (Exits 137)}" by blast
    obtain k t where stuck: "\<And>j. k \<le> j \<Longrightarrow> \<exists>sh. s_shims (run j) pid = Some sh \<and> stopping sh t"
      using stuck_somewhere [OF assms(1,3) start alive] by blast
    then obtain rs i where "t = Calling rs i" "\<forall>j\<ge>k. unanswered i (s_net (run j))"
      using stuck_hangs [OF assms(1,2)] by blast
    with stuck have ?hangs unfolding stopping_def by (intro exI [of _ k] exI [of _ rs] exI [of _ i]) fastforce
    then show ?thesis ..
  qed simp
  show ?held
  proof (intro allI impI, elim conjE)
    fix k rs i sh' j
    assume held: "s_shims (run k) pid = Some sh'" "sh_end sh' = None" "sh_stop sh' = Stop_Tries (Calling rs i)"
      "\<forall>j\<ge>k. unanswered i (s_net (run j))" "k \<le> j"
    have "sh_proxy sh' = sh_proxy sh" using execution_keeps [OF assms(1,3), of k] held(1) by simp
    with held assms(6) have "stopping sh' (Calling rs i)" by (simp add: stopping_def)
    with hung_forever [OF assms(1) held(1) _ _ held(5)] held(4)
    show "\<exists>sh''. s_shims (run j) pid = Some sh'' \<and> sh_end sh'' \<in> {None, Some (Exits 137)}"
      by (fastforce simp: stopping_def)
  qed
qed

text \<open>The server has accepted the request to deregister the port, and hangs.\<close>

definition demo_hung :: "unit sys" where
  "demo_hung = one_shim (Run_Tries Succeeded) (Stop_Tries (Calling [500, 1000, 1500] 1)) None
     (demo_net demo_registered [1 \<mapsto> demo_deregister] {0} 2)"

lemma demo_hung: "sys_reachable demo_hung"
proof -
  have "sys_reachable (one_shim (Run_Tries Succeeded) (Stop_Tries (Trying [100, 500, 1000, 1500])) None
      (demo_net demo_registered Map.empty {0} 1))"
    by (rule sys_reachable.step [OF demo_up demo_steps(4)])
  then have "sys_reachable (one_shim (Run_Tries Succeeded) (Stop_Tries (Calling [500, 1000, 1500] 1)) None
      (demo_net demo_registered [1 \<mapsto> demo_deregister] {0} (Suc 1)))"
    by (rule sys_reachable.step [OF _ demo_steps(5)])
  then show ?thesis by (simp add: demo_hung_def numeral_2_eq_2)
qed

lemma stop_signal_ends_witness:
  "\<exists>run. execution (\<lambda>_. demo_labels) run \<and> stop_fair (\<lambda>_. demo_labels) 0 run \<and> run 0 = demo_hung
     \<and> (\<forall>j. \<exists>sh. s_shims (run j) 0 = Some sh \<and> sh_end sh \<in> {None, Some (Exits 137)})"
proof -
  let ?run = "\<lambda>k :: nat. demo_hung" and ?pc = "Calling [500, 1000, 1500] 1"
  let ?sh = "\<lparr>sh_proxy = demo_port, sh_run = Run_Tries Succeeded, sh_stop = Stop_Tries ?pc, sh_end = None\<rparr>"
  have sh: "s_shims demo_hung 0 = Some ?sh" "stopping ?sh ?pc" "unanswered 1 (s_net demo_hung)"
    by (simp_all add: demo_hung_def one_shim_def stopping_def demo_port unanswered_def demo_net_def)
  have run: "execution (\<lambda>_. demo_labels) ?run" using demo_hung by (simp add: execution_def)
  have fair: "stop_fair (\<lambda>_. demo_labels) 0 ?run" using hung_no_stop_step [OF sh] by (auto simp: stop_fair_def)
  have "sh_stop ?sh = Stop_Tries ?pc" "sh_end ?sh = None" "\<not> px_Reload (sh_proxy ?sh)"
    using demo_port(1) by simp_all
  note held = conjunct2 [OF stop_signal_ends [OF run fair sh(1) this]]
  have "\<exists>sh. s_shims (?run j) 0 = Some sh \<and> sh_end sh \<in> {None, Some (Exits 137)}" for j
    using held [THEN spec [of _ 0], THEN spec [of _ "[500, 1000, 1500]"], THEN spec [of _ 1], THEN spec [of _ ?sh]] sh(1,3)
    by simp
  with run fair show ?thesis by blast
qed

end
