(* ===== verification/ServerMain.thy ===== *)
theory ServerMain
  imports EnvoyApi EnvoyProxy "HOL-Library.Sublist"
begin

text \<open>
  The server's entry point (\<open>cmd/envoy-docker-server/main.go\<close>): the configuration, and the three goroutines
  of \<open>main\<close>, \<open>serveGRPC\<close>, \<open>serveHttp\<close> and \<open>handleStopSignals\<close>, as steps that interleave with each
  other and with those of other servers on the same host, whose files they share. The process ends
  with the first goroutine that ends it.
\<close>

section \<open>strings\<close>

definition Contains :: "string \<Rightarrow> string \<Rightarrow> bool" where
  "Contains s sub = sublist sub s"

text \<open>\<open>strings.Replace(s, old, new, 1)\<close>: the first occurrence.\<close>

fun Replace1 :: "string \<Rightarrow> string \<Rightarrow> string \<Rightarrow> string" where
  "Replace1 [] old new = (if old = [] then new else [])"
| "Replace1 (c # s) old new =
     (if prefix old (c # s) then new @ drop (length old) (c # s) else c # Replace1 s old new)"

text \<open>\<open>http.StripPrefix\<close>: a path without the prefix is answered with 404.\<close>

definition StripPrefix :: "string \<Rightarrow> string \<Rightarrow> string option" where
  "StripPrefix p path = (if prefix p path then Some (drop (length p) path) else None)"

section \<open>Configuration\<close>

record Config =
  cfg_GrpcAddr :: string
  cfg_ApiAddr :: string

text \<open>The defaults of the struct's tags, for the settings that the environment does not have.\<close>

definition process_config :: "string option \<Rightarrow> string option \<Rightarrow> Config" where
  "process_config grpc api =
     \<lparr>cfg_GrpcAddr = (case grpc of None \<Rightarrow> ''unix:///tmp/docker-envoy.sock'' | Some a \<Rightarrow> a),
      cfg_ApiAddr = (case api of None \<Rightarrow> '':7776'' | Some a \<Rightarrow> a)\<rparr>"

text \<open>The path that \<open>serveGRPC\<close> listens at.\<close>

definition grpc_path :: "string \<Rightarrow> string" where
  "grpc_path addr = Replace1 addr ''unix://'' []"

section \<open>HTTP\<close>

text \<open>The router of \<open>serveHttp\<close>: the routes of the API under the prefix \<open>/v1\<close>, the rest not found.\<close>

definition serveHttp ::
  "(Route list \<Rightarrow> string \<Rightarrow> string \<Rightarrow> (Route \<times> (string \<rightharpoonup> string)) option)
   \<Rightarrow> 'b fflib \<Rightarrow> ((string \<rightharpoonup> string) \<Rightarrow> string list) \<Rightarrow> string list \<Rightarrow> string \<Rightarrow> Registrar
   \<Rightarrow> string \<Rightarrow> string \<Rightarrow> Response option" where
  "serveHttp router L ord ks now registrar verb path =
     (case StripPrefix ''/v1'' path of
        None \<Rightarrow> None
      | Some rest \<Rightarrow> serve router L ord ks now registrar verb rest)"

text \<open>
  The router is registered for all paths of the default multiplexer, beside the handlers that
  \<open>envoy_api.go\<close> gets by importing \<open>net/http/pprof\<close>.
\<close>

definition DefaultServeMux ::
  "(string \<Rightarrow> string \<Rightarrow> 'r) \<Rightarrow> (string \<Rightarrow> string \<Rightarrow> 'r) \<Rightarrow> string \<Rightarrow> string \<Rightarrow> 'r" where
  "DefaultServeMux pprof handler verb path =
     (if path = ''/debug/pprof'' \<or> prefix ''/debug/pprof/'' path then pprof verb path else handler verb path)"

lemma DefaultServeMux_v1 [simp]: "DefaultServeMux pprof handler verb (''/v1'' @ rest) = handler verb (''/v1'' @ rest)"
  by (simp add: DefaultServeMux_def)

section \<open>The process\<close>

text \<open>
  Where the goroutines are. \<open>serveGRPC\<close> listens, then serves what it listens at; a failed \<open>Serve\<close> is
  followed by the end of the process.
\<close>

datatype grpc_pc = G_Listen | G_Serve string | G_Failed string
datatype http_pc = H_Listen | H_Serve
datatype signal_pc = S_Wait | S_Exit

record server =
  sv_config :: Config
  sv_grpc :: grpc_pc
  sv_http :: http_pc
  sv_signal :: signal_pc
  sv_registrar :: Registrar
  sv_end :: "unit outcome option"

text \<open>
  \<open>main\<close>, with what \<open>envconfig\<close> read of the environment: an error, which ends the process, or the two
  settings. The goroutines start with a new registrar.
\<close>

definition server_main :: "goerror + (string option \<times> string option) \<Rightarrow> server" where
  "server_main envconfig =
     (case envconfig of
        Inl err \<Rightarrow>
          \<lparr>sv_config = \<lparr>cfg_GrpcAddr = [], cfg_ApiAddr = []\<rparr>, sv_grpc = G_Listen, sv_http = H_Listen,
           sv_signal = S_Wait, sv_registrar = NewRegistrar, sv_end = Some (Exits 1)\<rparr>
      | Inr (grpc, api) \<Rightarrow>
          \<lparr>sv_config = process_config grpc api, sv_grpc = G_Listen, sv_http = H_Listen,
           sv_signal = S_Wait, sv_registrar = NewRegistrar, sv_end = None\<rparr>)"

text \<open>
  The files at socket paths, each with the process that made it. Listening at a path makes a file,
  and fails where there is one; a name that begins with \<open>@\<close>, or no name, makes none.
\<close>

type_synonym files = "string \<rightharpoonup> nat"

definition socket_file :: "string \<Rightarrow> bool" where
  "socket_file path \<longleftrightarrow> path \<noteq> [] \<and> hd path \<noteq> CHR ''@''"

definition bind_socket :: "nat \<Rightarrow> string \<Rightarrow> files \<Rightarrow> files" where
  "bind_socket pid path files = (if socket_file path then files(path \<mapsto> pid) else files)"

text \<open>
  The main goroutine. Listening and serving can fail for reasons of the operating system; a listener
  that is closed may take its file with it.
\<close>

inductive serveGRPC :: "nat \<Rightarrow> server \<times> files \<Rightarrow> server \<times> files \<Rightarrow> bool" for pid where
  grpc_listens: "sv_grpc sv = G_Listen \<Longrightarrow> path = grpc_path (cfg_GrpcAddr (sv_config sv)) \<Longrightarrow> files path = None \<Longrightarrow>
    serveGRPC pid (sv, files) (sv\<lparr>sv_grpc := G_Serve path\<rparr>, bind_socket pid path files)"
| grpc_listen_fails: "sv_grpc sv = G_Listen \<Longrightarrow>
    serveGRPC pid (sv, files) (sv\<lparr>sv_end := Some (Exits 1)\<rparr>, files)"
| grpc_call: "sv_grpc sv = G_Serve path \<Longrightarrow> Register req (sv_registrar sv) = (reply, r) \<Longrightarrow>
    serveGRPC pid (sv, files) (sv\<lparr>sv_registrar := r\<rparr>, files)"
| grpc_serve_fails: "sv_grpc sv = G_Serve path \<Longrightarrow> files' = files \<or> files' = files(path := None) \<Longrightarrow>
    serveGRPC pid (sv, files) (sv\<lparr>sv_grpc := G_Failed path, sv_end := Some (Exits 1)\<rparr>, files')"

text \<open>\<open>ListenAndServe\<close> comes back only with an error, before or after it has listened.\<close>

inductive http_ListenAndServe :: "server \<Rightarrow> server \<Rightarrow> bool" where
  http_listens: "sv_http sv = H_Listen \<Longrightarrow> http_ListenAndServe sv (sv\<lparr>sv_http := H_Serve\<rparr>)"
| http_fails: "http_ListenAndServe sv (sv\<lparr>sv_end := Some (Exits 1)\<rparr>)"

text \<open>The reaction to a signal: \<open>os.Remove\<close> of the socket's path, if the address has the scheme, then the end.\<close>

inductive server_handleStopSignals :: "server \<times> files \<Rightarrow> server \<times> files \<Rightarrow> bool" where
  stop_removes: "sv_signal sv = S_Wait \<Longrightarrow> addr = cfg_GrpcAddr (sv_config sv) \<Longrightarrow> Contains addr ''unix:'' \<Longrightarrow>
    files (Replace1 addr ''unix://'' []) \<noteq> None \<Longrightarrow>
    server_handleStopSignals (sv, files) (sv\<lparr>sv_signal := S_Exit\<rparr>, files(Replace1 addr ''unix://'' [] := None))"
| stop_cannot_remove: "sv_signal sv = S_Wait \<Longrightarrow> Contains (cfg_GrpcAddr (sv_config sv)) ''unix:'' \<Longrightarrow>
    server_handleStopSignals (sv, files) (sv\<lparr>sv_end := Some (Exits 1)\<rparr>, files)"
| stop_no_scheme: "sv_signal sv = S_Wait \<Longrightarrow> \<not> Contains (cfg_GrpcAddr (sv_config sv)) ''unix:'' \<Longrightarrow>
    server_handleStopSignals (sv, files) (sv\<lparr>sv_signal := S_Exit\<rparr>, files)"
| stop_exits: "sv_signal sv = S_Exit \<Longrightarrow>
    server_handleStopSignals (sv, files) (sv\<lparr>sv_end := Some (Exits 0)\<rparr>, files)"

inductive server_step :: "nat \<Rightarrow> server \<times> files \<Rightarrow> server \<times> files \<Rightarrow> bool" for pid where
  srv_grpc: "serveGRPC pid (sv, files) (sv', files') \<Longrightarrow> server_step pid (sv, files) (sv', files')"
| srv_http: "http_ListenAndServe sv sv' \<Longrightarrow> server_step pid (sv, files) (sv', files)"
| srv_signal: "server_handleStopSignals (sv, files) (sv', files') \<Longrightarrow> server_step pid (sv, files) (sv', files')"
| srv_killed: "server_step pid (sv, files) (sv\<lparr>sv_end := Some (Exits 137)\<rparr>, files)"

inductive_cases serveGRPCE: "serveGRPC pid (sv, files) (sv', files')"
inductive_cases http_ListenAndServeE: "http_ListenAndServe sv sv'"
inductive_cases server_handleStopSignalsE: "server_handleStopSignals (sv, files) (sv', files')"
inductive_cases server_stepE: "server_step pid (sv, files) (sv', files')"

lemmas server_step_cases = serveGRPCE http_ListenAndServeE server_handleStopSignalsE

section \<open>Paths\<close>

lemma Replace1_prefix: "old \<noteq> [] \<Longrightarrow> Replace1 (old @ s) old new = new @ s"
proof (cases old)
  case (Cons c cs)
  then show ?thesis by simp
qed simp

lemma Replace1_absent: "\<not> sublist old s \<Longrightarrow> Replace1 s old new = s"
  by (induction s) (auto simp: sublist_Cons_right)

lemma grpc_path_plain: "\<not> Contains addr ''unix:'' \<Longrightarrow> grpc_path addr = addr"
proof -
  assume "\<not> Contains addr ''unix:''"
  moreover have "sublist ''unix:'' ''unix://''" by (simp add: sublist_Cons_right)
  ultimately have "\<not> sublist ''unix://'' addr"
    unfolding Contains_def using sublist_order.order_trans by blast
  then show ?thesis by (simp add: grpc_path_def Replace1_absent)
qed

lemma grpc_path_unix: "grpc_path (''unix://'' @ path) = path"
  unfolding grpc_path_def by (subst Replace1_prefix) simp_all

end
