(* ===== verification/ServerHost.thy ===== *)
theory ServerHost
  imports ServerMain
begin

text \<open>
  Servers on one host: they are started, by systemd or by hand, run in every interleaving of their
  goroutines, and end. The theory follows the files at their socket paths, which outlive them, and
  says who takes a connection to a path.
\<close>

section \<open>The host\<close>

record host =
  h_files :: files
  h_servers :: "nat \<rightharpoonup> server"

text \<open>Servers are started, and run until they end. Nothing else touches the files at socket paths.\<close>

inductive host_step :: "host \<Rightarrow> host \<Rightarrow> bool" where
  host_start: "h_servers h pid = None \<Longrightarrow>
    host_step h (h\<lparr>h_servers := (h_servers h)(pid \<mapsto> server_main envconfig)\<rparr>)"
| host_server: "h_servers h pid = Some sv \<Longrightarrow> sv_end sv = None \<Longrightarrow>
    server_step pid (sv, h_files h) (sv', files') \<Longrightarrow>
    host_step h (h\<lparr>h_servers := (h_servers h)(pid \<mapsto> sv'), h_files := files'\<rparr>)"

definition host_init :: host where
  "host_init = \<lparr>h_files = Map.empty, h_servers = Map.empty\<rparr>"

inductive host_reachable :: "host \<Rightarrow> bool" where
  host_init: "host_reachable host_init"
| host_next: "host_reachable h \<Longrightarrow> host_step h h' \<Longrightarrow> host_reachable h'"

inductive_cases host_stepE: "host_step h h'"

text \<open>Who takes a connection to a socket: the server that made the file, as long as it serves.\<close>

definition dial :: "host \<Rightarrow> string \<Rightarrow> nat option" where
  "dial h path =
     (case h_files h path of
        None \<Rightarrow> None
      | Some pid \<Rightarrow>
          (case h_servers h pid of
             None \<Rightarrow> None
           | Some sv \<Rightarrow> if sv_end sv = None \<and> sv_grpc sv = G_Serve path then Some pid else None))"

section \<open>Whose sockets\<close>

abbreviation path_of :: "server \<Rightarrow> string" where
  "path_of sv \<equiv> grpc_path (cfg_GrpcAddr (sv_config sv))"

text \<open>The path that a server has listened at.\<close>

fun listened :: "grpc_pc \<Rightarrow> string option" where
  "listened G_Listen = None"
| "listened (G_Serve path) = Some path"
| "listened (G_Failed path) = Some path"

lemma server_step_config: "server_step pid (sv, files) (sv', files') \<Longrightarrow> sv_config sv' = sv_config sv"
  by (erule server_stepE) (auto elim: server_step_cases)

lemma server_step_listened:
  "server_step pid (sv, files) (sv', files') \<Longrightarrow>
     listened (sv_grpc sv') = listened (sv_grpc sv)
     \<or> listened (sv_grpc sv) = None \<and> listened (sv_grpc sv') = Some (path_of sv)"
  by (elim server_stepE server_step_cases) auto

lemma server_step_files:
  "server_step pid (sv, files) (sv', files') \<Longrightarrow> files' path = Some q \<Longrightarrow>
     files path = Some q \<or> q = pid \<and> listened (sv_grpc sv') = Some path"
  by (elim server_stepE server_step_cases) (auto simp: bind_socket_def split: if_splits)

text \<open>A server listens at the path of its address, and has made every file that is said to be its own.\<close>

definition host_inv :: "host \<Rightarrow> bool" where
  "host_inv h \<longleftrightarrow>
     (\<forall>pid sv path. h_servers h pid = Some sv \<longrightarrow> listened (sv_grpc sv) = Some path \<longrightarrow> path = path_of sv)
     \<and> (\<forall>pid path. h_files h path = Some pid \<longrightarrow>
          (\<exists>sv. h_servers h pid = Some sv \<and> listened (sv_grpc sv) = Some path))"

lemma server_main_start: "sv_grpc (server_main envconfig) = G_Listen" "sv_signal (server_main envconfig) = S_Wait"
  by (simp_all add: server_main_def split: sum.split)

lemma host_inv_step:
  assumes "host_step h h'" and "host_inv h"
  shows "host_inv h'"
  using assms(1)
proof cases
  case (host_start pid envconfig)
  with assms(2) server_main_start(1) [of envconfig] show ?thesis
    unfolding host_inv_def by (fastforce split: if_splits)
next
  case (host_server pid sv sv' files')
  have own: "path = path_of sv'" if "listened (sv_grpc sv') = Some path" for path
    using server_step_listened [OF host_server(4)] server_step_config [OF host_server(4)] assms(2) host_server(2) that
    unfolding host_inv_def by auto
  have "\<exists>sv. h_servers h' q = Some sv \<and> listened (sv_grpc sv) = Some path" if "files' path = Some q" for path q
  proof (cases "h_files h path = Some q")
    case True
    with assms(2) obtain sv1 where "h_servers h q = Some sv1" "listened (sv_grpc sv1) = Some path"
      unfolding host_inv_def by blast
    with host_server(1,2) server_step_listened [OF host_server(4)] show ?thesis by (cases "q = pid") auto
  next
    case False
    with server_step_files [OF host_server(4) that] host_server(1) show ?thesis by auto
  qed
  with own assms(2) host_server(1) show ?thesis unfolding host_inv_def by (auto split: if_splits)
qed

lemma host_inv_reachable: "host_reachable h \<Longrightarrow> host_inv h"
proof (induction rule: host_reachable.induct)
  case host_init
  then show ?case by (simp add: host_inv_def host_init_def)
qed (rule host_inv_step)

lemma file_owner:
  assumes "host_inv h" and "h_files h path = Some pid"
  shows "\<exists>sv. h_servers h pid = Some sv \<and> listened (sv_grpc sv) = Some path \<and> path_of sv = path"
proof -
  obtain sv where "h_servers h pid = Some sv" "listened (sv_grpc sv) = Some path"
    using assms unfolding host_inv_def by blast
  then show ?thesis using assms(1) unfolding host_inv_def by auto
qed

text \<open>A server stays in the table, with its configuration.\<close>

lemma host_step_keeps:
  "host_step h h' \<Longrightarrow> h_servers h pid = Some sv \<Longrightarrow>
     \<exists>sv'. h_servers h' pid = Some sv' \<and> sv_config sv' = sv_config sv"
  by (erule host_stepE) (auto dest: server_step_config)

text \<open>The only server for a path, of all that have been started.\<close>

definition only_at :: "host \<Rightarrow> nat \<Rightarrow> string \<Rightarrow> bool" where
  "only_at h pid path \<longleftrightarrow> (\<forall>q sv. h_servers h q = Some sv \<longrightarrow> q \<noteq> pid \<longrightarrow> path_of sv \<noteq> path)"

lemma only_at_before: "host_step h h' \<Longrightarrow> only_at h' pid path \<Longrightarrow> only_at h pid path"
  unfolding only_at_def by (metis host_step_keeps)

text \<open>
  What becomes of the only server's socket: it lies at the path from the moment of listening on, and is
  taken away by the signal alone, and only when the address has the scheme.
\<close>

definition socket_inv :: "nat \<Rightarrow> string \<Rightarrow> server \<Rightarrow> files \<Rightarrow> bool" where
  "socket_inv pid path sv files \<longleftrightarrow>
     (let removed = (sv_signal sv = S_Exit \<and> Contains (cfg_GrpcAddr (sv_config sv)) ''unix:'') in
      (case sv_grpc sv of
         G_Listen \<Rightarrow> files path = None \<and> \<not> removed
       | G_Serve p \<Rightarrow> files path = (if removed then None else Some pid)
       | G_Failed p \<Rightarrow> True))"

lemma socket_inv_own:
  assumes "server_step pid (sv, files) (sv', files')" and "socket_file path" and "path = path_of sv"
    and "socket_inv pid path sv files" and "listened (sv_grpc sv) \<in> {None, Some path}"
  shows "socket_inv pid path sv' files'"
  using assms by (elim server_stepE server_step_cases)
    (auto simp: socket_inv_def bind_socket_def grpc_path_def Let_def split: if_splits grpc_pc.splits)

lemma socket_other:
  assumes "server_step pid (sv, files) (sv', files')" and "path_of sv \<noteq> path"
    and "\<And>p. listened (sv_grpc sv) = Some p \<Longrightarrow> p = path_of sv"
  shows "files' path = files path"
  using assms by (elim server_stepE server_step_cases)
    (auto simp: bind_socket_def grpc_path_def split: if_splits)

lemma socket_inv_reachable:
  assumes "host_reachable h" and "h_servers h pid = Some sv" and "path = path_of sv"
    and "only_at h pid path" and "socket_file path"
  shows "socket_inv pid path sv (h_files h)"
  using assms
proof (induction arbitrary: sv rule: host_reachable.induct)
  case host_init
  then show ?case by (simp add: host_init_def)
next
  case (host_next h h')
  have inv: "host_inv h" by (rule host_inv_reachable [OF host_next.hyps(1)])
  have only: "only_at h pid path" by (rule only_at_before [OF host_next.hyps(2) host_next.prems(3)])
  from host_next.hyps(2) show ?case
  proof cases
    case (host_start q envconfig)
    show ?thesis
    proof (cases "q = pid")
      case True
      have "h_files h path \<noteq> Some r" for r
      proof
        assume "h_files h path = Some r"
        then obtain sv1 where "h_servers h r = Some sv1" "path_of sv1 = path" using file_owner [OF inv] by blast
        with only host_start(2) True show False by (cases "r = pid") (auto simp: only_at_def)
      qed
      with host_start True host_next.prems(1) server_main_start [of envconfig] show ?thesis
        by (auto simp: socket_inv_def)
    next
      case False
      with host_start host_next.prems host_next.IH only show ?thesis by simp
    qed
  next
    case (host_server q sv1 sv1' files')
    have listens: "p = path_of sv1" if "listened (sv_grpc sv1) = Some p" for p
      using inv host_server(2) that unfolding host_inv_def by blast
    show ?thesis
    proof (cases "q = pid")
      case True
      with host_server host_next.prems(1) server_step_config [OF host_server(4)]
      have sv: "h_servers h pid = Some sv1" "sv = sv1'" "path_of sv1 = path_of sv" by simp_all
      have "socket_inv pid path sv1 (h_files h)"
        using host_next.IH [OF sv(1)] only host_next.prems(2,4) sv(3) by simp
      moreover have "listened (sv_grpc sv1) \<in> {None, Some path}"
        using listens sv(3) host_next.prems(2) by (cases "listened (sv_grpc sv1)") auto
      ultimately show ?thesis
        using socket_inv_own [OF host_server(4)] host_next.prems(2,4) sv True host_server(1) by auto
    next
      case False
      with host_server host_next.prems have "h_servers h pid = Some sv" "path_of sv1 \<noteq> path"
        using only by (auto simp: only_at_def)
      have "files' path = h_files h path"
        by (rule socket_other [OF host_server(4) \<open>path_of sv1 \<noteq> path\<close> listens])
      then have "h_files h' path = h_files h path" using host_server(1) by simp
      moreover have "socket_inv pid path sv (h_files h)"
        using host_next.IH [OF \<open>h_servers h pid = Some sv\<close>] only host_next.prems(2,4) by simp
      ultimately show ?thesis unfolding socket_inv_def by (simp only:)
    qed
  qed
qed

text \<open>Status 0 is for the signal only.\<close>

lemma exit_signalled: "host_reachable h \<Longrightarrow> h_servers h pid = Some sv \<Longrightarrow> sv_end sv = Some (Exits 0) \<Longrightarrow> sv_signal sv = S_Exit"
proof (induction arbitrary: sv rule: host_reachable.induct)
  case host_init
  then show ?case by (simp add: host_init_def)
next
  case (host_next h h')
  from host_next.hyps(2) show ?case
  proof cases
    case (host_start q envconfig)
    have "sv_end (server_main envconfig) \<noteq> Some (Exits 0)" by (simp add: server_main_def split: sum.split)
    with host_start host_next.prems host_next.IH show ?thesis by (auto split: if_splits)
  next
    case (host_server q sv1 sv1' files')
    have "sv_end sv1' = Some (Exits 0) \<Longrightarrow> sv_signal sv1' = S_Exit"
      using host_server(3,4) by (elim server_stepE server_step_cases) auto
    with host_server host_next.prems host_next.IH show ?thesis by (auto split: if_splits)
  qed
qed

section \<open>A socket left behind\<close>

text \<open>
  The file of a server that has ended stays where it is, and every other server for the path ends
  without having served, as long as no signal comes to one.
\<close>

definition stale_inv :: "nat \<Rightarrow> string \<Rightarrow> host \<Rightarrow> bool" where
  "stale_inv pid path h \<longleftrightarrow>
     h_files h path = Some pid
     \<and> (\<exists>sv. h_servers h pid = Some sv \<and> sv_end sv \<noteq> None)
     \<and> (\<forall>q sv. h_servers h q = Some sv \<longrightarrow> q \<noteq> pid \<longrightarrow> path_of sv = path \<longrightarrow>
          sv_grpc sv = G_Listen \<and> sv_end sv \<in> {None, Some (Exits 1), Some (Exits 137)})"

definition no_signal :: "string \<Rightarrow> nat \<Rightarrow> host \<Rightarrow> bool" where
  "no_signal path pid h \<longleftrightarrow>
     (\<forall>q sv. h_servers h q = Some sv \<longrightarrow> q \<noteq> pid \<longrightarrow> path_of sv = path \<longrightarrow> sv_signal sv = S_Wait)"

lemma signal_stays: "server_step pid (sv, files) (sv', files') \<Longrightarrow> sv_signal sv' = S_Wait \<Longrightarrow> sv_signal sv = S_Wait"
  by (elim server_stepE server_step_cases) auto

lemma no_signal_before:
  assumes "host_step h h'" and "no_signal path pid h'"
  shows "no_signal path pid h"
  using assms(1)
proof cases
  case (host_start q envconfig)
  then have "h_servers h r = Some sv \<Longrightarrow> h_servers h' r = Some sv" for r sv by auto
  with assms(2) show ?thesis unfolding no_signal_def by blast
next
  case (host_server q sv sv' files')
  show ?thesis
    unfolding no_signal_def
  proof (intro allI impI)
    fix r sv1 assume "h_servers h r = Some sv1" "r \<noteq> pid" "path_of sv1 = path"
    with assms(2) [unfolded no_signal_def, rule_format, of r] host_server(1,2) signal_stays [OF host_server(4)]
      server_step_config [OF host_server(4)]
    show "sv_signal sv1 = S_Wait" by (cases "r = q") auto
  qed
qed

lemma server_step_blocked:
  assumes "server_step q (sv, files) (sv', files')" and "sv_grpc sv = G_Listen" and "files (path_of sv) \<noteq> None"
    and "sv_signal sv' = S_Wait" and "sv_end sv = None"
  shows "files' = files \<and> sv_grpc sv' = G_Listen \<and> sv_end sv' \<in> {None, Some (Exits 1), Some (Exits 137)}"
  using assms by (elim server_stepE server_step_cases) auto

lemma stale_inv_step:
  assumes "host_step h h'" and "stale_inv pid path h" and "no_signal path pid h'" and "host_inv h"
  shows "stale_inv pid path h'"
  using assms(1)
proof cases
  case (host_start q envconfig)
  have "sv_end (server_main envconfig) \<in> {None, Some (Exits 1)}" by (simp add: server_main_def split: sum.split)
  with host_start assms(2) server_main_start(1) [of envconfig] show ?thesis
    unfolding stale_inv_def by (auto split: if_splits)
next
  case (host_server q sv sv' files')
  have "q \<noteq> pid" using host_server(2,3) assms(2) by (auto simp: stale_inv_def)
  show ?thesis
  proof (cases "path_of sv = path")
    case True
    then have "sv_signal sv' = S_Wait"
      using assms(3) [unfolded no_signal_def, rule_format, of q sv'] host_server(1) \<open>q \<noteq> pid\<close>
        server_step_config [OF host_server(4)] by simp
    with server_step_blocked [OF host_server(4)] True \<open>q \<noteq> pid\<close> assms(2) host_server(2,3)
    have "files' = h_files h \<and> sv_grpc sv' = G_Listen \<and> sv_end sv' \<in> {None, Some (Exits 1), Some (Exits 137)}"
      unfolding stale_inv_def by auto
    with host_server(1,2) assms(2) \<open>q \<noteq> pid\<close> show ?thesis unfolding stale_inv_def by auto
  next
    case False
    have "p = path_of sv" if "listened (sv_grpc sv) = Some p" for p
      using assms(4) host_server(2) that unfolding host_inv_def by blast
    then have "files' path = h_files h path" by (rule socket_other [OF host_server(4) False])
    with host_server(1,2) assms(2) \<open>q \<noteq> pid\<close> False server_step_config [OF host_server(4)] show ?thesis
      unfolding stale_inv_def by auto
  qed
qed

lemma host_reachable_steps: "host_step\<^sup>*\<^sup>* h h' \<Longrightarrow> host_reachable h \<Longrightarrow> host_reachable h'"
  by (induction rule: rtranclp_induct) (auto intro: host_next)

lemma stale_inv_steps:
  assumes "host_step\<^sup>*\<^sup>* h h'" and "host_reachable h" and "stale_inv pid path h" and "no_signal path pid h'"
  shows "stale_inv pid path h'"
  using assms(1,4)
proof (induction rule: rtranclp_induct)
  case (step u v)
  with stale_inv_step [OF step.hyps(2)] no_signal_before host_inv_reachable [OF host_reachable_steps [OF step.hyps(1) assms(2)]]
  show ?case by blast
qed (use assms(3) in simp)

lemma stale_inv_dial: "stale_inv pid path h \<Longrightarrow> dial h path = None"
  by (auto simp: stale_inv_def dial_def)

text \<open>A host with one server.\<close>

definition demo_host :: "string option \<Rightarrow> grpc_pc \<Rightarrow> signal_pc \<Rightarrow> unit outcome option \<Rightarrow> files \<Rightarrow> host" where
  "demo_host grpc pc signal end files =
     \<lparr>h_files = files,
      h_servers = [0 \<mapsto> (server_main (Inr (grpc, None)))\<lparr>sv_grpc := pc, sv_signal := signal, sv_end := end\<rparr>]\<rparr>"

lemma default_path: "grpc_path (cfg_GrpcAddr (process_config None api)) = ''/tmp/docker-envoy.sock''"
  using grpc_path_unix [of "''/tmp/docker-envoy.sock''"] by (simp add: process_config_def)

lemma default_scheme: "Contains (cfg_GrpcAddr (process_config None api)) ''unix:''"
  by (simp add: process_config_def Contains_def sublist_Cons_right)

lemma demo_host_step:
  assumes "server_step 0
      ((server_main (Inr (grpc, None)))\<lparr>sv_grpc := pc, sv_signal := signal, sv_end := None\<rparr>, files)
      ((server_main (Inr (grpc, None)))\<lparr>sv_grpc := pc', sv_signal := signal', sv_end := end'\<rparr>, files')"
  shows "host_step (demo_host grpc pc signal None files) (demo_host grpc pc' signal' end' files')"
  using host_server [of "demo_host grpc pc signal None files" 0 _ _ files'] assms by (simp add: demo_host_def)

lemma demo_host_up:
  assumes "grpc_path (cfg_GrpcAddr (process_config grpc None)) = path" and "socket_file path"
  shows "host_reachable (demo_host grpc (G_Serve path) S_Wait None [path \<mapsto> 0])"
proof -
  have "host_reachable (demo_host grpc G_Listen S_Wait None Map.empty)"
    using host_next [OF host_init host_start [of host_init 0 "Inr (grpc, None)"]]
    by (simp add: demo_host_def host_init_def server_main_def)
  moreover have "server_step 0
      ((server_main (Inr (grpc, None)))\<lparr>sv_grpc := G_Listen, sv_signal := S_Wait, sv_end := None\<rparr>, Map.empty)
      ((server_main (Inr (grpc, None)))\<lparr>sv_grpc := G_Serve path, sv_signal := S_Wait, sv_end := None\<rparr>, [path \<mapsto> 0])"
    using srv_grpc [OF grpc_listens [of "(server_main (Inr (grpc, None)))\<lparr>sv_grpc := G_Listen, sv_signal := S_Wait, sv_end := None\<rparr>" path Map.empty]]
      assms by (simp add: server_main_def bind_socket_def)
  ultimately show ?thesis using host_next demo_host_step by blast
qed

lemma demo_host_exits:
  "host_reachable (demo_host grpc pc S_Exit None files) \<Longrightarrow> host_reachable (demo_host grpc pc S_Exit (Some (Exits 0)) files)"
  using host_next [OF _ demo_host_step [OF srv_signal [OF stop_exits [of
    "(server_main (Inr (grpc, None)))\<lparr>sv_grpc := pc, sv_signal := S_Exit, sv_end := None\<rparr>" files, simplified]], simplified]]
  by (simp add: server.defs)

section \<open>Properties\<close>

text \<open>
  C38: What a server leaves of its socket. Take any reachable state of the host, in whatever order the
  goroutines of the servers have gone on, and the only server that was started for its path. It has
  listened at the path that its address gives, the scheme stripped. While it serves and no signal
  has come, a connection to that path reaches it. After a stop signal, with status 0, the socket is
  gone if and only if the address has the scheme \<open>unix:\<close>; without it the file stays. As long as
  the handler has not got through, the file lies there even when the process has ended while it
  serves: killed, or with status 1 because the HTTP interface failed or the socket could not be
  removed.
\<close>

theorem socket_removed:
  assumes "host_reachable h" and "h_servers h pid = Some sv" and "sv_grpc sv = G_Serve path"
    and "socket_file path" and "only_at h pid path"
  shows "path = grpc_path (cfg_GrpcAddr (sv_config sv))
    \<and> (sv_end sv = None \<and> sv_signal sv = S_Wait \<longrightarrow> dial h path = Some pid)
    \<and> (sv_end sv = Some (Exits 0) \<longrightarrow> (h_files h path = None \<longleftrightarrow> Contains (cfg_GrpcAddr (sv_config sv)) ''unix:''))
    \<and> (sv_signal sv = S_Wait \<longrightarrow> h_files h path = Some pid)"
proof -
  have path: "path = path_of sv"
    using host_inv_reachable [OF assms(1)] assms(2,3) by (auto simp: host_inv_def)
  have files: "h_files h path = (if sv_signal sv = S_Exit \<and> Contains (cfg_GrpcAddr (sv_config sv)) ''unix:''
      then None else Some pid)"
    using socket_inv_reachable [OF assms(1,2) path assms(5,4)] assms(3) by (simp add: socket_inv_def Let_def)
  have "sv_end sv = Some (Exits 0) \<Longrightarrow> sv_signal sv = S_Exit" by (rule exit_signalled [OF assms(1,2)])
  with path files assms(2,3) show ?thesis by (auto simp: dial_def)
qed

lemma socket_removed_witness:
  "\<exists>h. host_reachable h
     \<and> h_servers h 0 = Some ((server_main (Inr (None, None)))\<lparr>sv_grpc := G_Serve ''/tmp/docker-envoy.sock'',
          sv_signal := S_Exit, sv_end := Some (Exits 0)\<rparr>)
     \<and> h_files h ''/tmp/docker-envoy.sock'' = None"
proof -
  let ?path = "''/tmp/docker-envoy.sock''" and ?start = "server_main (Inr (None, None))"
  let ?sv = "\<lambda>signal end. ?start\<lparr>sv_grpc := G_Serve ?path, sv_signal := signal, sv_end := end\<rparr>"
  let ?h = "demo_host None (G_Serve ?path) S_Exit (Some (Exits 0)) Map.empty"
  have "server_step 0 (?sv S_Wait None, [?path \<mapsto> 0]) (?sv S_Exit None, Map.empty)"
    using srv_signal [OF stop_removes [of "?sv S_Wait None" _ "[?path \<mapsto> 0]"]] default_scheme default_path
    by (simp add: server_main_def grpc_path_def)
  then have "host_reachable (demo_host None (G_Serve ?path) S_Exit None Map.empty)"
    using host_next [OF demo_host_up [OF default_path] demo_host_step] by (simp add: socket_file_def)
  then have reachable: "host_reachable ?h" by (rule demo_host_exits)
  have sv: "h_servers ?h 0 = Some (?sv S_Exit (Some (Exits 0)))" by (simp add: demo_host_def)
  have "only_at ?h 0 ?path" "socket_file ?path" by (simp_all add: only_at_def demo_host_def socket_file_def)
  note left = socket_removed [OF reachable sv _ this(2,1), THEN conjunct2, THEN conjunct2, THEN conjunct1]
  have "h_files ?h ?path = None"
    using left default_scheme by (simp add: server_main_def)
  with reachable sv show ?thesis by blast
qed

end
