(* ===== verification/RegistrarLock.thy ===== *)
theory RegistrarLock
  imports Registrar
begin

text \<open>
  The registrar's methods as goroutines that interleave (\<open>internal/envoyhttp/registrar.go\<close>): every
  gRPC and HTTP request runs in its own goroutine, and the \<open>RWMutex\<close> orders their critical
  sections. A step is taking the lock, changing or reading the map, one round of the loop of
  \<open>EachEntry\<close>, or releasing the lock. That a waiting writer holds up new readers is not modelled,
  so there are more interleavings here than Go has.
\<close>

section \<open>State\<close>

type_synonym thread = nat

text \<open>
  Where a goroutine is. The numbers count the changes of the map so far, at the call and when the
  lock was taken; a call of \<open>EachEntry\<close> has the order it visits the keys in, the keys left, and the
  entries that its callback has seen.
\<close>

datatype task =
  T_Idle
| T_RegisterWait RegistrarRequest
| T_RegisterLocked RegistrarRequest
| T_RegisterChanged RegistrarRequest
| T_GetWait nat string
| T_GetLocked nat nat string
| T_EachWait nat
| T_EachLocked nat nat "string list" "string list" "Entry list"

text \<open>
  The last three fields are the record of the execution: the requests that changed the map, and
  the results of the look-ups and iterations with the counts at their call, lock and return.
\<close>

record shared =
  sh_registrar :: Registrar
  sh_writer :: "thread option"
  sh_readers :: "thread set"
  sh_task :: "thread \<Rightarrow> task"
  sh_history :: "RegistrarRequest list"
  sh_found :: "(nat \<times> nat \<times> nat \<times> string \<times> Entry option) list"
  sh_listed :: "(nat \<times> nat \<times> nat \<times> string list \<times> Entry list) list"

definition sh_init :: shared where
  "sh_init = \<lparr>sh_registrar = NewRegistrar, sh_writer = None, sh_readers = {},
     sh_task = (\<lambda>_. T_Idle), sh_history = [], sh_found = [], sh_listed = []\<rparr>"

abbreviation now_count :: "shared \<Rightarrow> nat" where
  "now_count s \<equiv> length (sh_history s)"

definition goto :: "thread \<Rightarrow> task \<Rightarrow> shared \<Rightarrow> shared" where
  "goto t k s = s\<lparr>sh_task := (sh_task s)(t := k)\<rparr>"

section \<open>Steps\<close>

inductive sh_step :: "shared \<Rightarrow> shared \<Rightarrow> bool" where
  register_call: "sh_task s t = T_Idle \<Longrightarrow> is_register req \<or> is_deregister req \<Longrightarrow>
    sh_step s (goto t (T_RegisterWait req) s)"
| register_lock: "sh_task s t = T_RegisterWait req \<Longrightarrow> sh_writer s = None \<Longrightarrow> sh_readers s = {} \<Longrightarrow>
    sh_step s (goto t (T_RegisterLocked req) (s\<lparr>sh_writer := Some t\<rparr>))"
| register_change: "sh_task s t = T_RegisterLocked req \<Longrightarrow>
    sh_step s (goto t (T_RegisterChanged req)
      (s\<lparr>sh_registrar := snd (Register req (sh_registrar s)), sh_history := sh_history s @ [req]\<rparr>))"
| register_unlock: "sh_task s t = T_RegisterChanged req \<Longrightarrow>
    sh_step s (goto t T_Idle (s\<lparr>sh_writer := None\<rparr>))"
| get_call: "sh_task s t = T_Idle \<Longrightarrow> sh_step s (goto t (T_GetWait (now_count s) name) s)"
| get_lock: "sh_task s t = T_GetWait c name \<Longrightarrow> sh_writer s = None \<Longrightarrow>
    sh_step s (goto t (T_GetLocked c (now_count s) name) (s\<lparr>sh_readers := insert t (sh_readers s)\<rparr>))"
| get_return: "sh_task s t = T_GetLocked c n name \<Longrightarrow>
    sh_step s (goto t T_Idle
      (s\<lparr>sh_readers := sh_readers s - {t},
         sh_found := sh_found s @ [(c, n, now_count s, name, GetEntry (sh_registrar s) name)]\<rparr>))"
| each_call: "sh_task s t = T_Idle \<Longrightarrow> sh_step s (goto t (T_EachWait (now_count s)) s)"
| each_lock: "sh_task s t = T_EachWait c \<Longrightarrow> sh_writer s = None \<Longrightarrow>
    range_order (entries (sh_registrar s)) ks \<Longrightarrow>
    sh_step s (goto t (T_EachLocked c (now_count s) ks ks [])
      (s\<lparr>sh_readers := insert t (sh_readers s)\<rparr>))"
| each_round: "sh_task s t = T_EachLocked c n ks (k # rest) seen \<Longrightarrow>
    sh_step s (goto t (T_EachLocked c n ks rest
      (case entries (sh_registrar s) k of None \<Rightarrow> seen | Some e \<Rightarrow> seen @ [e])) s)"
| each_return: "sh_task s t = T_EachLocked c n ks [] seen \<Longrightarrow>
    sh_step s (goto t T_Idle
      (s\<lparr>sh_readers := sh_readers s - {t},
         sh_listed := sh_listed s @ [(c, n, now_count s, ks, seen)]\<rparr>))"

inductive sh_reachable :: "shared \<Rightarrow> bool" where
  init: "sh_reachable sh_init"
| step: "sh_reachable s \<Longrightarrow> sh_step s s' \<Longrightarrow> sh_reachable s'"

inductive_cases sh_stepE: "sh_step s s'"

section \<open>Invariants\<close>

fun writing :: "task \<Rightarrow> bool" where
  "writing (T_RegisterLocked req) = True"
| "writing (T_RegisterChanged req) = True"
| "writing _ = False"

fun reading :: "task \<Rightarrow> bool" where
  "reading (T_GetLocked c n name) = True"
| "reading (T_EachLocked c n ks rest seen) = True"
| "reading _ = False"

text \<open>The registrar after the first changes of a history.\<close>

definition registrar_at :: "nat \<Rightarrow> RegistrarRequest list \<Rightarrow> Registrar" where
  "registrar_at n h = registrar_run (take n h) NewRegistrar"

definition inv_locks :: "shared \<Rightarrow> bool" where
  "inv_locks s \<longleftrightarrow>
     (\<forall>t. sh_writer s = Some t \<longleftrightarrow> writing (sh_task s t))
     \<and> (\<forall>t. t \<in> sh_readers s \<longleftrightarrow> reading (sh_task s t))
     \<and> (sh_writer s \<noteq> None \<longrightarrow> sh_readers s = {})"

definition task_ok :: "shared \<Rightarrow> task \<Rightarrow> bool" where
  "task_ok s k \<longleftrightarrow>
     (case k of
        T_GetWait c name \<Rightarrow> c \<le> now_count s
      | T_GetLocked c n name \<Rightarrow> c \<le> n \<and> n = now_count s
      | T_EachWait c \<Rightarrow> c \<le> now_count s
      | T_EachLocked c n ks rest seen \<Rightarrow>
          c \<le> n \<and> n = now_count s \<and> range_order (entries (sh_registrar s)) ks
          \<and> (\<exists>visited. ks = visited @ rest \<and> seen = source.listed visited (sh_registrar s))
      | _ \<Rightarrow> True)"

definition results_ok :: "shared \<Rightarrow> bool" where
  "results_ok s \<longleftrightarrow>
     (\<forall>(c, n, d, name, e) \<in> set (sh_found s).
        c \<le> n \<and> n \<le> d \<and> d \<le> now_count s \<and> e = GetEntry (registrar_at n (sh_history s)) name)
     \<and> (\<forall>(c, n, d, ks, es) \<in> set (sh_listed s).
        c \<le> n \<and> n \<le> d \<and> d \<le> now_count s
        \<and> range_order (entries (registrar_at n (sh_history s))) ks \<and> es = source.listed ks (registrar_at n (sh_history s)))"

definition sh_inv :: "shared \<Rightarrow> bool" where
  "sh_inv s \<longleftrightarrow>
     inv_locks s \<and> sh_registrar s = registrar_run (sh_history s) NewRegistrar
     \<and> (\<forall>t. task_ok s (sh_task s t)) \<and> results_ok s"

lemma goto_simps [simp]:
  "sh_registrar (goto t k s) = sh_registrar s" "sh_writer (goto t k s) = sh_writer s"
  "sh_readers (goto t k s) = sh_readers s" "sh_history (goto t k s) = sh_history s"
  "sh_found (goto t k s) = sh_found s" "sh_listed (goto t k s) = sh_listed s"
  "sh_task (goto t k s) = (sh_task s)(t := k)"
  by (simp_all add: goto_def)

lemma registrar_run_snoc:
  "registrar_run (reqs @ [req]) r = snd (Register req (registrar_run reqs r))"
  by (simp add: registrar_run_fold)

lemma listed_snoc:
  "source.listed (ks @ [k]) r =
     (case GetEntry r k of None \<Rightarrow> source.listed ks r | Some e \<Rightarrow> source.listed ks r @ [e])"
  by (induction ks) (simp_all split: option.split)

lemma registrar_at_length [simp]: "registrar_at (length h) h = registrar_run h NewRegistrar"
  by (simp add: registrar_at_def)

lemma registrar_at_append [simp]: "n \<le> length h \<Longrightarrow> registrar_at n (h @ [req]) = registrar_at n h"
  by (simp add: registrar_at_def)

lemma task_ok_same:
  assumes "task_ok s k" and "sh_history s' = sh_history s" and "sh_registrar s' = sh_registrar s"
  shows "task_ok s' k"
  using assms by (cases k) (simp_all add: task_ok_def)

lemma task_ok_not_reading: "\<not> reading k \<Longrightarrow> task_ok s k \<Longrightarrow> now_count s \<le> now_count s' \<Longrightarrow> task_ok s' k"
  by (cases k) (simp_all add: task_ok_def)

lemma inv_locks_step: "sh_step s s' \<Longrightarrow> inv_locks s \<Longrightarrow> inv_locks s'"
proof (induction rule: sh_step.induct)
  case (register_unlock s t req)
  then have "sh_writer s = Some t" by (simp add: inv_locks_def)
  with register_unlock show ?case by (auto simp: inv_locks_def)
qed (auto simp: inv_locks_def)

lemma history_step:
  "sh_step s s' \<Longrightarrow> sh_registrar s = registrar_run (sh_history s) NewRegistrar \<Longrightarrow>
     sh_registrar s' = registrar_run (sh_history s') NewRegistrar"
  by (induction rule: sh_step.induct) (simp_all add: registrar_run_snoc)

text \<open>A task that does not move stays correct: only a change could disturb a reader.\<close>

lemma task_ok_frame:
  assumes "sh_step s s'" and "inv_locks s" and "task_ok s k" and "sh_task s u = k" and "sh_task s' u = k"
  shows "task_ok s' k"
  using assms
proof (induction rule: sh_step.induct)
  case (register_change s t req)
  then have "sh_writer s = Some t" by (simp add: inv_locks_def)
  then have "\<not> reading (sh_task s u)" using register_change.prems(1) by (auto simp: inv_locks_def)
  with register_change.prems show ?case by (auto intro: task_ok_not_reading)
qed (auto elim: task_ok_same)

lemma task_ok_moved:
  assumes "sh_step s s'" and "task_ok s (sh_task s u)" and "sh_task s' u \<noteq> sh_task s u"
  shows "task_ok s' (sh_task s' u)"
  using assms
proof (induction rule: sh_step.induct)
  case (each_round s t c n ks k rest seen)
  then show ?case
    by (auto simp: task_ok_def GetEntry_def [symmetric] split: if_splits option.split)
      (metis append.assoc append_Cons append_Nil listed_snoc option.case)+
qed (auto simp: task_ok_def split: if_splits)

lemma results_ok_step:
  "sh_step s s' \<Longrightarrow> \<forall>t. task_ok s (sh_task s t) \<Longrightarrow>
     sh_registrar s = registrar_run (sh_history s) NewRegistrar \<Longrightarrow> results_ok s \<Longrightarrow> results_ok s'"
proof (induction rule: sh_step.induct)
  case (get_return s t c n name)
  have "task_ok s (T_GetLocked c n name)" using get_return by metis
  with get_return.prems show ?case
    by (simp add: results_ok_def task_ok_def)
next
  case (each_return s t c n ks seen)
  have "task_ok s (T_EachLocked c n ks [] seen)" using each_return by metis
  with each_return.prems show ?case
    by (simp add: results_ok_def task_ok_def)
next
  case (register_change s t req)
  then show ?case by (fastforce simp: results_ok_def)
qed (simp_all add: results_ok_def)

lemma sh_inv_step: "sh_step s s' \<Longrightarrow> sh_inv s \<Longrightarrow> sh_inv s'"
  unfolding sh_inv_def
  by (metis inv_locks_step history_step results_ok_step task_ok_frame task_ok_moved)

lemma sh_inv_init: "sh_inv sh_init"
  by (simp add: sh_inv_def inv_locks_def results_ok_def task_ok_def sh_init_def)

lemma sh_inv_reachable: "sh_reachable s \<Longrightarrow> sh_inv s"
  by (induction rule: sh_reachable.induct) (blast intro: sh_inv_init sh_inv_step)+

section \<open>Progress\<close>

fun waiting :: "task \<Rightarrow> bool" where
  "waiting (T_RegisterWait req) = True"
| "waiting (T_GetWait c name) = True"
| "waiting (T_EachWait c) = True"
| "waiting _ = False"

text \<open>The steps that a goroutine in its critical section has left.\<close>

fun todo :: "task \<Rightarrow> nat" where
  "todo (T_RegisterLocked req) = 2"
| "todo (T_RegisterChanged req) = 1"
| "todo (T_GetLocked c n name) = 1"
| "todo (T_EachLocked c n ks rest seen) = Suc (length rest)"
| "todo _ = 0"

text \<open>
  The work left for the goroutines of a finite set that has all the active ones: how many wait,
  and how many steps the critical sections take.
\<close>

definition work :: "thread set \<Rightarrow> shared \<Rightarrow> nat \<times> nat" where
  "work A s = (card {t \<in> A. waiting (sh_task s t)}, \<Sum>t\<in>A. todo (sh_task s t))"

definition active_in :: "thread set \<Rightarrow> shared \<Rightarrow> bool" where
  "active_in A s \<longleftrightarrow> (\<forall>t. sh_task s t \<noteq> T_Idle \<longrightarrow> t \<in> A)"

abbreviation less_work :: "((nat \<times> nat) \<times> (nat \<times> nat)) set" where
  "less_work \<equiv> less_than <*lex*> less_than"

lemma active_in_goto: "active_in A s \<Longrightarrow> t \<in> A \<Longrightarrow> sh_task s' = (sh_task s)(t := k) \<Longrightarrow> active_in A s'"
  by (auto simp: active_in_def)

lemma less_work_section:
  assumes "finite A" and "t \<in> A" and "sh_task s' = (sh_task s)(t := k)"
    and "\<not> waiting (sh_task s t)" and "\<not> waiting k" and "todo k < todo (sh_task s t)"
  shows "(work A s', work A s) \<in> less_work"
proof -
  have "{u \<in> A. waiting (sh_task s' u)} = {u \<in> A. waiting (sh_task s u)}"
    using assms(3-5) by auto
  moreover have "(\<Sum>u\<in>A. todo (sh_task s' u)) < (\<Sum>u\<in>A. todo (sh_task s u))"
    using assms by (intro sum_strict_mono_ex1) (auto intro: less_imp_le)
  ultimately show ?thesis by (simp add: work_def)
qed

lemma less_work_lock:
  assumes "finite A" and "t \<in> A" and "sh_task s' = (sh_task s)(t := k)"
    and "waiting (sh_task s t)" and "\<not> waiting k"
  shows "(work A s', work A s) \<in> less_work"
proof -
  have "{u \<in> A. waiting (sh_task s' u)} \<subset> {u \<in> A. waiting (sh_task s u)}"
    using assms by auto
  then have "card {u \<in> A. waiting (sh_task s' u)} < card {u \<in> A. waiting (sh_task s u)}"
    using assms(1) by (intro psubset_card_mono) auto
  then show ?thesis by (simp add: work_def)
qed

text \<open>A goroutine in its critical section can go on; when none is, a waiting one gets the lock.\<close>

lemma section_step:
  assumes "todo (sh_task s t) \<noteq> 0"
  shows "\<exists>k s'. sh_step s s' \<and> sh_task s' = (sh_task s)(t := k) \<and> \<not> waiting k \<and> todo k < todo (sh_task s t)
    \<and> \<not> waiting (sh_task s t)"
proof (cases "sh_task s t")
  case (T_RegisterLocked req)
  from register_change [OF this] T_RegisterLocked show ?thesis
    by - (intro exI [where x = "T_RegisterChanged req"] exI conjI, assumption, simp_all)
next
  case (T_RegisterChanged req)
  from register_unlock [OF this] T_RegisterChanged show ?thesis
    by - (intro exI [where x = T_Idle] exI conjI, assumption, simp_all)
next
  case (T_GetLocked c n name)
  from get_return [OF this] T_GetLocked show ?thesis
    by - (intro exI [where x = T_Idle] exI conjI, assumption, simp_all)
next
  case (T_EachLocked c n ks rest seen)
  show ?thesis
  proof (cases rest)
    case Nil
    from each_return [OF T_EachLocked [unfolded Nil]] T_EachLocked show ?thesis
      by - (intro exI [where x = T_Idle] exI conjI, assumption, simp_all)
  next
    case (Cons k ks')
    let ?seen = "case entries (sh_registrar s) k of None \<Rightarrow> seen | Some e \<Rightarrow> seen @ [e]"
    from each_round [OF T_EachLocked [unfolded Cons]] T_EachLocked Cons show ?thesis
      by - (intro exI [where x = "T_EachLocked c n ks ks' ?seen"] exI conjI, assumption, simp_all)
  qed
qed (use assms in simp_all)

lemma lock_step:
  assumes "sh_inv s" and "\<forall>u. todo (sh_task s u) = 0" and "waiting (sh_task s t)"
  shows "\<exists>k s'. sh_step s s' \<and> sh_task s' = (sh_task s)(t := k) \<and> \<not> waiting k"
proof -
  have locks: "\<forall>u. sh_writer s = Some u \<longleftrightarrow> writing (sh_task s u)" "\<forall>u. u \<in> sh_readers s \<longleftrightarrow> reading (sh_task s u)"
    using assms(1) unfolding sh_inv_def inv_locks_def by blast+
  have locked: "todo k \<noteq> 0" if "writing k \<or> reading k" for k
    using that by (cases k) simp_all
  have "\<not> writing (sh_task s u) \<and> \<not> reading (sh_task s u)" for u
    using assms(2) locked [of "sh_task s u"] by auto
  then have free: "sh_writer s = None" "sh_readers s = {}"
    using locks by (metis not_None_eq, blast)
  have "finite (dom (entries (sh_registrar s)))"
    using assms(1) registrar_inv_run [OF registrar_inv_new, of "sh_history s"]
    by (simp add: sh_inv_def registrar_inv_def)
  then obtain ks where "set ks = dom (entries (sh_registrar s))" "distinct ks"
    using finite_distinct_list by metis
  then have ks: "range_order (entries (sh_registrar s)) ks" by (simp add: range_order_def)
  show ?thesis
  proof (cases "sh_task s t")
    case (T_RegisterWait req)
    from register_lock [OF this free] show ?thesis
      by - (intro exI [where x = "T_RegisterLocked req"] exI conjI, assumption, simp_all)
  next
    case (T_GetWait c name)
    from get_lock [OF this free(1)] show ?thesis
      by - (intro exI [where x = "T_GetLocked c (now_count s) name"] exI conjI, assumption, simp_all)
  next
    case (T_EachWait c)
    from each_lock [OF this free(1) ks] show ?thesis
      by - (intro exI [where x = "T_EachLocked c (now_count s) ks ks []"] exI conjI, assumption, simp_all)
  qed (use assms(3) in simp_all)
qed

lemma work_step:
  assumes "sh_inv s" and "finite A" and "active_in A s" and "sh_task s t \<noteq> T_Idle"
  shows "\<exists>s'. sh_step s s' \<and> active_in A s' \<and> (work A s', work A s) \<in> less_work"
proof (cases "\<exists>u. todo (sh_task s u) \<noteq> 0")
  case True
  then obtain u where u: "todo (sh_task s u) \<noteq> 0" by blast
  then have "sh_task s u \<noteq> T_Idle" by (cases "sh_task s u") simp_all
  then have "u \<in> A" using assms(3) by (simp add: active_in_def)
  with section_step [OF u] assms(2,3) show ?thesis
    by (meson active_in_goto less_work_section)
next
  case False
  then have "todo (sh_task s t) = 0" by simp
  with assms(4) have "waiting (sh_task s t)" by (cases "sh_task s t") simp_all
  moreover have "t \<in> A" using assms(3,4) by (auto simp: active_in_def)
  ultimately show ?thesis
    using lock_step [OF assms(1)] False assms(2,3) by (meson active_in_goto less_work_lock)
qed

lemma all_return:
  assumes "sh_inv s" and "finite A" and "active_in A s"
  shows "\<exists>s'. sh_step\<^sup>*\<^sup>* s s' \<and> (\<forall>t. sh_task s' t = T_Idle)"
proof -
  have "wf (inv_image less_work (work A))" by (intro wf_inv_image wf_lex_prod) simp_all
  then have "sh_inv s \<longrightarrow> active_in A s \<longrightarrow> (\<exists>s'. sh_step\<^sup>*\<^sup>* s s' \<and> (\<forall>t. sh_task s' t = T_Idle))"
  proof (induction s rule: wf_induct_rule)
    case (less s)
    show ?case
    proof (intro impI)
      assume s: "sh_inv s" "active_in A s"
      show "\<exists>s'. sh_step\<^sup>*\<^sup>* s s' \<and> (\<forall>t. sh_task s' t = T_Idle)"
      proof (cases "\<forall>t. sh_task s t = T_Idle")
        case False
        then obtain s1 where s1: "sh_step s s1" "active_in A s1" "(work A s1, work A s) \<in> less_work"
          using work_step [OF s(1) assms(2) s(2)] by blast
        then obtain s' where "sh_step\<^sup>*\<^sup>* s1 s'" "\<forall>t. sh_task s' t = T_Idle"
          using less [of s1] sh_inv_step [OF s1(1) s(1)] by (auto simp: inv_image_def)
        then show ?thesis using s1(1) by (meson converse_rtranclp_into_rtranclp)
      qed blast
    qed
  qed
  with assms show ?thesis by blast
qed

lemma finite_active: "sh_reachable s \<Longrightarrow> \<exists>A. finite A \<and> active_in A s"
proof (induction rule: sh_reachable.induct)
  case init
  show ?case by (intro exI [of _ "{}"]) (simp add: active_in_def sh_init_def)
next
  case (step s s')
  then obtain A where A: "finite A" "active_in A s" by blast
  from step(2) obtain t k where "sh_task s' = (sh_task s)(t := k)"
    by (rule sh_stepE) simp_all
  with A show ?case by (intro exI [of _ "insert t A"]) (auto simp: active_in_def)
qed

section \<open>Properties\<close>

text \<open>
  C6: The requests that the registrar serves at the same time are linearizable: in every state the
  map is what the requests give when they are applied one after the other in the order in which
  they changed it; every look-up and every complete iteration of \<open>EachEntry\<close> reports exactly one
  state of that history, one that was current between the call and the return; and no goroutine
  reads the map while another is in the section that changes it.
\<close>

theorem registrar_linearizable:
  assumes "sh_reachable s"
  shows "sh_registrar s = registrar_run (sh_history s) NewRegistrar
    \<and> ((c, n, d, name, e) \<in> set (sh_found s) \<longrightarrow>
         c \<le> n \<and> n \<le> d \<and> d \<le> now_count s
         \<and> e = GetEntry (registrar_run (take n (sh_history s)) NewRegistrar) name)
    \<and> ((c, n, d, ks, es) \<in> set (sh_listed s) \<longrightarrow>
         c \<le> n \<and> n \<le> d \<and> d \<le> now_count s
         \<and> range_order (entries (registrar_run (take n (sh_history s)) NewRegistrar)) ks
         \<and> es = map (\<lambda>k. the (GetEntry (registrar_run (take n (sh_history s)) NewRegistrar) k)) ks)
    \<and> \<not> (writing (sh_task s t) \<and> u \<noteq> t \<and> (writing (sh_task s u) \<or> reading (sh_task s u)))"
proof -
  have inv: "inv_locks s" "sh_registrar s = registrar_run (sh_history s) NewRegistrar" "results_ok s"
    using sh_inv_reachable [OF assms] by (simp_all add: sh_inv_def)
  have "\<not> (writing (sh_task s t) \<and> u \<noteq> t \<and> (writing (sh_task s u) \<or> reading (sh_task s u)))"
    using inv(1) unfolding inv_locks_def by (metis empty_iff option.distinct(1) option.inject)
  moreover have "c \<le> n \<and> n \<le> d \<and> d \<le> now_count s
      \<and> e = GetEntry (registrar_at n (sh_history s)) name"
    if "(c, n, d, name, e) \<in> set (sh_found s)"
    using inv(3) that by (fastforce simp: results_ok_def)
  moreover have "c \<le> n \<and> n \<le> d \<and> d \<le> now_count s
      \<and> range_order (entries (registrar_at n (sh_history s))) ks
      \<and> es = source.listed ks (registrar_at n (sh_history s))"
    if "(c, n, d, ks, es) \<in> set (sh_listed s)"
    using inv(3) that by (fastforce simp: results_ok_def)
  ultimately show ?thesis
    using inv(2) source.listed_order unfolding registrar_at_def by blast
qed

text \<open>One request is registered, and the entries are listed afterwards.\<close>

definition demo_request :: RegistrarRequest where
  "demo_request = RegistrarRequest_zero
     \<lparr>req_FrontendPort := 8080, req_ServiceName := ''web'', req_ProxyMode := ''http''\<rparr>"

definition demo_registered :: shared where
  "demo_registered =
     goto 0 T_Idle
       ((goto 0 (T_RegisterChanged demo_request)
          ((goto 0 (T_RegisterLocked demo_request)
              ((goto 0 (T_RegisterWait demo_request) sh_init)\<lparr>sh_writer := Some 0\<rparr>))
            \<lparr>sh_registrar := snd (Register demo_request NewRegistrar), sh_history := [demo_request]\<rparr>))
        \<lparr>sh_writer := None\<rparr>)"

definition demo_listing :: shared where
  "demo_listing =
     goto 0 T_Idle
       ((goto 0 (T_EachLocked 1 1 [''web-8080''] [] [RequestToEntry demo_request])
          (goto 0 (T_EachLocked 1 1 [''web-8080''] [''web-8080''] [])
            ((goto 0 (T_EachWait 1) demo_registered)\<lparr>sh_readers := {0}\<rparr>)))
        \<lparr>sh_readers := {},
         sh_listed := [(1, 1, 1, [''web-8080''], [RequestToEntry demo_request])]\<rparr>)"

lemma demo_name: "SvcName (RequestToEntry demo_request) = ''web-8080''"
  by (simp add: SvcName_def RequestToEntry_def demo_request_def RegistrarRequest_zero_def)
    (simp add: fmt_d_def nat_str.simps digit_char_def)

lemma demo_entries:
  "entries (snd (Register demo_request NewRegistrar)) = [''web-8080'' \<mapsto> RequestToEntry demo_request]"
  by (simp add: Register_def demo_name NewRegistrar_def)
    (simp add: demo_request_def RegistrarRequest_zero_def RegistrarRequest_REGISTER_def)

lemma sh_reachable_step: "sh_reachable s \<Longrightarrow> sh_step s t \<Longrightarrow> t = t' \<Longrightarrow> sh_reachable t'"
  by (blast intro: sh_reachable.step)

lemma demo_registered: "sh_reachable demo_registered"
proof -
  note step = sh_reachable_step
  have "sh_reachable (goto 0 (T_RegisterWait demo_request) sh_init)"
    by (rule step [OF init register_call [of _ 0]])
      (simp_all add: sh_init_def is_register_def demo_request_def RegistrarRequest_zero_def RegistrarRequest_REGISTER_def)
  then have "sh_reachable (goto 0 (T_RegisterLocked demo_request)
      ((goto 0 (T_RegisterWait demo_request) sh_init)\<lparr>sh_writer := Some 0\<rparr>))"
    by (rule step [OF _ register_lock [of _ 0]]) (simp_all add: sh_init_def goto_def)
  then have "sh_reachable (goto 0 (T_RegisterChanged demo_request)
      ((goto 0 (T_RegisterLocked demo_request)
          ((goto 0 (T_RegisterWait demo_request) sh_init)\<lparr>sh_writer := Some 0\<rparr>))
        \<lparr>sh_registrar := snd (Register demo_request NewRegistrar), sh_history := [demo_request]\<rparr>))"
    by (rule step [OF _ register_change [of _ 0]]) (simp_all add: sh_init_def goto_def)
  then show ?thesis
    unfolding demo_registered_def
    by (rule step [OF _ register_unlock [of _ 0]]) (simp_all add: goto_def)
qed

lemma demo_registered_simps:
  "sh_history demo_registered = [demo_request]" "sh_writer demo_registered = None"
  "sh_readers demo_registered = {}" "sh_listed demo_registered = []"
  "sh_registrar demo_registered = snd (Register demo_request NewRegistrar)"
  by (simp_all add: demo_registered_def sh_init_def)

lemma demo_listing: "sh_reachable demo_listing"
proof -
  note step = sh_reachable_step
  have "sh_reachable (goto 0 (T_EachWait 1) demo_registered)"
    by (rule step [OF demo_registered each_call [of _ 0]])
      (simp_all add: demo_registered_simps, simp add: demo_registered_def)
  then have "sh_reachable (goto 0 (T_EachLocked 1 1 [''web-8080''] [''web-8080''] [])
      ((goto 0 (T_EachWait 1) demo_registered)\<lparr>sh_readers := {0}\<rparr>))"
    by (rule step [OF _ each_lock [of _ 0 1 "[''web-8080'']"]])
      (simp_all add: demo_registered_simps range_order_def demo_entries)
  then have "sh_reachable (goto 0 (T_EachLocked 1 1 [''web-8080''] [] [RequestToEntry demo_request])
      (goto 0 (T_EachLocked 1 1 [''web-8080''] [''web-8080''] [])
        ((goto 0 (T_EachWait 1) demo_registered)\<lparr>sh_readers := {0}\<rparr>)))"
    by (rule step [OF _ each_round [of _ 0 1 1 "[''web-8080'']" "''web-8080''" "[]" "[]"]])
      (simp_all add: demo_registered_simps demo_entries)
  then show ?thesis
    unfolding demo_listing_def
    by (rule step [OF _ each_return [of _ 0 1 1 "[''web-8080'']" "[RequestToEntry demo_request]"]])
      (simp_all add: demo_registered_simps)
qed

lemma registrar_linearizable_witness:
  "range_order (entries (registrar_run [demo_request] NewRegistrar)) [''web-8080'']
   \<and> [RequestToEntry demo_request] =
     map (\<lambda>k. the (GetEntry (registrar_run [demo_request] NewRegistrar) k)) [''web-8080'']"
  using registrar_linearizable [OF demo_listing, of 1 1 1 _ _ "[''web-8080'']" "[RequestToEntry demo_request]"]
  by (simp add: demo_listing_def demo_registered_simps)

text \<open>
  C19: No request of the registrar can be stuck. From every state that the goroutines can reach there
  is a way on which every started call of \<open>Register\<close>, \<open>GetEntry\<close> and \<open>EachEntry\<close> returns: the mutex is
  released on every path, and a waiting goroutine gets it once the others are through.
\<close>

theorem calls_can_return:
  assumes "sh_reachable s"
  shows "\<exists>s'. sh_step\<^sup>*\<^sup>* s s' \<and> (\<forall>t. sh_task s' t = T_Idle) \<and> sh_writer s' = None \<and> sh_readers s' = {}"
proof -
  obtain A where A: "finite A" "active_in A s" using finite_active [OF assms] by blast
  obtain s' where s': "sh_step\<^sup>*\<^sup>* s s'" "\<forall>t. sh_task s' t = T_Idle"
    using all_return [OF sh_inv_reachable [OF assms] A] by blast
  have "sh_inv s'"
    using s'(1) sh_inv_reachable [OF assms] by (induction rule: rtranclp_induct) (auto intro: sh_inv_step)
  with s' show ?thesis by (auto simp: sh_inv_def inv_locks_def)
qed

text \<open>One goroutine waits for the mutex.\<close>

definition demo_waiting :: shared where
  "demo_waiting = goto 1 (T_EachWait 1) demo_registered"

lemma demo_waiting: "sh_reachable demo_waiting" "sh_task demo_waiting 1 = T_EachWait 1"
proof -
  have "sh_task demo_registered 1 = T_Idle" by (simp add: demo_registered_def sh_init_def)
  from each_call [OF this] show "sh_reachable demo_waiting"
    by (intro sh_reachable_step [OF demo_registered]) (simp_all add: demo_waiting_def demo_registered_simps)
qed (simp add: demo_waiting_def)

lemma calls_can_return_witness:
  "sh_task demo_waiting 1 \<noteq> T_Idle \<and> (\<exists>s'. sh_step\<^sup>*\<^sup>* demo_waiting s' \<and> sh_task s' 1 = T_Idle)"
  using calls_can_return [OF demo_waiting(1)] demo_waiting(2) by auto

end
