(* ===== verification/UdpProgress.thy ===== *)
theory UdpProgress
  imports UdpProxy
begin

text \<open>
  The UDP proxy can always be shut down: no goroutine of \<open>cmd/envoy-docker-shim/udp_proxy.go\<close> can be
  stuck, whatever the interleaving so far. The ranks count the steps that each goroutine has left
  when every read and write fails from now on.
\<close>

section \<open>Ranks\<close>

fun run_rank :: "run_pc \<Rightarrow> nat" where
  "run_rank R_Stopped = 0"
| "run_rank R_Read = 1"
| "run_rank (R_Write from c d) = 2"
| "run_rank (R_Locked from k d) = 3"
| "run_rank (R_WantLock from k d) = 4"

fun loop_rank :: "loop_pc \<Rightarrow> nat" where
  "loop_rank L_Done = 0"
| "loop_rank L_Closing = 1"
| "loop_rank L_Locked = 2"
| "loop_rank L_WantLock = 3"
| "loop_rank L_Read = 4"
| "loop_rank (L_Write d) = 5"

fun close_rank :: "close_pc \<Rightarrow> nat" where
  "close_rank C_Done = 0"
| "close_rank C_Locked = 1"
| "close_rank C_WantLock = 2"
| "close_rank C_Idle = 3"

definition loops_rank :: "udp \<Rightarrow> nat" where
  "loops_rank s = (\<Sum>c < u_next s. case place s c of None \<Rightarrow> 0 | Some pc \<Rightarrow> loop_rank pc)"

definition udp_rank :: "udp \<Rightarrow> nat" where
  "udp_rank s = run_rank (u_run s) + loops_rank s + close_rank (u_close s)"

lemma loops_rank_same: "place t = place s \<Longrightarrow> u_next t = u_next s \<Longrightarrow> loops_rank t = loops_rank s"
  by (simp add: loops_rank_def)

lemma loops_rank_moved:
  assumes "place s c = Some pc" and "c < u_next s" and "place t = (place s)(c \<mapsto> pc')"
    and "u_next t = u_next s" and "loop_rank pc' < loop_rank pc"
  shows "loops_rank t < loops_rank s"
proof -
  have "(\<Sum>c' < u_next s. case place t c' of None \<Rightarrow> 0 | Some pc \<Rightarrow> loop_rank pc)
      < (\<Sum>c' < u_next s. case place s c' of None \<Rightarrow> 0 | Some pc \<Rightarrow> loop_rank pc)"
  proof (rule sum_strict_mono_ex1)
    show "\<forall>c' \<in> {..< u_next s}. (case place t c' of None \<Rightarrow> 0 | Some pc \<Rightarrow> loop_rank pc)
        \<le> (case place s c' of None \<Rightarrow> 0 | Some pc \<Rightarrow> loop_rank pc)"
      using assms(1,3,5) by (simp split: option.split)
    show "\<exists>c' \<in> {..< u_next s}. (case place t c' of None \<Rightarrow> 0 | Some pc \<Rightarrow> loop_rank pc)
        < (case place s c' of None \<Rightarrow> 0 | Some pc \<Rightarrow> loop_rank pc)"
      using assms(1,2,3,5) by (intro bexI [of _ c]) simp_all
  qed simp
  then show ?thesis by (simp add: loops_rank_def assms(4))
qed

text \<open>A step and what it does.\<close>

lemma exI_conj: "P t \<Longrightarrow> Q t \<Longrightarrow> \<exists>t. P t \<and> Q t"
  by blast

lemma run_rank_0: "run_rank pc = 0 \<longleftrightarrow> pc = R_Stopped"
  by (cases pc) simp_all

lemma loop_rank_0: "loop_rank pc = 0 \<longleftrightarrow> pc = L_Done"
  by (cases pc) simp_all

lemma close_rank_0: "close_rank pc = 0 \<longleftrightarrow> pc = C_Done"
  by (cases pc) simp_all

section \<open>Steps that lower the rank\<close>

lemma run_lowers:
  assumes "u_run s \<noteq> R_Stopped"
    and "u_lock s = None \<or> u_lock s = Some H_Run \<or> run_rank (u_run s) \<le> 2"
    and "inv_lock s"
  shows "\<exists>t. run_step s t \<and> udp_rank t < udp_rank s"
proof -
  have lower: "\<exists>t. run_step s t \<and> udp_rank t < udp_rank s"
    if "run_step s t" "place t = place s" "u_next t = u_next s" "u_close t = u_close s"
      "run_rank (u_run t) < run_rank (u_run s)" for t
    using that(1)
    by (rule exI_conj [where P = "run_step s"]) (simp add: udp_rank_def loops_rank_same [OF that(2,3)] that)
  show ?thesis
  proof (cases "u_run s")
    case R_Read
    then show ?thesis using lower [OF run_read_error [OF R_Read]] by simp
  next
    case (R_WantLock sender k d)
    with assms(2,3) have "u_lock s = None" by (auto simp: inv_lock_def)
    then show ?thesis using lower [OF run_lock [OF R_WantLock]] R_WantLock by simp
  next
    case (R_Locked sender k d)
    show ?thesis
    proof (cases "u_connTrackTable s k")
      case None
      then show ?thesis using lower [OF run_dial_error [OF R_Locked None]] R_Locked by simp
    next
      case (Some c)
      then show ?thesis using lower [OF run_hit [OF R_Locked Some]] R_Locked by simp
    qed
  next
    case (R_Write sender c d)
    then have "run_step s (s\<lparr>u_run := R_Read\<rparr>)"
      by (cases d) (auto intro: run_write_done run_write_error)
    from lower [OF this] R_Write show ?thesis by simp
  qed (use assms(1) in simp)
qed

lemma loop_lowers:
  assumes "place s c = Some pc" and "pc \<noteq> L_Done" and "inv_clients s"
    and "u_lock s = None \<or> pc \<noteq> L_WantLock"
  shows "\<exists>t. loop_step c s t \<and> udp_rank t < udp_rank s"
proof -
  obtain l where l: "u_loops s c = Some l" "lp_pc l = pc"
    using assms(1) by (auto simp: place_def)
  have c: "c < u_next s" using assms(1,3) by (auto simp: inv_clients_def)
  have lower: "\<exists>t. loop_step c s t \<and> udp_rank t < udp_rank s"
    if "loop_step c s t" "place t = place (set_loop c pc' s)" "u_next t = u_next s" "u_run t = u_run s"
      "u_close t = u_close s" "loop_rank pc' < loop_rank pc" for t pc'
  proof -
    have "place t = (place s)(c \<mapsto> pc')" using that(2) place_moved [OF assms(1)] by simp
    from loops_rank_moved [OF assms(1) c this that(3,6)] that(4,5) have "udp_rank t < udp_rank s"
      by (simp add: udp_rank_def)
    with that(1) show ?thesis by blast
  qed
  show ?thesis
  proof (cases pc)
    case L_Read
    then show ?thesis using lower [OF loop_read_error, of L_WantLock] assms(1) by simp
  next
    case (L_Write d)
    then show ?thesis
      using lower [OF loop_write_done, of L_Read] lower [OF loop_write_error [of s c d], of L_WantLock] assms(1)
      by (cases "d = []") simp_all
  next
    case L_WantLock
    then show ?thesis using lower [OF loop_lock, of L_Locked] assms(1,4) by simp
  next
    case L_Locked
    then show ?thesis using lower [OF loop_delete [OF l(1)], of L_Closing] l(2) by simp
  next
    case L_Closing
    then show ?thesis using lower [OF loop_close, of L_Done] assms(1) by simp
  qed (use assms(2) in simp)
qed

lemma close_lowers:
  assumes "u_close s \<noteq> C_Done" and "u_lock s = None \<or> u_close s \<noteq> C_WantLock"
  shows "\<exists>t. close_step s t \<and> udp_rank t < udp_rank s"
proof -
  have lower: "\<exists>t. close_step s t \<and> udp_rank t < udp_rank s"
    if "close_step s t" "place t = place s" "u_next t = u_next s" "u_run t = u_run s"
      "close_rank (u_close t) < close_rank (u_close s)" for t
    using that(1)
    by (rule exI_conj [where P = "close_step s"]) (simp add: udp_rank_def loops_rank_same [OF that(2,3)] that)
  show ?thesis
    using assms lower [OF close_listener] lower [OF close_lock] lower [OF close_conns]
    by (cases "u_close s") simp_all
qed

section \<open>Shutting down\<close>

text \<open>As long as something is left to do, the goroutine that has the lock, or any one, can go on.\<close>

lemma udp_lowers:
  assumes "udp_inv s" and "udp_rank s \<noteq> 0"
  shows "\<exists>t. udp_step s t \<and> udp_rank t < udp_rank s"
proof -
  have inv: "inv_clients s" "inv_lock s" using assms(1) by (simp_all add: udp_inv_def)
  show ?thesis
  proof (cases "u_lock s")
    case None
    consider "u_run s \<noteq> R_Stopped" | "u_close s \<noteq> C_Done" | "loops_rank s \<noteq> 0"
      using assms(2) by (cases "u_run s"; cases "u_close s") (auto simp: udp_rank_def)
    then show ?thesis
    proof cases
      case 1
      with run_lowers [OF 1] None inv(2) show ?thesis by (blast intro: step_run)
    next
      case 2
      with close_lowers [OF 2] None show ?thesis by (blast intro: step_close)
    next
      case 3
      then obtain c pc where "place s c = Some pc" "pc \<noteq> L_Done"
        unfolding loops_rank_def by (auto simp: loop_rank_0 split: option.splits)
      with loop_lowers [of s c pc] None inv(1) show ?thesis by (blast intro: step_loop)
    qed
  next
    case (Some h)
    show ?thesis
    proof (cases h)
      case H_Run
      with Some inv(2) have "u_run s \<noteq> R_Stopped" by (auto simp: inv_lock_def)
      with run_lowers Some H_Run inv(2) show ?thesis by (blast intro: step_run)
    next
      case (H_Loop c)
      with Some inv(2) have "place s c = Some L_Locked" by (auto simp: inv_lock_def)
      with loop_lowers [of s c L_Locked] inv(1) show ?thesis by (blast intro: step_loop)
    next
      case H_Close
      with Some inv(2) have "u_close s = C_Locked" by (simp add: inv_lock_def)
      with close_lowers [of s] show ?thesis by (auto intro: step_close)
    qed
  qed
qed

lemma udp_runs_out: "udp_reachable s \<Longrightarrow> \<exists>t. udp_step\<^sup>*\<^sup>* s t \<and> udp_reachable t \<and> udp_rank t = 0"
proof (induction "udp_rank s" arbitrary: s rule: less_induct)
  case less
  show ?case
  proof (cases "udp_rank s = 0")
    case True
    with less.prems show ?thesis by blast
  next
    case False
    then obtain s1 where s1: "udp_step s s1" "udp_rank s1 < udp_rank s"
      using udp_lowers [OF udp_inv_reachable [OF less.prems]] by blast
    then obtain t where "udp_step\<^sup>*\<^sup>* s1 t" "udp_reachable t" "udp_rank t = 0"
      using less.hyps udp_reachable.step [OF less.prems] by blast
    with s1(1) show ?thesis by (meson converse_rtranclp_into_rtranclp)
  qed
qed

text \<open>When every goroutine has ended, nothing happens any more.\<close>

lemma no_step_after_end:
  assumes "u_run s = R_Stopped" and "u_close s = C_Done" and "\<And>c pc. place s c = Some pc \<Longrightarrow> pc = L_Done"
  shows "\<not> udp_step s t"
proof
  assume "udp_step s t"
  then show False
  proof (rule udp_stepE)
    assume "run_step s t"
    with assms(1) show False by (auto elim: run_stepE)
  next
    fix c
    assume loop: "loop_step c s t"
    have "\<not> loop_at s c pc" if "pc \<noteq> L_Done" for pc
      using assms(3) that by blast
    then show False by - (rule loop_stepE [OF loop]; force dest: place_loop)
  next
    assume "close_step s t"
    with assms(2) show False by (auto elim: close_stepE)
  qed
qed

section \<open>Properties\<close>

text \<open>
  C18: The proxy can always be shut down. Whatever the goroutines have done so far, there is a way on which
  \<open>Close\<close> returns, the receive loop and every reply loop end, the lock is free, no connection is open
  and the table is empty: no goroutine waits for ever, and nothing leaks. Nothing happens after that.
\<close>

theorem udp_can_shut_down:
  assumes "udp_reachable s"
  shows "\<exists>t. udp_step\<^sup>*\<^sup>* s t \<and> u_close t = C_Done \<and> u_run t = R_Stopped
    \<and> (\<forall>c l. u_loops t c = Some l \<longrightarrow> lp_pc l = L_Done)
    \<and> u_lock t = None \<and> u_open t = {} \<and> u_connTrackTable t = Map.empty \<and> (\<forall>t'. \<not> udp_step t t')"
proof -
  obtain t where t: "udp_step\<^sup>*\<^sup>* s t" "udp_reachable t" "udp_rank t = 0"
    using udp_runs_out [OF assms] by blast
  note inv = udp_invD [OF t(2)]
  have stopped: "u_close t = C_Done" "u_run t = R_Stopped" "loops_rank t = 0"
    using t(3) by (simp_all add: udp_rank_def run_rank_0 close_rank_0)
  have ended: "pc = L_Done" if "place t c = Some pc" for c pc
  proof -
    have "c < u_next t" using that inv(1) by (auto simp: inv_clients_def)
    with stopped(3) have "(case place t c of None \<Rightarrow> 0 | Some pc \<Rightarrow> loop_rank pc) = 0"
      by (simp add: loops_rank_def)
    with that show ?thesis by (simp add: loop_rank_0)
  qed
  have "lp_pc l = L_Done" if "u_loops t c = Some l" for c l
    using place_loop [OF that] by (rule ended)
  moreover have "u_open t = {}"
    using inv(5) ended by (fastforce simp: inv_open_def)
  moreover have "u_connTrackTable t k = None" for k
    using inv_tableD [OF inv(2), of k] ended by (cases "u_connTrackTable t k") (auto simp: live_def)
  moreover have "u_lock t = None"
  proof (cases "u_lock t")
    case (Some h)
    then show ?thesis using inv(4) stopped ended by (cases h) (auto simp: inv_lock_def)
  qed simp
  moreover have "\<not> udp_step t t'" for t'
    by (rule no_step_after_end) (use stopped ended in auto)
  ultimately show ?thesis using t(1) stopped by blast
qed

lemma udp_can_shut_down_witness:
  "u_open demo_answered = {0} \<and> (\<exists>t. udp_step\<^sup>*\<^sup>* demo_answered t \<and> u_open t = {} \<and> u_close t = C_Done)"
  using udp_can_shut_down [OF demo_answered] by (auto simp: demo_answered_def demo_dialled_def)

end
