(* ===== verification/UdpTraffic.thy ===== *)
theory UdpTraffic
  imports UdpProxy
begin

text \<open>
  What the UDP proxy does with the datagrams it reads: a history of the executions of \<^const>\<open>udp_step\<close>
  records them, and the bytes written are compared with it.
\<close>

section \<open>Relaying\<close>

text \<open>
  A loop that takes datagrams one by one, each with a tag, and writes each in pieces. The third
  argument is what is left of the datagram under way; the last counts the datagrams given up before
  their end.
\<close>

inductive relays :: "('a \<times> string) list \<Rightarrow> ('a \<times> string) list \<Rightarrow> ('a \<times> string) option \<Rightarrow> nat \<Rightarrow> bool" where
  rel_start: "relays [] [] None 0"
| rel_take: "relays ds out None n \<Longrightarrow> relays (ds @ [(a, d)]) out (Some (a, d)) n"
| rel_piece: "relays ds out (Some (a, x @ rest)) n \<Longrightarrow> relays ds (out @ [(a, x)]) (Some (a, rest)) n"
| rel_finish: "relays ds out (Some (a, [])) n \<Longrightarrow> relays ds out None n"
| rel_give_up: "relays ds out (Some (a, rest)) n \<Longrightarrow> relays ds out None (Suc n)"

text \<open>
  The pieces of every datagram, in the order of the datagrams; they make up the datagram from its
  start on, and the whole of it but for \<open>n\<close> of them.
\<close>

definition pieces :: "('a \<times> string) list \<Rightarrow> string list list \<Rightarrow> ('a \<times> string) list" where
  "pieces ds css = concat (map2 (\<lambda>(a, d) cs. map (Pair a) cs) ds css)"

definition cut_short :: "('a \<times> string) list \<Rightarrow> string list list \<Rightarrow> nat" where
  "cut_short ds css = length (filter (\<lambda>((a, d), cs). concat cs \<noteq> d) (zip ds css))"

definition relayed :: "('a \<times> string) list \<Rightarrow> ('a \<times> string) list \<Rightarrow> nat \<Rightarrow> bool" where
  "relayed ds out n \<longleftrightarrow>
     (\<exists>css. list_all2 (\<lambda>(a, d) cs. prefix (concat cs) d) ds css \<and> out = pieces ds css \<and> cut_short ds css \<le> n)"

lemma pieces_snoc [simp]: "length ds = length css \<Longrightarrow> pieces (ds @ [(a, d)]) (css @ [cs]) = pieces ds css @ map (Pair a) cs"
  by (simp add: pieces_def)

lemma cut_short_snoc [simp]:
  "length ds = length css \<Longrightarrow>
     cut_short (ds @ [(a, d)]) (css @ [cs]) = cut_short ds css + (if concat cs \<noteq> d then 1 else 0)"
  by (simp add: cut_short_def)

text \<open>The same for a datagram under way.\<close>

definition relayed_to :: "('a \<times> string) list \<Rightarrow> ('a \<times> string) list \<Rightarrow> 'a \<Rightarrow> string \<Rightarrow> nat \<Rightarrow> bool" where
  "relayed_to ds out a rest n \<longleftrightarrow>
     (\<exists>ds' css cs. ds = ds' @ [(a, concat cs @ rest)] \<and> list_all2 (\<lambda>(a, d) cs. prefix (concat cs) d) ds' css
        \<and> out = pieces ds' css @ map (Pair a) cs \<and> cut_short ds' css \<le> n)"

lemma relayed_take: "relayed ds out n \<Longrightarrow> relayed_to (ds @ [(a, d)]) out a d n"
  unfolding relayed_def relayed_to_def
proof (elim exE conjE)
  fix css
  assume "list_all2 (\<lambda>(a, d) cs. prefix (concat cs) d) ds css" "out = pieces ds css" "cut_short ds css \<le> n"
  then show "\<exists>ds' css cs. ds @ [(a, d)] = ds' @ [(a, concat cs @ d)]
      \<and> list_all2 (\<lambda>(a, d) cs. prefix (concat cs) d) ds' css
      \<and> out = pieces ds' css @ map (Pair a) cs \<and> cut_short ds' css \<le> n"
    by (intro exI [of _ ds] exI [of _ css] exI [of _ "[]"]) simp
qed

lemma relayed_piece: "relayed_to ds out a (x @ rest) n \<Longrightarrow> relayed_to ds (out @ [(a, x)]) a rest n"
  unfolding relayed_to_def
proof (elim exE conjE)
  fix ds' css cs
  assume "ds = ds' @ [(a, concat cs @ x @ rest)]" "list_all2 (\<lambda>(a, d) cs. prefix (concat cs) d) ds' css"
    "out = pieces ds' css @ map (Pair a) cs" "cut_short ds' css \<le> n"
  then show "\<exists>ds' css cs. ds = ds' @ [(a, concat cs @ rest)] \<and> list_all2 (\<lambda>(a, d) cs. prefix (concat cs) d) ds' css
      \<and> out @ [(a, x)] = pieces ds' css @ map (Pair a) cs \<and> cut_short ds' css \<le> n"
    by (intro exI [of _ ds'] exI [of _ css] exI [of _ "cs @ [x]"]) simp
qed

lemma relayed_end: "relayed_to ds out a rest n \<Longrightarrow> relayed ds out (if rest = [] then n else Suc n)"
  unfolding relayed_to_def
proof (elim exE conjE)
  fix ds' css cs
  assume *: "ds = ds' @ [(a, concat cs @ rest)]" "list_all2 (\<lambda>(a, d) cs. prefix (concat cs) d) ds' css"
    "out = pieces ds' css @ map (Pair a) cs" "cut_short ds' css \<le> n"
  then have "length ds' = length css" by (simp add: list_all2_lengthD)
  with * show "relayed ds out (if rest = [] then n else Suc n)"
    unfolding relayed_def by (intro exI [of _ "css @ [cs]"]) (auto intro: list_all2_appendI)
qed

lemma relayed_mono: "relayed ds out n \<Longrightarrow> n \<le> m \<Longrightarrow> relayed ds out m"
  unfolding relayed_def using le_trans by blast

lemma relays_relayed:
  "relays ds out p n \<Longrightarrow> (case p of None \<Rightarrow> relayed ds out n | Some (a, rest) \<Rightarrow> relayed_to ds out a rest n)"
proof (induction rule: relays.induct)
  case rel_start
  then show ?case by (simp add: relayed_def pieces_def cut_short_def)
next
  case (rel_finish ds out a n)
  then show ?case using relayed_end [of ds out a "[]" n] by simp
next
  case (rel_give_up ds out a rest n)
  then show ?case using relayed_end [of ds out a rest n] relayed_mono by (cases "rest = []") fastforce+
qed (simp_all add: relayed_take relayed_piece)

lemma relays_bound: "relays ds out p n \<Longrightarrow> relayed ds out (n + (if p = None then 0 else 1))"
proof (cases p)
  case (Some ar)
  assume "relays ds out p n"
  then have "relayed_to ds out (fst ar) (snd ar) n"
    using relays_relayed [of ds out p n] Some by (cases ar) simp
  then show ?thesis using relayed_end relayed_mono [of ds out _ "Suc n"] Some by (cases "snd ar = []") fastforce+
qed (use relays_relayed [of ds out p n] in simp)

section \<open>Histories\<close>

text \<open>What one step of the proxy reads, from a client or over a connection, and whether it gives a datagram up.\<close>

definition received :: "udp \<Rightarrow> udp \<Rightarrow> (SockAddr \<times> string) list" where
  "received s t =
     (case (u_run s, u_run t) of
        (R_Read, R_WantLock sender k data) \<Rightarrow> [(sender, data)]
      | _ \<Rightarrow> [])"

definition answered :: "conn \<Rightarrow> udp \<Rightarrow> udp \<Rightarrow> string list" where
  "answered c s t =
     (case (place s c, place t c) of
        (Some L_Read, Some (L_Write data)) \<Rightarrow> [data]
      | _ \<Rightarrow> [])"

definition failed :: "udp \<Rightarrow> udp \<Rightarrow> nat" where
  "failed s t =
     (case (u_run s, u_run t) of
        (R_Locked sender k data, R_Read) \<Rightarrow> 1
      | (R_Write sender c data, R_Read) \<Rightarrow> if data = [] then 0 else 1
      | _ \<Rightarrow> 0)"

inductive udp_history :: "(SockAddr \<times> string) list \<Rightarrow> (conn \<Rightarrow> string list) \<Rightarrow> nat \<Rightarrow> udp \<Rightarrow> bool" where
  hist_init: "udp_history [] (\<lambda>c. []) 0 udp_init"
| hist_step: "udp_history rs as n s \<Longrightarrow> udp_step s t \<Longrightarrow>
    udp_history (rs @ received s t) (\<lambda>c. as c @ answered c s t) (n + failed s t) t"

lemma udp_history_reachable: "udp_history rs as n s \<Longrightarrow> udp_reachable s"
  by (induction rule: udp_history.induct) (blast intro: udp_reachable.intros)+

lemma reachable_udp_history: "udp_reachable s \<Longrightarrow> \<exists>rs as n. udp_history rs as n s"
  by (induction rule: udp_reachable.induct) (blast intro: udp_history.intros)+

text \<open>The datagram that the receive loop, or the loop of a connection, is busy with.\<close>

fun run_holds :: "run_pc \<Rightarrow> (SockAddr \<times> string) option" where
  "run_holds (R_WantLock sender k data) = Some (sender, data)"
| "run_holds (R_Locked sender k data) = Some (sender, data)"
| "run_holds (R_Write sender c data) = Some (sender, data)"
| "run_holds R_Read = None"
| "run_holds R_Stopped = None"

definition loop_holds :: "conn \<Rightarrow> udp \<Rightarrow> (conn \<times> string) option" where
  "loop_holds c s = (case place s c of Some (L_Write data) \<Rightarrow> Some (c, data) | _ \<Rightarrow> None)"

definition sent :: "udp \<Rightarrow> (SockAddr \<times> string) list" where
  "sent s = map (\<lambda>(sender, c, x). (sender, x)) (u_forwarded s)"

definition answers_sent :: "conn \<Rightarrow> udp \<Rightarrow> (conn \<times> string) list" where
  "answers_sent c s = filter (\<lambda>(c', x). c' = c) (map (\<lambda>(c', a, x). (c', x)) (u_replied s))"

definition ended :: "conn \<Rightarrow> udp \<Rightarrow> nat" where
  "ended c s = (if place s c \<in> {None, Some L_Read} \<or> loop_holds c s \<noteq> None then 0 else 1)"

definition relay_inv :: "(SockAddr \<times> string) list \<Rightarrow> (conn \<Rightarrow> string list) \<Rightarrow> nat \<Rightarrow> udp \<Rightarrow> bool" where
  "relay_inv rs as n s \<longleftrightarrow>
     relays rs (sent s) (run_holds (u_run s)) n
     \<and> (\<forall>c. \<exists>m \<le> ended c s. relays (map (Pair c) (as c)) (answers_sent c s) (loop_holds c s) m)"

lemma relay_run:
  assumes "run_step s t" and "relays rs (sent s) (run_holds (u_run s)) n"
  shows "relays (rs @ received s t) (sent t) (run_holds (u_run t)) (n + failed s t)"
  using assms
proof (induction rule: run_step.induct)
  case (run_write s sender proxyConn data written)
  then have "relays rs (sent s) (Some (sender, take written data @ drop written data)) n" by simp
  then have "relays rs (sent s @ [(sender, take written data)]) (Some (sender, drop written data)) n"
    by (rule rel_piece)
  with run_write.hyps show ?case by (simp add: sent_def received_def failed_def)
next
  case (run_write_error s sender proxyConn data)
  then show ?case using rel_give_up [of rs "sent s" sender data n] by (simp add: sent_def received_def failed_def)
next
  case (run_dial_error s sender fromKey data)
  then show ?case using rel_give_up [of rs "sent s" sender data n] by (simp add: sent_def received_def failed_def)
qed (auto simp: sent_def received_def failed_def intro: rel_take rel_finish)

lemma relay_run_others:
  assumes "run_step s t" and "inv_clients s"
  shows "answered c s t = []" "answers_sent c t = answers_sent c s" "loop_holds c t = loop_holds c s" "ended c t = ended c s"
proof -
  have "place t c = place s c \<or> place s c = None \<and> place t c = Some L_Read"
    using assms(1)
  proof cases
    case (run_dial sender fromKey data)
    then show ?thesis using fresh_loop [OF assms(2)] by simp
  qed simp_all
  then show "answered c s t = []" "loop_holds c t = loop_holds c s" "ended c t = ended c s"
    by (elim disjE conjE; simp add: answered_def loop_holds_def ended_def split: option.split loop_pc.split)+
  show "answers_sent c t = answers_sent c s"
    using assms(1) by cases (simp_all add: answers_sent_def)
qed

text \<open>The loop of a connection; the other connections are not concerned.\<close>

lemma relay_loop:
  assumes "loop_step c s t" and "m \<le> ended c s" and "relays (map (Pair c) ds) (answers_sent c s) (loop_holds c s) m"
  shows "\<exists>m' \<le> ended c t. relays (map (Pair c) (ds @ answered c s t)) (answers_sent c t) (loop_holds c t) m'"
  using assms
proof (induction rule: loop_step.induct)
  case (loop_read s data)
  then have "relays (map (Pair c) (ds @ [data])) (answers_sent c s) (Some (c, data)) m"
    by (simp add: loop_holds_def rel_take)
  with loop_read show ?case
    by (intro exI [of _ m]) (simp add: answered_def answers_sent_def loop_holds_def ended_def)
next
  case (loop_write s l data written)
  have place: "place s c = Some (L_Write data)" using loop_write.hyps by (simp add: place_def)
  then have "relays (map (Pair c) ds) (answers_sent c s) (Some (c, take written data @ drop written data)) m"
    using loop_write.prems by (simp add: loop_holds_def)
  then have "relays (map (Pair c) ds) (answers_sent c s @ [(c, take written data)]) (Some (c, drop written data)) m"
    by (rule rel_piece)
  with loop_write.prems place show ?case
    by (intro exI [of _ m]) (simp add: answered_def answers_sent_def loop_holds_def ended_def)
next
  case (loop_write_error s data)
  then have "relays (map (Pair c) ds) (answers_sent c s) None (Suc m)"
    by (intro rel_give_up [of _ _ c data]) (simp add: loop_holds_def)
  with loop_write_error show ?case
    by (intro exI [of _ "Suc m"]) (simp add: answered_def answers_sent_def loop_holds_def ended_def)
next
  case (loop_write_done s)
  then have "relays (map (Pair c) ds) (answers_sent c s) None m"
    by (intro rel_finish [of _ _ c]) (simp add: loop_holds_def)
  with loop_write_done show ?case
    by (intro exI [of _ m]) (simp add: answered_def answers_sent_def loop_holds_def ended_def)
qed (auto simp: answered_def answers_sent_def loop_holds_def ended_def dest!: place_loop)

lemma relay_loop_others:
  assumes "loop_step c' s t" and "c \<noteq> c'"
  shows "answered c s t = []" "answers_sent c t = answers_sent c s" "loop_holds c t = loop_holds c s" "ended c t = ended c s"
proof -
  have "place t c = place s c" using assms by (induction rule: loop_step.induct) simp_all
  then show "answered c s t = []" "loop_holds c t = loop_holds c s" "ended c t = ended c s"
    by (simp_all add: answered_def loop_holds_def ended_def split: option.splits loop_pc.splits)
  show "answers_sent c t = answers_sent c s"
    using assms by (induction rule: loop_step.induct) (simp_all add: answers_sent_def)
qed

lemma same_run: "u_run t = u_run s \<Longrightarrow> received s t = [] \<and> failed s t = 0"
  by (simp add: received_def failed_def split: run_pc.splits)

lemma loop_run_same: "loop_step c s t \<Longrightarrow> u_run t = u_run s \<and> sent t = sent s"
  by (induction rule: loop_step.induct) (simp_all add: sent_def)

lemma close_run_same: "close_step s t \<Longrightarrow> u_run t = u_run s \<and> sent t = sent s"
  by (induction rule: close_step.induct) (simp_all add: sent_def)

lemma relay_inv_step:
  assumes "udp_step s t" and "inv_clients s" and "relay_inv rs as n s"
  shows "relay_inv (rs @ received s t) (\<lambda>c. as c @ answered c s t) (n + failed s t) t"
  using assms(1)
proof cases
  case step_run
  with assms show ?thesis
    by (simp add: relay_inv_def relay_run relay_run_others [OF step_run assms(2)])
next
  case (step_loop c)
  have "\<exists>m \<le> ended c' t. relays (map (Pair c') (as c' @ answered c' s t)) (answers_sent c' t) (loop_holds c' t) m" for c'
    using assms(3) relay_loop [OF step_loop, of _ "as c"] relay_loop_others [OF step_loop, of c']
    unfolding relay_inv_def by (cases "c' = c") (blast, simp)
  with assms(3) show ?thesis
    using loop_run_same [OF step_loop] same_run [of t s] by (simp add: relay_inv_def)
next
  case step_close
  have place: "place t = place s" "u_replied t = u_replied s"
    using step_close by (induction rule: close_step.induct) simp_all
  have "answered c s t = []" for c by (simp add: answered_def place split: option.split loop_pc.split)
  with assms(3) show ?thesis
    using close_run_same [OF step_close] same_run [of t s]
    by (simp add: relay_inv_def answers_sent_def loop_holds_def ended_def place)
qed

lemma relay_inv_history: "udp_history rs as n s \<Longrightarrow> relay_inv rs as n s"
proof (induction rule: udp_history.induct)
  case hist_init
  then show ?case
    by (simp add: relay_inv_def sent_def answers_sent_def loop_holds_def place_def udp_init_def rel_start)
      (intro allI exI [of _ 0], simp add: rel_start)
next
  case (hist_step rs as n s t)
  then show ?case using relay_inv_step udp_invD(1) [OF udp_history_reachable] by blast
qed

text \<open>No datagram is longer than the buffer.\<close>

lemma answeredE: "d \<in> set (answered c s t) \<Longrightarrow> place s c = Some L_Read \<and> place t c = Some (L_Write d)"
  by (auto simp: answered_def split: option.splits loop_pc.splits)

lemma read_bound:
  assumes "udp_step s t"
  shows "\<forall>(a, d) \<in> set (received s t). length d \<le> UDPBufSize" "\<forall>d \<in> set (answered c s t). length d \<le> UDPBufSize"
proof -
  have "(\<forall>(a, d) \<in> set (received s t). length d \<le> UDPBufSize) \<and> (\<forall>d \<in> set (answered c s t). length d \<le> UDPBufSize)"
    using assms
  proof cases
    case step_run
    then show ?thesis
      by cases (auto simp: received_def dest!: answeredE split: if_splits)
  next
    case (step_loop c')
    then have "received s t = []" using loop_run_same same_run by blast
    moreover have "\<forall>d \<in> set (answered c s t). length d \<le> UDPBufSize"
      using step_loop by cases (auto dest!: answeredE place_loop split: if_splits)
    ultimately show ?thesis by simp
  next
    case step_close
    then show ?thesis
      by cases (auto simp: received_def dest!: answeredE split: run_pc.splits)
  qed
  then show "\<forall>(a, d) \<in> set (received s t). length d \<le> UDPBufSize" "\<forall>d \<in> set (answered c s t). length d \<le> UDPBufSize"
    by simp_all
qed

lemma history_bound:
  "udp_history rs as n s \<Longrightarrow> (\<forall>(a, d) \<in> set rs. length d \<le> UDPBufSize) \<and> (\<forall>d \<in> set (as c). length d \<le> UDPBufSize)"
  by (induction rule: udp_history.induct) (auto dest: read_bound(1) read_bound(2) [where c = c])

section \<open>Properties\<close>

text \<open>
  C10: The proxy passes datagrams on as they are. In every interleaving: what has been written to the backend
  is, datagram by datagram in the order in which they were read, made of pieces of them from the
  start on, each under its sender; all of them are complete but for at most one per dial or write
  that failed, and the one under way. So it is with the answers of every connection, of which only
  the last can be incomplete. A datagram has at most the bytes of the buffer.
\<close>

theorem udp_relays:
  assumes "udp_history rs as n s"
  shows "relayed rs (sent s) (n + (if run_holds (u_run s) = None then 0 else 1))
    \<and> relayed (map (Pair c) (as c)) (answers_sent c s) 1
    \<and> (\<forall>(sender, d) \<in> set rs. length d \<le> UDPBufSize) \<and> (\<forall>d \<in> set (as c). length d \<le> UDPBufSize)"
proof -
  have inv: "relay_inv rs as n s" by (rule relay_inv_history [OF assms])
  then obtain m where m: "m \<le> ended c s" "relays (map (Pair c) (as c)) (answers_sent c s) (loop_holds c s) m"
    unfolding relay_inv_def by blast
  have "m + (if loop_holds c s = None then 0 else 1) \<le> 1"
    using m(1) by (auto simp: ended_def split: if_splits)
  with relays_bound [OF m(2)] have "relayed (map (Pair c) (as c)) (answers_sent c s) 1"
    by (rule relayed_mono)
  with inv relays_bound history_bound [OF assms] show ?thesis
    unfolding relay_inv_def by blast
qed

lemma udp_relays_witness:
  "\<exists>rs as n. udp_history rs as n demo_answered \<and> relayed rs [(demo_client, ''q'')] (n + 1)
     \<and> relayed (map (Pair (0 :: conn)) (as 0)) [(0, ''a'')] 1"
proof -
  obtain rs as n where h: "udp_history rs as n demo_answered"
    using reachable_udp_history [OF demo_answered] by blast
  have "sent demo_answered = [(demo_client, ''q'')]" "answers_sent 0 demo_answered = [(0, ''a'')]"
    "run_holds (u_run demo_answered) \<noteq> None"
    by (simp_all add: sent_def answers_sent_def demo_answered_def)
  with udp_relays [OF h, of 0] have "relayed rs [(demo_client, ''q'')] (n + 1)" "relayed (map (Pair (0 :: conn)) (as 0)) [(0, ''a'')] 1"
    by simp_all
  with h show ?thesis by blast
qed

end
