(* ===== verification/FFJsonLexer.thy ===== *)
theory FFJsonLexer
  imports EnvoyObjects
begin

text \<open>
  What the generated JSON decoders of \<open>internal/envoyhttp/envoy_api_objects_ffjson.go\<close> have in
  common: the loop \<open>mainparse\<close> with its states, and the code of a field by its type. ffjson's lexer
  is an argument, as are its comparisons of keys and its reader of integers. A value that was
  filled in part when an error came up is not kept: the callers drop it. Every loop has fuel;
  the theory \<open>FFJsonFuel\<close> shows how much is enough.
\<close>

section \<open>The lexer\<close>

text \<open>ffjson names the brackets after their place on the keyboard: a \<open>left_bracket\<close> is \<open>{\<close>.\<close>

datatype FFTok =
  FFTok_init | FFTok_eof | FFTok_error | FFTok_left_bracket | FFTok_right_bracket | FFTok_left_brace
| FFTok_right_brace | FFTok_comma | FFTok_colon | FFTok_string | FFTok_integer | FFTok_double
| FFTok_bool | FFTok_null | FFTok_other string

datatype FFParseState =
  FFParse_map_start | FFParse_want_key | FFParse_want_colon | FFParse_want_value | FFParse_after_value

record 'f fflexer =
  lx_NewFFLexer :: "string \<Rightarrow> 'f"
  lx_Scan :: "'f \<Rightarrow> FFTok \<times> 'f"
  lx_Output :: "'f \<Rightarrow> string"
  lx_SkipField :: "FFTok \<Rightarrow> 'f \<Rightarrow> goerror option \<times> 'f"
  lx_BigError :: "'f \<Rightarrow> goerror option"
  lx_ToError :: "'f \<Rightarrow> goerror option"
  lx_WrapErr :: "'f \<Rightarrow> goerror \<Rightarrow> goerror"
  lx_tok_String :: "FFTok \<Rightarrow> string"
  lx_ParseInt :: "string \<Rightarrow> goerror + int64"
  lx_EqualFoldRight :: "string \<Rightarrow> string \<Rightarrow> bool"
  lx_AsciiEqualFold :: "string \<Rightarrow> string \<Rightarrow> bool"
  lx_SimpleLetterEqualFold :: "string \<Rightarrow> string \<Rightarrow> bool"

text \<open>How a decoder, or the code of one field, ends.\<close>

datatype ('a, 'f) decoded = Decoded 'a 'f | Failed goerror | Unreachable | OutOfFuel

text \<open>The labels at the end of every decoder.\<close>

definition tokerror :: "'f fflexer \<Rightarrow> 'f \<Rightarrow> ('a, 'f) decoded" where
  "tokerror L fs =
     (case lx_BigError L fs of
        Some e \<Rightarrow> Failed (lx_WrapErr L fs e)
      | None \<Rightarrow>
          (case lx_ToError L fs of
             Some e \<Rightarrow> Failed (lx_WrapErr L fs e)
           | None \<Rightarrow> Unreachable))"

definition wrongtokenerror :: "'f fflexer \<Rightarrow> FFTok \<Rightarrow> FFTok \<Rightarrow> 'f \<Rightarrow> ('a, 'f) decoded" where
  "wrongtokenerror L wantedTok tok fs =
     Failed (lx_WrapErr L fs
       (''ffjson: wanted token: '' @ lx_tok_String L wantedTok @ '', but got token: ''
        @ lx_tok_String L tok @ '' output='' @ lx_Output L fs))"

definition wantedvalue :: "'f fflexer \<Rightarrow> FFTok \<Rightarrow> 'f \<Rightarrow> ('a, 'f) decoded" where
  "wantedvalue L tok fs =
     Failed (lx_WrapErr L fs (''wanted value token, but got token: '' @ lx_tok_String L tok))"

definition cannot_unmarshal :: "'f fflexer \<Rightarrow> string \<Rightarrow> FFTok \<Rightarrow> 'f \<Rightarrow> ('a, 'f) decoded" where
  "cannot_unmarshal L kind tok fs =
     Failed (lx_WrapErr L fs
       (''cannot unmarshal '' @ lx_tok_String L tok @ '' into Go value for '' @ kind))"

definition value_token :: "FFTok \<Rightarrow> bool" where
  "value_token tok \<longleftrightarrow>
     tok \<in> {FFTok_left_brace, FFTok_left_bracket, FFTok_integer, FFTok_double, FFTok_string,
            FFTok_bool, FFTok_null}"

section \<open>Keys\<close>

text \<open>
  The choice of a field: \<open>bytes.Equal\<close> by the first byte of the key, then the comparisons that ignore
  case, in the order of the code; a key of no field, the empty one included, is skipped.
\<close>

definition switch_key :: "'k \<Rightarrow> (string \<times> 'k) list \<Rightarrow> ((string \<Rightarrow> bool) \<times> 'k) list \<Rightarrow> string \<Rightarrow> 'k" where
  "switch_key no_such_key equal folds kn =
     (if length kn \<le> 0 then no_such_key
      else case map_of equal kn of
             Some key \<Rightarrow> key
           | None \<Rightarrow>
               (case find (\<lambda>(eq, key). eq kn) folds of
                  Some (eq, key) \<Rightarrow> key
                | None \<Rightarrow> no_such_key))"

section \<open>The loop\<close>

text \<open>
  One round scans one token. \<open>handle\<close> is the code of the fields after the label of the field;
  \<open>base\<close> is the initial value of \<open>currentKey\<close>, which no case of the switch has.
\<close>

fun mainparse ::
  "'f fflexer \<Rightarrow> (string \<Rightarrow> 'k) \<Rightarrow> ('k \<Rightarrow> FFTok \<Rightarrow> 'a \<Rightarrow> 'f \<Rightarrow> ('a, 'f) decoded) \<Rightarrow> 'k \<Rightarrow> 'k \<Rightarrow> nat
   \<Rightarrow> FFParseState \<Rightarrow> 'k \<Rightarrow> 'a \<Rightarrow> 'f \<Rightarrow> ('a, 'f) decoded" where
  "mainparse L key_of handle base no_such_key 0 state currentKey uj fs = OutOfFuel"
| "mainparse L key_of handle base no_such_key (Suc n) state currentKey uj fs =
     (let (tok, fs) = lx_Scan L fs in
      if tok = FFTok_error then tokerror L fs
      else case state of
        FFParse_map_start \<Rightarrow>
          if tok \<noteq> FFTok_left_bracket then wrongtokenerror L FFTok_left_bracket tok fs
          else mainparse L key_of handle base no_such_key n FFParse_want_key currentKey uj fs
      | FFParse_after_value \<Rightarrow>
          if tok = FFTok_comma then
            mainparse L key_of handle base no_such_key n FFParse_want_key currentKey uj fs
          else if tok = FFTok_right_bracket then Decoded uj fs
          else wrongtokenerror L FFTok_comma tok fs
      | FFParse_want_key \<Rightarrow>
          if tok = FFTok_right_bracket then Decoded uj fs
          else if tok \<noteq> FFTok_string then wrongtokenerror L FFTok_string tok fs
          else mainparse L key_of handle base no_such_key n FFParse_want_colon
                 (key_of (lx_Output L fs)) uj fs
      | FFParse_want_colon \<Rightarrow>
          if tok \<noteq> FFTok_colon then wrongtokenerror L FFTok_colon tok fs
          else mainparse L key_of handle base no_such_key n FFParse_want_value currentKey uj fs
      | FFParse_want_value \<Rightarrow>
          if \<not> value_token tok then wantedvalue L tok fs
          else if currentKey = no_such_key then
            (case lx_SkipField L tok fs of
               (Some err, fs) \<Rightarrow> Failed (lx_WrapErr L fs err)
             | (None, fs) \<Rightarrow>
                 mainparse L key_of handle base no_such_key n FFParse_after_value currentKey uj fs)
          else if currentKey = base then
            mainparse L key_of handle base no_such_key n FFParse_want_value currentKey uj fs
          else
            (case handle currentKey tok uj fs of
               Decoded uj fs \<Rightarrow>
                 mainparse L key_of handle base no_such_key n FFParse_after_value currentKey uj fs
             | r \<Rightarrow> r))"

section \<open>Fields\<close>

text \<open>A string, which a null leaves as it is.\<close>

definition handle_string ::
  "'f fflexer \<Rightarrow> (string \<Rightarrow> 'a \<Rightarrow> 'a) \<Rightarrow> FFTok \<Rightarrow> 'a \<Rightarrow> 'f \<Rightarrow> ('a, 'f) decoded" where
  "handle_string L put tok uj fs =
     (if tok \<noteq> FFTok_string \<and> tok \<noteq> FFTok_null then cannot_unmarshal L ''string'' tok fs
      else if tok = FFTok_null then Decoded uj fs
      else Decoded (put (lx_Output L fs) uj) fs)"

definition handle_int ::
  "'f fflexer \<Rightarrow> string \<Rightarrow> (int64 \<Rightarrow> 'a \<Rightarrow> 'a) \<Rightarrow> FFTok \<Rightarrow> 'a \<Rightarrow> 'f \<Rightarrow> ('a, 'f) decoded" where
  "handle_int L kind put tok uj fs =
     (if tok \<noteq> FFTok_integer \<and> tok \<noteq> FFTok_null then cannot_unmarshal L kind tok fs
      else if tok = FFTok_null then Decoded uj fs
      else case lx_ParseInt L (lx_Output L fs) of
             Inl err \<Rightarrow> Failed (lx_WrapErr L fs err)
           | Inr tval \<Rightarrow> Decoded (put tval uj) fs)"

text \<open>
  A pointer to a struct. The nested decoder starts after the opening token, whatever that token
  was, and goes on with the struct that is there.
\<close>

definition handle_ptr ::
  "(FFParseState \<Rightarrow> 'b \<Rightarrow> 'f \<Rightarrow> ('b, 'f) decoded) \<Rightarrow> 'b \<Rightarrow> ('a \<Rightarrow> 'b option) \<Rightarrow> ('b option \<Rightarrow> 'a \<Rightarrow> 'a)
   \<Rightarrow> FFTok \<Rightarrow> 'a \<Rightarrow> 'f \<Rightarrow> ('a, 'f) decoded" where
  "handle_ptr unmarshal zero get put tok uj fs =
     (if tok = FFTok_null then Decoded (put None uj) fs
      else case unmarshal FFParse_want_key (case get uj of None \<Rightarrow> zero | Some v \<Rightarrow> v) fs of
             Decoded v fs \<Rightarrow> Decoded (put (Some v) uj) fs
           | Failed err \<Rightarrow> Failed err
           | Unreachable \<Rightarrow> Unreachable
           | OutOfFuel \<Rightarrow> OutOfFuel)"

text \<open>
  The loop over the elements of a slice. The code of an element gives the element, or nothing when
  it jumps back to \<open>mainparse\<close>, which leaves the slice as it is so far. A comma is refused only
  before the first element: \<open>wantVal\<close> is not set again.
\<close>

fun slice_loop ::
  "'f fflexer \<Rightarrow> (FFTok \<Rightarrow> 'f \<Rightarrow> ('e option, 'f) decoded) \<Rightarrow> nat \<Rightarrow> bool \<Rightarrow> 'e list \<Rightarrow> 'f
   \<Rightarrow> ('e list, 'f) decoded" where
  "slice_loop L elem 0 wantVal vs fs = OutOfFuel"
| "slice_loop L elem (Suc n) wantVal vs fs =
     (let (tok, fs) = lx_Scan L fs in
      if tok = FFTok_error then tokerror L fs
      else if tok = FFTok_right_brace then Decoded vs fs
      else if tok = FFTok_comma then
        (if wantVal then wantedvalue L tok fs else slice_loop L elem n wantVal vs fs)
      else case elem tok fs of
             Decoded (Some v) fs \<Rightarrow> slice_loop L elem n False (vs @ [v]) fs
           | Decoded None fs \<Rightarrow> Decoded vs fs
           | Failed err \<Rightarrow> Failed err
           | Unreachable \<Rightarrow> Unreachable
           | OutOfFuel \<Rightarrow> OutOfFuel)"

definition handle_slice ::
  "'f fflexer \<Rightarrow> nat \<Rightarrow> (FFTok \<Rightarrow> 'f \<Rightarrow> ('e option, 'f) decoded) \<Rightarrow> ('e list option \<Rightarrow> 'a \<Rightarrow> 'a)
   \<Rightarrow> FFTok \<Rightarrow> 'a \<Rightarrow> 'f \<Rightarrow> ('a, 'f) decoded" where
  "handle_slice L n elem put tok uj fs =
     (if tok \<noteq> FFTok_left_brace \<and> tok \<noteq> FFTok_null then cannot_unmarshal L [] tok fs
      else if tok = FFTok_null then Decoded (put None uj) fs
      else case slice_loop L elem n True [] fs of
             Decoded vs fs \<Rightarrow> Decoded (put (Some vs) uj) fs
           | Failed err \<Rightarrow> Failed err
           | Unreachable \<Rightarrow> Unreachable
           | OutOfFuel \<Rightarrow> OutOfFuel)"

text \<open>The elements: a pointer to a struct, and a string.\<close>

definition elem_ptr ::
  "(FFParseState \<Rightarrow> 'b \<Rightarrow> 'f \<Rightarrow> ('b, 'f) decoded) \<Rightarrow> 'b \<Rightarrow> FFTok \<Rightarrow> 'f \<Rightarrow> ('b option option, 'f) decoded" where
  "elem_ptr unmarshal zero tok fs =
     (if tok = FFTok_null then Decoded None fs
      else case unmarshal FFParse_want_key zero fs of
             Decoded v fs \<Rightarrow> Decoded (Some (Some v)) fs
           | Failed err \<Rightarrow> Failed err
           | Unreachable \<Rightarrow> Unreachable
           | OutOfFuel \<Rightarrow> OutOfFuel)"

definition elem_string :: "'f fflexer \<Rightarrow> FFTok \<Rightarrow> 'f \<Rightarrow> (string option, 'f) decoded" where
  "elem_string L tok fs = handle_string L (\<lambda>v _. Some v) tok (Some []) fs"

text \<open>A map of strings; a null is the empty key or the empty value.\<close>

fun map_loop ::
  "'f fflexer \<Rightarrow> nat \<Rightarrow> bool \<Rightarrow> (string \<rightharpoonup> string) \<Rightarrow> 'f \<Rightarrow> (string \<rightharpoonup> string, 'f) decoded" where
  "map_loop L 0 wantVal m fs = OutOfFuel"
| "map_loop L (Suc n) wantVal m fs =
     (let (tok, fs) = lx_Scan L fs in
      if tok = FFTok_error then tokerror L fs
      else if tok = FFTok_right_bracket then Decoded m fs
      else if tok = FFTok_comma then
        (if wantVal then wantedvalue L tok fs else map_loop L n wantVal m fs)
      else case handle_string L (\<lambda>v _. v) tok [] fs of
             Decoded k fs \<Rightarrow>
               (let (tok, fs) = lx_Scan L fs in
                if tok \<noteq> FFTok_colon then
                  Failed (lx_WrapErr L fs (''wanted colon token, but got token: '' @ lx_tok_String L tok))
                else
                  (let (tok, fs) = lx_Scan L fs in
                   case handle_string L (\<lambda>v _. v) tok [] fs of
                     Decoded v fs \<Rightarrow> map_loop L n False (m(k \<mapsto> v)) fs
                   | Failed err \<Rightarrow> Failed err
                   | Unreachable \<Rightarrow> Unreachable
                   | OutOfFuel \<Rightarrow> OutOfFuel))
           | Failed err \<Rightarrow> Failed err
           | Unreachable \<Rightarrow> Unreachable
           | OutOfFuel \<Rightarrow> OutOfFuel)"

definition handle_map ::
  "'f fflexer \<Rightarrow> nat \<Rightarrow> ((string \<rightharpoonup> string) option \<Rightarrow> 'a \<Rightarrow> 'a) \<Rightarrow> FFTok \<Rightarrow> 'a \<Rightarrow> 'f \<Rightarrow> ('a, 'f) decoded" where
  "handle_map L n put tok uj fs =
     (if tok \<noteq> FFTok_left_bracket \<and> tok \<noteq> FFTok_null then cannot_unmarshal L [] tok fs
      else if tok = FFTok_null then Decoded (put None uj) fs
      else case map_loop L n True Map.empty fs of
             Decoded m fs \<Rightarrow> Decoded (put (Some m) uj) fs
           | Failed err \<Rightarrow> Failed err
           | Unreachable \<Rightarrow> Unreachable
           | OutOfFuel \<Rightarrow> OutOfFuel)"

end
