(* ===== verification/FFJsonDecode.thy ===== *)
theory FFJsonDecode
  imports FFJsonLexer
begin

text \<open>
  The generated JSON decoders (\<open>UnmarshalJSON\<close> and \<open>UnmarshalJSONFFLexer\<close> of
  \<open>internal/envoyhttp/envoy_api_objects_ffjson.go\<close>), struct by struct: the constants of its
  fields, the choice of a field by a key, the code of each field (the long ones by a definition of
  their own), and the decoder. The zero values are those of Go's \<open>new\<close>. \<open>n\<close> is the fuel of every
  loop.
\<close>

section \<open>\<open>EnvoyRouteDecorator\<close>\<close>

datatype EnvoyRouteDecorator_field =
  ffj_t_EnvoyRouteDecoratorbase | ffj_t_EnvoyRouteDecoratorno_such_key |
  ffj_t_EnvoyRouteDecorator_Operation

definition EnvoyRouteDecorator_zero :: EnvoyRouteDecorator where
  "EnvoyRouteDecorator_zero = \<lparr>dec_Operation = []\<rparr>"

definition EnvoyRouteDecorator_key :: "'f fflexer \<Rightarrow> string \<Rightarrow> EnvoyRouteDecorator_field" where
  "EnvoyRouteDecorator_key L = switch_key ffj_t_EnvoyRouteDecoratorno_such_key
     [(''operation'', ffj_t_EnvoyRouteDecorator_Operation)]
     [(lx_SimpleLetterEqualFold L ''operation'', ffj_t_EnvoyRouteDecorator_Operation)]"

definition EnvoyRouteDecorator_handle ::
  "'f fflexer \<Rightarrow> nat \<Rightarrow> EnvoyRouteDecorator_field \<Rightarrow> FFTok \<Rightarrow> EnvoyRouteDecorator \<Rightarrow> 'f
   \<Rightarrow> (EnvoyRouteDecorator, 'f) decoded" where
  "EnvoyRouteDecorator_handle L n currentKey tok uj fs =
     (case currentKey of
        ffj_t_EnvoyRouteDecorator_Operation \<Rightarrow>
          handle_string L (\<lambda>v uj. uj\<lparr>dec_Operation := v\<rparr>) tok uj fs
      | _ \<Rightarrow> Decoded uj fs)"

definition EnvoyRouteDecorator_UnmarshalJSONFFLexer ::
  "'f fflexer \<Rightarrow> nat \<Rightarrow> FFParseState \<Rightarrow> EnvoyRouteDecorator \<Rightarrow> 'f \<Rightarrow> (EnvoyRouteDecorator, 'f) decoded" where
  "EnvoyRouteDecorator_UnmarshalJSONFFLexer L n state uj fs =
     mainparse L (EnvoyRouteDecorator_key L) (EnvoyRouteDecorator_handle L n)
       ffj_t_EnvoyRouteDecoratorbase ffj_t_EnvoyRouteDecoratorno_such_key n state ffj_t_EnvoyRouteDecoratorbase uj fs"

definition EnvoyRouteDecorator_UnmarshalJSON ::
  "'f fflexer \<Rightarrow> nat \<Rightarrow> string \<Rightarrow> EnvoyRouteDecorator \<Rightarrow> (EnvoyRouteDecorator, 'f) decoded" where
  "EnvoyRouteDecorator_UnmarshalJSON L n input uj =
     EnvoyRouteDecorator_UnmarshalJSONFFLexer L n FFParse_map_start uj (lx_NewFFLexer L input)"

section \<open>\<open>EnvoyTracingConfig\<close>\<close>

datatype EnvoyTracingConfig_field =
  ffj_t_EnvoyTracingConfigbase | ffj_t_EnvoyTracingConfigno_such_key |
  ffj_t_EnvoyTracingConfig_OperationName

definition EnvoyTracingConfig_zero :: EnvoyTracingConfig where
  "EnvoyTracingConfig_zero = \<lparr>tr_OperationName = []\<rparr>"

definition EnvoyTracingConfig_key :: "'f fflexer \<Rightarrow> string \<Rightarrow> EnvoyTracingConfig_field" where
  "EnvoyTracingConfig_key L = switch_key ffj_t_EnvoyTracingConfigno_such_key
     [(''operation_name'', ffj_t_EnvoyTracingConfig_OperationName)]
     [(lx_AsciiEqualFold L ''operation_name'', ffj_t_EnvoyTracingConfig_OperationName)]"

definition EnvoyTracingConfig_handle ::
  "'f fflexer \<Rightarrow> nat \<Rightarrow> EnvoyTracingConfig_field \<Rightarrow> FFTok \<Rightarrow> EnvoyTracingConfig \<Rightarrow> 'f
   \<Rightarrow> (EnvoyTracingConfig, 'f) decoded" where
  "EnvoyTracingConfig_handle L n currentKey tok uj fs =
     (case currentKey of
        ffj_t_EnvoyTracingConfig_OperationName \<Rightarrow>
          handle_string L (\<lambda>v uj. uj\<lparr>tr_OperationName := v\<rparr>) tok uj fs
      | _ \<Rightarrow> Decoded uj fs)"

definition EnvoyTracingConfig_UnmarshalJSONFFLexer ::
  "'f fflexer \<Rightarrow> nat \<Rightarrow> FFParseState \<Rightarrow> EnvoyTracingConfig \<Rightarrow> 'f \<Rightarrow> (EnvoyTracingConfig, 'f) decoded" where
  "EnvoyTracingConfig_UnmarshalJSONFFLexer L n state uj fs =
     mainparse L (EnvoyTracingConfig_key L) (EnvoyTracingConfig_handle L n)
       ffj_t_EnvoyTracingConfigbase ffj_t_EnvoyTracingConfigno_such_key n state ffj_t_EnvoyTracingConfigbase uj fs"

definition EnvoyTracingConfig_UnmarshalJSON ::
  "'f fflexer \<Rightarrow> nat \<Rightarrow> string \<Rightarrow> EnvoyTracingConfig \<Rightarrow> (EnvoyTracingConfig, 'f) decoded" where
  "EnvoyTracingConfig_UnmarshalJSON L n input uj =
     EnvoyTracingConfig_UnmarshalJSONFFLexer L n FFParse_map_start uj (lx_NewFFLexer L input)"

section \<open>\<open>EnvoyService\<close>\<close>

datatype EnvoyService_field =
  ffj_t_EnvoyServicebase | ffj_t_EnvoyServiceno_such_key | ffj_t_EnvoyService_IPAddress |
  ffj_t_EnvoyService_LastCheckIn | ffj_t_EnvoyService_Port | ffj_t_EnvoyService_Revision |
  ffj_t_EnvoyService_Service | ffj_t_EnvoyService_ServiceRepoName | ffj_t_EnvoyService_Tags

definition EnvoyService_zero :: EnvoyService where
  "EnvoyService_zero = \<lparr>svc_IPAddress = [], svc_LastCheckIn = [], svc_Port = 0,
     svc_Revision = [], svc_Service = [], svc_ServiceRepoName = [], svc_Tags = None\<rparr>"

definition EnvoyService_key :: "'f fflexer \<Rightarrow> string \<Rightarrow> EnvoyService_field" where
  "EnvoyService_key L = switch_key ffj_t_EnvoyServiceno_such_key
     [(''ip_address'', ffj_t_EnvoyService_IPAddress),
      (''last_check_in'', ffj_t_EnvoyService_LastCheckIn), (''port'', ffj_t_EnvoyService_Port),
      (''revision'', ffj_t_EnvoyService_Revision), (''service'', ffj_t_EnvoyService_Service),
      (''service_repo_name'', ffj_t_EnvoyService_ServiceRepoName),
      (''tags'', ffj_t_EnvoyService_Tags)]
     [(lx_EqualFoldRight L ''tags'', ffj_t_EnvoyService_Tags),
      (lx_EqualFoldRight L ''service_repo_name'', ffj_t_EnvoyService_ServiceRepoName),
      (lx_EqualFoldRight L ''service'', ffj_t_EnvoyService_Service),
      (lx_EqualFoldRight L ''revision'', ffj_t_EnvoyService_Revision),
      (lx_SimpleLetterEqualFold L ''port'', ffj_t_EnvoyService_Port),
      (lx_EqualFoldRight L ''last_check_in'', ffj_t_EnvoyService_LastCheckIn),
      (lx_EqualFoldRight L ''ip_address'', ffj_t_EnvoyService_IPAddress)]"

definition EnvoyService_handle ::
  "'f fflexer \<Rightarrow> nat \<Rightarrow> EnvoyService_field \<Rightarrow> FFTok \<Rightarrow> EnvoyService \<Rightarrow> 'f
   \<Rightarrow> (EnvoyService, 'f) decoded" where
  "EnvoyService_handle L n currentKey tok uj fs =
     (case currentKey of
        ffj_t_EnvoyService_IPAddress \<Rightarrow>
          handle_string L (\<lambda>v uj. uj\<lparr>svc_IPAddress := v\<rparr>) tok uj fs
      | ffj_t_EnvoyService_LastCheckIn \<Rightarrow>
          handle_string L (\<lambda>v uj. uj\<lparr>svc_LastCheckIn := v\<rparr>) tok uj fs
      | ffj_t_EnvoyService_Port \<Rightarrow>
          handle_int L ''int64'' (\<lambda>v uj. uj\<lparr>svc_Port := v\<rparr>) tok uj fs
      | ffj_t_EnvoyService_Revision \<Rightarrow>
          handle_string L (\<lambda>v uj. uj\<lparr>svc_Revision := v\<rparr>) tok uj fs
      | ffj_t_EnvoyService_Service \<Rightarrow>
          handle_string L (\<lambda>v uj. uj\<lparr>svc_Service := v\<rparr>) tok uj fs
      | ffj_t_EnvoyService_ServiceRepoName \<Rightarrow>
          handle_string L (\<lambda>v uj. uj\<lparr>svc_ServiceRepoName := v\<rparr>) tok uj fs
      | ffj_t_EnvoyService_Tags \<Rightarrow>
          handle_map L n (\<lambda>v uj. uj\<lparr>svc_Tags := v\<rparr>) tok uj fs
      | _ \<Rightarrow> Decoded uj fs)"

definition EnvoyService_UnmarshalJSONFFLexer ::
  "'f fflexer \<Rightarrow> nat \<Rightarrow> FFParseState \<Rightarrow> EnvoyService \<Rightarrow> 'f \<Rightarrow> (EnvoyService, 'f) decoded" where
  "EnvoyService_UnmarshalJSONFFLexer L n state uj fs =
     mainparse L (EnvoyService_key L) (EnvoyService_handle L n)
       ffj_t_EnvoyServicebase ffj_t_EnvoyServiceno_such_key n state ffj_t_EnvoyServicebase uj fs"

definition EnvoyService_UnmarshalJSON ::
  "'f fflexer \<Rightarrow> nat \<Rightarrow> string \<Rightarrow> EnvoyService \<Rightarrow> (EnvoyService, 'f) decoded" where
  "EnvoyService_UnmarshalJSON L n input uj =
     EnvoyService_UnmarshalJSONFFLexer L n FFParse_map_start uj (lx_NewFFLexer L input)"

section \<open>\<open>EnvoyCluster\<close>\<close>

datatype EnvoyCluster_field =
  ffj_t_EnvoyClusterbase | ffj_t_EnvoyClusterno_such_key | ffj_t_EnvoyCluster_Name |
  ffj_t_EnvoyCluster_Type | ffj_t_EnvoyCluster_ConnectTimeoutMs | ffj_t_EnvoyCluster_LBType |
  ffj_t_EnvoyCluster_ServiceName

definition EnvoyCluster_zero :: EnvoyCluster where
  "EnvoyCluster_zero = \<lparr>cl_Name = [], cl_Type = [], cl_ConnectTimeoutMs = 0,
     cl_LBType = [], cl_ServiceName = []\<rparr>"

definition EnvoyCluster_key :: "'f fflexer \<Rightarrow> string \<Rightarrow> EnvoyCluster_field" where
  "EnvoyCluster_key L = switch_key ffj_t_EnvoyClusterno_such_key
     [(''connect_timeout_ms'', ffj_t_EnvoyCluster_ConnectTimeoutMs),
      (''lb_type'', ffj_t_EnvoyCluster_LBType), (''name'', ffj_t_EnvoyCluster_Name),
      (''service_name'', ffj_t_EnvoyCluster_ServiceName), (''type'', ffj_t_EnvoyCluster_Type)]
     [(lx_EqualFoldRight L ''service_name'', ffj_t_EnvoyCluster_ServiceName),
      (lx_AsciiEqualFold L ''lb_type'', ffj_t_EnvoyCluster_LBType),
      (lx_EqualFoldRight L ''connect_timeout_ms'', ffj_t_EnvoyCluster_ConnectTimeoutMs),
      (lx_SimpleLetterEqualFold L ''type'', ffj_t_EnvoyCluster_Type),
      (lx_SimpleLetterEqualFold L ''name'', ffj_t_EnvoyCluster_Name)]"

definition EnvoyCluster_handle ::
  "'f fflexer \<Rightarrow> nat \<Rightarrow> EnvoyCluster_field \<Rightarrow> FFTok \<Rightarrow> EnvoyCluster \<Rightarrow> 'f
   \<Rightarrow> (EnvoyCluster, 'f) decoded" where
  "EnvoyCluster_handle L n currentKey tok uj fs =
     (case currentKey of
        ffj_t_EnvoyCluster_Name \<Rightarrow>
          handle_string L (\<lambda>v uj. uj\<lparr>cl_Name := v\<rparr>) tok uj fs
      | ffj_t_EnvoyCluster_Type \<Rightarrow>
          handle_string L (\<lambda>v uj. uj\<lparr>cl_Type := v\<rparr>) tok uj fs
      | ffj_t_EnvoyCluster_ConnectTimeoutMs \<Rightarrow>
          handle_int L ''int64'' (\<lambda>v uj. uj\<lparr>cl_ConnectTimeoutMs := v\<rparr>) tok uj fs
      | ffj_t_EnvoyCluster_LBType \<Rightarrow>
          handle_string L (\<lambda>v uj. uj\<lparr>cl_LBType := v\<rparr>) tok uj fs
      | ffj_t_EnvoyCluster_ServiceName \<Rightarrow>
          handle_string L (\<lambda>v uj. uj\<lparr>cl_ServiceName := v\<rparr>) tok uj fs
      | _ \<Rightarrow> Decoded uj fs)"

definition EnvoyCluster_UnmarshalJSONFFLexer ::
  "'f fflexer \<Rightarrow> nat \<Rightarrow> FFParseState \<Rightarrow> EnvoyCluster \<Rightarrow> 'f \<Rightarrow> (EnvoyCluster, 'f) decoded" where
  "EnvoyCluster_UnmarshalJSONFFLexer L n state uj fs =
     mainparse L (EnvoyCluster_key L) (EnvoyCluster_handle L n)
       ffj_t_EnvoyClusterbase ffj_t_EnvoyClusterno_such_key n state ffj_t_EnvoyClusterbase uj fs"

definition EnvoyCluster_UnmarshalJSON ::
  "'f fflexer \<Rightarrow> nat \<Rightarrow> string \<Rightarrow> EnvoyCluster \<Rightarrow> (EnvoyCluster, 'f) decoded" where
  "EnvoyCluster_UnmarshalJSON L n input uj =
     EnvoyCluster_UnmarshalJSONFFLexer L n FFParse_map_start uj (lx_NewFFLexer L input)"

section \<open>\<open>EnvoyTCPRoute\<close>\<close>

datatype EnvoyTCPRoute_field =
  ffj_t_EnvoyTCPRoutebase | ffj_t_EnvoyTCPRouteno_such_key | ffj_t_EnvoyTCPRoute_Cluster |
  ffj_t_EnvoyTCPRoute_DestinationIPList | ffj_t_EnvoyTCPRoute_DestinationPorts |
  ffj_t_EnvoyTCPRoute_SourceIPList | ffj_t_EnvoyTCPRoute_SourcePorts

definition EnvoyTCPRoute_zero :: EnvoyTCPRoute where
  "EnvoyTCPRoute_zero = \<lparr>tcp_Cluster = [], tcp_DestinationIPList = None,
     tcp_DestinationPorts = [], tcp_SourceIPList = None, tcp_SourcePorts = None\<rparr>"

definition EnvoyTCPRoute_key :: "'f fflexer \<Rightarrow> string \<Rightarrow> EnvoyTCPRoute_field" where
  "EnvoyTCPRoute_key L = switch_key ffj_t_EnvoyTCPRouteno_such_key
     [(''cluster'', ffj_t_EnvoyTCPRoute_Cluster),
      (''destination_ip_list'', ffj_t_EnvoyTCPRoute_DestinationIPList),
      (''destination_ports'', ffj_t_EnvoyTCPRoute_DestinationPorts),
      (''source_ip_list'', ffj_t_EnvoyTCPRoute_SourceIPList),
      (''source_ports'', ffj_t_EnvoyTCPRoute_SourcePorts)]
     [(lx_EqualFoldRight L ''source_ports'', ffj_t_EnvoyTCPRoute_SourcePorts),
      (lx_EqualFoldRight L ''source_ip_list'', ffj_t_EnvoyTCPRoute_SourceIPList),
      (lx_EqualFoldRight L ''destination_ports'', ffj_t_EnvoyTCPRoute_DestinationPorts),
      (lx_EqualFoldRight L ''destination_ip_list'', ffj_t_EnvoyTCPRoute_DestinationIPList),
      (lx_EqualFoldRight L ''cluster'', ffj_t_EnvoyTCPRoute_Cluster)]"

definition EnvoyTCPRoute_handle_DestinationIPList ::
  "'f fflexer \<Rightarrow> nat \<Rightarrow> FFTok \<Rightarrow> EnvoyTCPRoute \<Rightarrow> 'f \<Rightarrow> (EnvoyTCPRoute, 'f) decoded" where
  [simp]: "EnvoyTCPRoute_handle_DestinationIPList L n =
     handle_slice L n (elem_string L) (\<lambda>v uj. uj\<lparr>tcp_DestinationIPList := v\<rparr>)"

definition EnvoyTCPRoute_handle_SourceIPList ::
  "'f fflexer \<Rightarrow> nat \<Rightarrow> FFTok \<Rightarrow> EnvoyTCPRoute \<Rightarrow> 'f \<Rightarrow> (EnvoyTCPRoute, 'f) decoded" where
  [simp]: "EnvoyTCPRoute_handle_SourceIPList L n =
     handle_slice L n (elem_string L) (\<lambda>v uj. uj\<lparr>tcp_SourceIPList := v\<rparr>)"

definition EnvoyTCPRoute_handle_SourcePorts ::
  "'f fflexer \<Rightarrow> nat \<Rightarrow> FFTok \<Rightarrow> EnvoyTCPRoute \<Rightarrow> 'f \<Rightarrow> (EnvoyTCPRoute, 'f) decoded" where
  [simp]: "EnvoyTCPRoute_handle_SourcePorts L n =
     handle_slice L n (elem_string L) (\<lambda>v uj. uj\<lparr>tcp_SourcePorts := v\<rparr>)"

definition EnvoyTCPRoute_handle ::
  "'f fflexer \<Rightarrow> nat \<Rightarrow> EnvoyTCPRoute_field \<Rightarrow> FFTok \<Rightarrow> EnvoyTCPRoute \<Rightarrow> 'f
   \<Rightarrow> (EnvoyTCPRoute, 'f) decoded" where
  "EnvoyTCPRoute_handle L n currentKey tok uj fs =
     (case currentKey of
        ffj_t_EnvoyTCPRoute_Cluster \<Rightarrow>
          handle_string L (\<lambda>v uj. uj\<lparr>tcp_Cluster := v\<rparr>) tok uj fs
      | ffj_t_EnvoyTCPRoute_DestinationIPList \<Rightarrow>
          EnvoyTCPRoute_handle_DestinationIPList L n tok uj fs
      | ffj_t_EnvoyTCPRoute_DestinationPorts \<Rightarrow>
          handle_string L (\<lambda>v uj. uj\<lparr>tcp_DestinationPorts := v\<rparr>) tok uj fs
      | ffj_t_EnvoyTCPRoute_SourceIPList \<Rightarrow>
          EnvoyTCPRoute_handle_SourceIPList L n tok uj fs
      | ffj_t_EnvoyTCPRoute_SourcePorts \<Rightarrow>
          EnvoyTCPRoute_handle_SourcePorts L n tok uj fs
      | _ \<Rightarrow> Decoded uj fs)"

definition EnvoyTCPRoute_UnmarshalJSONFFLexer ::
  "'f fflexer \<Rightarrow> nat \<Rightarrow> FFParseState \<Rightarrow> EnvoyTCPRoute \<Rightarrow> 'f \<Rightarrow> (EnvoyTCPRoute, 'f) decoded" where
  "EnvoyTCPRoute_UnmarshalJSONFFLexer L n state uj fs =
     mainparse L (EnvoyTCPRoute_key L) (EnvoyTCPRoute_handle L n)
       ffj_t_EnvoyTCPRoutebase ffj_t_EnvoyTCPRouteno_such_key n state ffj_t_EnvoyTCPRoutebase uj fs"

definition EnvoyTCPRoute_UnmarshalJSON ::
  "'f fflexer \<Rightarrow> nat \<Rightarrow> string \<Rightarrow> EnvoyTCPRoute \<Rightarrow> (EnvoyTCPRoute, 'f) decoded" where
  "EnvoyTCPRoute_UnmarshalJSON L n input uj =
     EnvoyTCPRoute_UnmarshalJSONFFLexer L n FFParse_map_start uj (lx_NewFFLexer L input)"

section \<open>\<open>EnvoyRoute\<close>\<close>

datatype EnvoyRoute_field =
  ffj_t_EnvoyRoutebase | ffj_t_EnvoyRouteno_such_key | ffj_t_EnvoyRoute_TimeoutMs |
  ffj_t_EnvoyRoute_Prefix | ffj_t_EnvoyRoute_HostRewrite | ffj_t_EnvoyRoute_Cluster |
  ffj_t_EnvoyRoute_Decorator

definition EnvoyRoute_zero :: EnvoyRoute where
  "EnvoyRoute_zero = \<lparr>rt_TimeoutMs = 0, rt_Prefix = [], rt_HostRewrite = [],
     rt_Cluster = [], rt_Decorator = None\<rparr>"

definition EnvoyRoute_key :: "'f fflexer \<Rightarrow> string \<Rightarrow> EnvoyRoute_field" where
  "EnvoyRoute_key L = switch_key ffj_t_EnvoyRouteno_such_key
     [(''cluster'', ffj_t_EnvoyRoute_Cluster), (''decorator'', ffj_t_EnvoyRoute_Decorator),
      (''host_rewrite'', ffj_t_EnvoyRoute_HostRewrite), (''prefix'', ffj_t_EnvoyRoute_Prefix),
      (''timeout_ms'', ffj_t_EnvoyRoute_TimeoutMs)]
     [(lx_SimpleLetterEqualFold L ''decorator'', ffj_t_EnvoyRoute_Decorator),
      (lx_EqualFoldRight L ''cluster'', ffj_t_EnvoyRoute_Cluster),
      (lx_EqualFoldRight L ''host_rewrite'', ffj_t_EnvoyRoute_HostRewrite),
      (lx_SimpleLetterEqualFold L ''prefix'', ffj_t_EnvoyRoute_Prefix),
      (lx_EqualFoldRight L ''timeout_ms'', ffj_t_EnvoyRoute_TimeoutMs)]"

definition EnvoyRoute_handle ::
  "'f fflexer \<Rightarrow> nat \<Rightarrow> EnvoyRoute_field \<Rightarrow> FFTok \<Rightarrow> EnvoyRoute \<Rightarrow> 'f
   \<Rightarrow> (EnvoyRoute, 'f) decoded" where
  "EnvoyRoute_handle L n currentKey tok uj fs =
     (case currentKey of
        ffj_t_EnvoyRoute_TimeoutMs \<Rightarrow>
          handle_int L ''int'' (\<lambda>v uj. uj\<lparr>rt_TimeoutMs := v\<rparr>) tok uj fs
      | ffj_t_EnvoyRoute_Prefix \<Rightarrow>
          handle_string L (\<lambda>v uj. uj\<lparr>rt_Prefix := v\<rparr>) tok uj fs
      | ffj_t_EnvoyRoute_HostRewrite \<Rightarrow>
          handle_string L (\<lambda>v uj. uj\<lparr>rt_HostRewrite := v\<rparr>) tok uj fs
      | ffj_t_EnvoyRoute_Cluster \<Rightarrow>
          handle_string L (\<lambda>v uj. uj\<lparr>rt_Cluster := v\<rparr>) tok uj fs
      | ffj_t_EnvoyRoute_Decorator \<Rightarrow>
          handle_ptr (EnvoyRouteDecorator_UnmarshalJSONFFLexer L n) EnvoyRouteDecorator_zero rt_Decorator
            (\<lambda>v uj. uj\<lparr>rt_Decorator := v\<rparr>) tok uj fs
      | _ \<Rightarrow> Decoded uj fs)"

definition EnvoyRoute_UnmarshalJSONFFLexer ::
  "'f fflexer \<Rightarrow> nat \<Rightarrow> FFParseState \<Rightarrow> EnvoyRoute \<Rightarrow> 'f \<Rightarrow> (EnvoyRoute, 'f) decoded" where
  "EnvoyRoute_UnmarshalJSONFFLexer L n state uj fs =
     mainparse L (EnvoyRoute_key L) (EnvoyRoute_handle L n)
       ffj_t_EnvoyRoutebase ffj_t_EnvoyRouteno_such_key n state ffj_t_EnvoyRoutebase uj fs"

definition EnvoyRoute_UnmarshalJSON ::
  "'f fflexer \<Rightarrow> nat \<Rightarrow> string \<Rightarrow> EnvoyRoute \<Rightarrow> (EnvoyRoute, 'f) decoded" where
  "EnvoyRoute_UnmarshalJSON L n input uj =
     EnvoyRoute_UnmarshalJSONFFLexer L n FFParse_map_start uj (lx_NewFFLexer L input)"

section \<open>\<open>EnvoyHTTPVirtualHost\<close>\<close>

datatype EnvoyHTTPVirtualHost_field =
  ffj_t_EnvoyHTTPVirtualHostbase | ffj_t_EnvoyHTTPVirtualHostno_such_key |
  ffj_t_EnvoyHTTPVirtualHost_Name | ffj_t_EnvoyHTTPVirtualHost_Domains |
  ffj_t_EnvoyHTTPVirtualHost_Routes

definition EnvoyHTTPVirtualHost_zero :: EnvoyHTTPVirtualHost where
  "EnvoyHTTPVirtualHost_zero = \<lparr>vh_Name = [], vh_Domains = None, vh_Routes = None\<rparr>"

definition EnvoyHTTPVirtualHost_key :: "'f fflexer \<Rightarrow> string \<Rightarrow> EnvoyHTTPVirtualHost_field" where
  "EnvoyHTTPVirtualHost_key L = switch_key ffj_t_EnvoyHTTPVirtualHostno_such_key
     [(''domains'', ffj_t_EnvoyHTTPVirtualHost_Domains),
      (''name'', ffj_t_EnvoyHTTPVirtualHost_Name),
      (''routes'', ffj_t_EnvoyHTTPVirtualHost_Routes)]
     [(lx_EqualFoldRight L ''routes'', ffj_t_EnvoyHTTPVirtualHost_Routes),
      (lx_EqualFoldRight L ''domains'', ffj_t_EnvoyHTTPVirtualHost_Domains),
      (lx_SimpleLetterEqualFold L ''name'', ffj_t_EnvoyHTTPVirtualHost_Name)]"

definition EnvoyHTTPVirtualHost_handle_Domains ::
  "'f fflexer \<Rightarrow> nat \<Rightarrow> FFTok \<Rightarrow> EnvoyHTTPVirtualHost \<Rightarrow> 'f \<Rightarrow> (EnvoyHTTPVirtualHost, 'f) decoded" where
  [simp]: "EnvoyHTTPVirtualHost_handle_Domains L n =
     handle_slice L n (elem_string L) (\<lambda>v uj. uj\<lparr>vh_Domains := v\<rparr>)"

definition EnvoyHTTPVirtualHost_handle_Routes ::
  "'f fflexer \<Rightarrow> nat \<Rightarrow> FFTok \<Rightarrow> EnvoyHTTPVirtualHost \<Rightarrow> 'f \<Rightarrow> (EnvoyHTTPVirtualHost, 'f) decoded" where
  [simp]: "EnvoyHTTPVirtualHost_handle_Routes L n =
     handle_slice L n (elem_ptr (EnvoyRoute_UnmarshalJSONFFLexer L n) EnvoyRoute_zero)
       (\<lambda>v uj. uj\<lparr>vh_Routes := v\<rparr>)"

definition EnvoyHTTPVirtualHost_handle ::
  "'f fflexer \<Rightarrow> nat \<Rightarrow> EnvoyHTTPVirtualHost_field \<Rightarrow> FFTok \<Rightarrow> EnvoyHTTPVirtualHost \<Rightarrow> 'f
   \<Rightarrow> (EnvoyHTTPVirtualHost, 'f) decoded" where
  "EnvoyHTTPVirtualHost_handle L n currentKey tok uj fs =
     (case currentKey of
        ffj_t_EnvoyHTTPVirtualHost_Name \<Rightarrow>
          handle_string L (\<lambda>v uj. uj\<lparr>vh_Name := v\<rparr>) tok uj fs
      | ffj_t_EnvoyHTTPVirtualHost_Domains \<Rightarrow>
          EnvoyHTTPVirtualHost_handle_Domains L n tok uj fs
      | ffj_t_EnvoyHTTPVirtualHost_Routes \<Rightarrow>
          EnvoyHTTPVirtualHost_handle_Routes L n tok uj fs
      | _ \<Rightarrow> Decoded uj fs)"

definition EnvoyHTTPVirtualHost_UnmarshalJSONFFLexer ::
  "'f fflexer \<Rightarrow> nat \<Rightarrow> FFParseState \<Rightarrow> EnvoyHTTPVirtualHost \<Rightarrow> 'f \<Rightarrow> (EnvoyHTTPVirtualHost, 'f) decoded" where
  "EnvoyHTTPVirtualHost_UnmarshalJSONFFLexer L n state uj fs =
     mainparse L (EnvoyHTTPVirtualHost_key L) (EnvoyHTTPVirtualHost_handle L n)
       ffj_t_EnvoyHTTPVirtualHostbase ffj_t_EnvoyHTTPVirtualHostno_such_key n state ffj_t_EnvoyHTTPVirtualHostbase uj fs"

definition EnvoyHTTPVirtualHost_UnmarshalJSON ::
  "'f fflexer \<Rightarrow> nat \<Rightarrow> string \<Rightarrow> EnvoyHTTPVirtualHost \<Rightarrow> (EnvoyHTTPVirtualHost, 'f) decoded" where
  "EnvoyHTTPVirtualHost_UnmarshalJSON L n input uj =
     EnvoyHTTPVirtualHost_UnmarshalJSONFFLexer L n FFParse_map_start uj (lx_NewFFLexer L input)"

section \<open>\<open>EnvoyRouteConfig\<close>\<close>

datatype EnvoyRouteConfig_field =
  ffj_t_EnvoyRouteConfigbase | ffj_t_EnvoyRouteConfigno_such_key |
  ffj_t_EnvoyRouteConfig_VirtualHosts | ffj_t_EnvoyRouteConfig_Routes

definition EnvoyRouteConfig_zero :: EnvoyRouteConfig where
  "EnvoyRouteConfig_zero = \<lparr>rc_VirtualHosts = None, rc_Routes = None\<rparr>"

definition EnvoyRouteConfig_key :: "'f fflexer \<Rightarrow> string \<Rightarrow> EnvoyRouteConfig_field" where
  "EnvoyRouteConfig_key L = switch_key ffj_t_EnvoyRouteConfigno_such_key
     [(''routes'', ffj_t_EnvoyRouteConfig_Routes),
      (''virtual_hosts'', ffj_t_EnvoyRouteConfig_VirtualHosts)]
     [(lx_EqualFoldRight L ''routes'', ffj_t_EnvoyRouteConfig_Routes),
      (lx_EqualFoldRight L ''virtual_hosts'', ffj_t_EnvoyRouteConfig_VirtualHosts)]"

definition EnvoyRouteConfig_handle ::
  "'f fflexer \<Rightarrow> nat \<Rightarrow> EnvoyRouteConfig_field \<Rightarrow> FFTok \<Rightarrow> EnvoyRouteConfig \<Rightarrow> 'f
   \<Rightarrow> (EnvoyRouteConfig, 'f) decoded" where
  "EnvoyRouteConfig_handle L n currentKey tok uj fs =
     (case currentKey of
        ffj_t_EnvoyRouteConfig_VirtualHosts \<Rightarrow>
          handle_slice L n (elem_ptr (EnvoyHTTPVirtualHost_UnmarshalJSONFFLexer L n) EnvoyHTTPVirtualHost_zero)
            (\<lambda>v uj. uj\<lparr>rc_VirtualHosts := v\<rparr>) tok uj fs
      | ffj_t_EnvoyRouteConfig_Routes \<Rightarrow>
          handle_slice L n (elem_ptr (EnvoyTCPRoute_UnmarshalJSONFFLexer L n) EnvoyTCPRoute_zero)
            (\<lambda>v uj. uj\<lparr>rc_Routes := v\<rparr>) tok uj fs
      | _ \<Rightarrow> Decoded uj fs)"

definition EnvoyRouteConfig_UnmarshalJSONFFLexer ::
  "'f fflexer \<Rightarrow> nat \<Rightarrow> FFParseState \<Rightarrow> EnvoyRouteConfig \<Rightarrow> 'f \<Rightarrow> (EnvoyRouteConfig, 'f) decoded" where
  "EnvoyRouteConfig_UnmarshalJSONFFLexer L n state uj fs =
     mainparse L (EnvoyRouteConfig_key L) (EnvoyRouteConfig_handle L n)
       ffj_t_EnvoyRouteConfigbase ffj_t_EnvoyRouteConfigno_such_key n state ffj_t_EnvoyRouteConfigbase uj fs"

definition EnvoyRouteConfig_UnmarshalJSON ::
  "'f fflexer \<Rightarrow> nat \<Rightarrow> string \<Rightarrow> EnvoyRouteConfig \<Rightarrow> (EnvoyRouteConfig, 'f) decoded" where
  "EnvoyRouteConfig_UnmarshalJSON L n input uj =
     EnvoyRouteConfig_UnmarshalJSONFFLexer L n FFParse_map_start uj (lx_NewFFLexer L input)"

section \<open>\<open>EnvoyFilter\<close>\<close>

datatype EnvoyFilter_field =
  ffj_t_EnvoyFilterbase | ffj_t_EnvoyFilterno_such_key | ffj_t_EnvoyFilter_Name |
  ffj_t_EnvoyFilter_Config

definition EnvoyFilter_zero :: EnvoyFilter where
  "EnvoyFilter_zero = EnvoyFilter [] None"

definition EnvoyFilterConfig_zero :: EnvoyFilterConfig where
  "EnvoyFilterConfig_zero = EnvoyFilterConfig [] [] None None None"

definition EnvoyFilter_key :: "'f fflexer \<Rightarrow> string \<Rightarrow> EnvoyFilter_field" where
  "EnvoyFilter_key L = switch_key ffj_t_EnvoyFilterno_such_key
     [(''config'', ffj_t_EnvoyFilter_Config), (''name'', ffj_t_EnvoyFilter_Name)]
     [(lx_SimpleLetterEqualFold L ''config'', ffj_t_EnvoyFilter_Config),
      (lx_SimpleLetterEqualFold L ''name'', ffj_t_EnvoyFilter_Name)]"

definition EnvoyFilter_handle ::
  "'f fflexer \<Rightarrow> nat
   \<Rightarrow> (FFParseState \<Rightarrow> EnvoyFilterConfig \<Rightarrow> 'f \<Rightarrow> (EnvoyFilterConfig, 'f) decoded) \<Rightarrow> EnvoyFilter_field \<Rightarrow> FFTok \<Rightarrow> EnvoyFilter \<Rightarrow> 'f
   \<Rightarrow> (EnvoyFilter, 'f) decoded" where
  "EnvoyFilter_handle L n unmarshal_config currentKey tok uj fs =
     (case currentKey of
        ffj_t_EnvoyFilter_Name \<Rightarrow>
          handle_string L (\<lambda>v uj. EnvoyFilter v (flt_Config uj)) tok uj fs
      | ffj_t_EnvoyFilter_Config \<Rightarrow>
          handle_ptr unmarshal_config EnvoyFilterConfig_zero flt_Config
            (\<lambda>v uj. EnvoyFilter (flt_Name uj) v) tok uj fs
      | _ \<Rightarrow> Decoded uj fs)"

section \<open>\<open>EnvoyFilterConfig\<close>\<close>

datatype EnvoyFilterConfig_field =
  ffj_t_EnvoyFilterConfigbase | ffj_t_EnvoyFilterConfigno_such_key |
  ffj_t_EnvoyFilterConfig_CodecType | ffj_t_EnvoyFilterConfig_StatPrefix |
  ffj_t_EnvoyFilterConfig_RouteConfig | ffj_t_EnvoyFilterConfig_Filters |
  ffj_t_EnvoyFilterConfig_Tracing

definition EnvoyFilterConfig_key :: "'f fflexer \<Rightarrow> string \<Rightarrow> EnvoyFilterConfig_field" where
  "EnvoyFilterConfig_key L = switch_key ffj_t_EnvoyFilterConfigno_such_key
     [(''codec_type'', ffj_t_EnvoyFilterConfig_CodecType),
      (''filters'', ffj_t_EnvoyFilterConfig_Filters),
      (''route_config'', ffj_t_EnvoyFilterConfig_RouteConfig),
      (''stat_prefix'', ffj_t_EnvoyFilterConfig_StatPrefix),
      (''tracing'', ffj_t_EnvoyFilterConfig_Tracing)]
     [(lx_SimpleLetterEqualFold L ''tracing'', ffj_t_EnvoyFilterConfig_Tracing),
      (lx_EqualFoldRight L ''filters'', ffj_t_EnvoyFilterConfig_Filters),
      (lx_AsciiEqualFold L ''route_config'', ffj_t_EnvoyFilterConfig_RouteConfig),
      (lx_EqualFoldRight L ''stat_prefix'', ffj_t_EnvoyFilterConfig_StatPrefix),
      (lx_AsciiEqualFold L ''codec_type'', ffj_t_EnvoyFilterConfig_CodecType)]"

definition EnvoyFilterConfig_handle_Filters ::
  "'f fflexer \<Rightarrow> nat
   \<Rightarrow> (FFParseState \<Rightarrow> EnvoyFilter \<Rightarrow> 'f \<Rightarrow> (EnvoyFilter, 'f) decoded) \<Rightarrow> FFTok \<Rightarrow> EnvoyFilterConfig \<Rightarrow> 'f \<Rightarrow> (EnvoyFilterConfig, 'f) decoded" where
  [simp]: "EnvoyFilterConfig_handle_Filters L n unmarshal_filter =
     handle_slice L n (elem_ptr unmarshal_filter EnvoyFilter_zero)
       (\<lambda>v uj. EnvoyFilterConfig (cfg_CodecType uj) (cfg_StatPrefix uj) (cfg_RouteConfig uj) v (cfg_Tracing uj))"

definition EnvoyFilterConfig_handle_Tracing ::
  "'f fflexer \<Rightarrow> nat \<Rightarrow> FFTok \<Rightarrow> EnvoyFilterConfig \<Rightarrow> 'f \<Rightarrow> (EnvoyFilterConfig, 'f) decoded" where
  [simp]: "EnvoyFilterConfig_handle_Tracing L n =
     handle_ptr (EnvoyTracingConfig_UnmarshalJSONFFLexer L n) EnvoyTracingConfig_zero cfg_Tracing
       (\<lambda>v uj. EnvoyFilterConfig (cfg_CodecType uj) (cfg_StatPrefix uj) (cfg_RouteConfig uj) (cfg_Filters uj) v)"

definition EnvoyFilterConfig_handle ::
  "'f fflexer \<Rightarrow> nat
   \<Rightarrow> (FFParseState \<Rightarrow> EnvoyFilter \<Rightarrow> 'f \<Rightarrow> (EnvoyFilter, 'f) decoded) \<Rightarrow> EnvoyFilterConfig_field \<Rightarrow> FFTok \<Rightarrow> EnvoyFilterConfig \<Rightarrow> 'f
   \<Rightarrow> (EnvoyFilterConfig, 'f) decoded" where
  "EnvoyFilterConfig_handle L n unmarshal_filter currentKey tok uj fs =
     (case currentKey of
        ffj_t_EnvoyFilterConfig_CodecType \<Rightarrow>
          handle_string L (\<lambda>v uj. EnvoyFilterConfig v (cfg_StatPrefix uj) (cfg_RouteConfig uj) (cfg_Filters uj) (cfg_Tracing uj)) tok uj fs
      | ffj_t_EnvoyFilterConfig_StatPrefix \<Rightarrow>
          handle_string L (\<lambda>v uj. EnvoyFilterConfig (cfg_CodecType uj) v (cfg_RouteConfig uj) (cfg_Filters uj) (cfg_Tracing uj)) tok uj fs
      | ffj_t_EnvoyFilterConfig_RouteConfig \<Rightarrow>
          handle_ptr (EnvoyRouteConfig_UnmarshalJSONFFLexer L n) EnvoyRouteConfig_zero cfg_RouteConfig
            (\<lambda>v uj. EnvoyFilterConfig (cfg_CodecType uj) (cfg_StatPrefix uj) v (cfg_Filters uj) (cfg_Tracing uj)) tok uj fs
      | ffj_t_EnvoyFilterConfig_Filters \<Rightarrow>
          EnvoyFilterConfig_handle_Filters L n unmarshal_filter tok uj fs
      | ffj_t_EnvoyFilterConfig_Tracing \<Rightarrow>
          EnvoyFilterConfig_handle_Tracing L n tok uj fs
      | _ \<Rightarrow> Decoded uj fs)"

text \<open>
  The two decoders call each other; \<open>d\<close> bounds how deep, \<open>n\<close> how long each loop is.
\<close>

fun EnvoyFilter_UnmarshalJSONFFLexer ::
  "'f fflexer \<Rightarrow> nat \<Rightarrow> nat \<Rightarrow> FFParseState \<Rightarrow> EnvoyFilter \<Rightarrow> 'f \<Rightarrow> (EnvoyFilter, 'f) decoded"
and EnvoyFilterConfig_UnmarshalJSONFFLexer ::
  "'f fflexer \<Rightarrow> nat \<Rightarrow> nat \<Rightarrow> FFParseState \<Rightarrow> EnvoyFilterConfig \<Rightarrow> 'f \<Rightarrow> (EnvoyFilterConfig, 'f) decoded" where
  "EnvoyFilter_UnmarshalJSONFFLexer L n 0 state uj fs = OutOfFuel"
| "EnvoyFilterConfig_UnmarshalJSONFFLexer L n 0 state uj fs = OutOfFuel"
| "EnvoyFilter_UnmarshalJSONFFLexer L n (Suc d) state uj fs =
     mainparse L (EnvoyFilter_key L)
       (EnvoyFilter_handle L n (EnvoyFilterConfig_UnmarshalJSONFFLexer L n d))
       ffj_t_EnvoyFilterbase ffj_t_EnvoyFilterno_such_key n state ffj_t_EnvoyFilterbase uj fs"
| "EnvoyFilterConfig_UnmarshalJSONFFLexer L n (Suc d) state uj fs =
     mainparse L (EnvoyFilterConfig_key L)
       (EnvoyFilterConfig_handle L n (EnvoyFilter_UnmarshalJSONFFLexer L n d))
       ffj_t_EnvoyFilterConfigbase ffj_t_EnvoyFilterConfigno_such_key n state ffj_t_EnvoyFilterConfigbase uj fs"

definition EnvoyFilter_UnmarshalJSON ::
  "'f fflexer \<Rightarrow> nat \<Rightarrow> string \<Rightarrow> EnvoyFilter \<Rightarrow> (EnvoyFilter, 'f) decoded" where
  "EnvoyFilter_UnmarshalJSON L n input uj =
     EnvoyFilter_UnmarshalJSONFFLexer L n n FFParse_map_start uj (lx_NewFFLexer L input)"

definition EnvoyFilterConfig_UnmarshalJSON ::
  "'f fflexer \<Rightarrow> nat \<Rightarrow> string \<Rightarrow> EnvoyFilterConfig \<Rightarrow> (EnvoyFilterConfig, 'f) decoded" where
  "EnvoyFilterConfig_UnmarshalJSON L n input uj =
     EnvoyFilterConfig_UnmarshalJSONFFLexer L n n FFParse_map_start uj (lx_NewFFLexer L input)"

section \<open>\<open>EnvoyListener\<close>\<close>

datatype EnvoyListener_field =
  ffj_t_EnvoyListenerbase | ffj_t_EnvoyListenerno_such_key | ffj_t_EnvoyListener_Name |
  ffj_t_EnvoyListener_Address | ffj_t_EnvoyListener_Filters

definition EnvoyListener_zero :: EnvoyListener where
  "EnvoyListener_zero = \<lparr>ls_Name = [], ls_Address = [], ls_Filters = None\<rparr>"

definition EnvoyListener_key :: "'f fflexer \<Rightarrow> string \<Rightarrow> EnvoyListener_field" where
  "EnvoyListener_key L = switch_key ffj_t_EnvoyListenerno_such_key
     [(''address'', ffj_t_EnvoyListener_Address), (''filters'', ffj_t_EnvoyListener_Filters),
      (''name'', ffj_t_EnvoyListener_Name)]
     [(lx_EqualFoldRight L ''filters'', ffj_t_EnvoyListener_Filters),
      (lx_EqualFoldRight L ''address'', ffj_t_EnvoyListener_Address),
      (lx_SimpleLetterEqualFold L ''name'', ffj_t_EnvoyListener_Name)]"

definition EnvoyListener_handle ::
  "'f fflexer \<Rightarrow> nat \<Rightarrow> EnvoyListener_field \<Rightarrow> FFTok \<Rightarrow> EnvoyListener \<Rightarrow> 'f
   \<Rightarrow> (EnvoyListener, 'f) decoded" where
  "EnvoyListener_handle L n currentKey tok uj fs =
     (case currentKey of
        ffj_t_EnvoyListener_Name \<Rightarrow>
          handle_string L (\<lambda>v uj. uj\<lparr>ls_Name := v\<rparr>) tok uj fs
      | ffj_t_EnvoyListener_Address \<Rightarrow>
          handle_string L (\<lambda>v uj. uj\<lparr>ls_Address := v\<rparr>) tok uj fs
      | ffj_t_EnvoyListener_Filters \<Rightarrow>
          handle_slice L n (elem_ptr (EnvoyFilter_UnmarshalJSONFFLexer L n n) EnvoyFilter_zero)
            (\<lambda>v uj. uj\<lparr>ls_Filters := v\<rparr>) tok uj fs
      | _ \<Rightarrow> Decoded uj fs)"

definition EnvoyListener_UnmarshalJSONFFLexer ::
  "'f fflexer \<Rightarrow> nat \<Rightarrow> FFParseState \<Rightarrow> EnvoyListener \<Rightarrow> 'f \<Rightarrow> (EnvoyListener, 'f) decoded" where
  "EnvoyListener_UnmarshalJSONFFLexer L n state uj fs =
     mainparse L (EnvoyListener_key L) (EnvoyListener_handle L n)
       ffj_t_EnvoyListenerbase ffj_t_EnvoyListenerno_such_key n state ffj_t_EnvoyListenerbase uj fs"

definition EnvoyListener_UnmarshalJSON ::
  "'f fflexer \<Rightarrow> nat \<Rightarrow> string \<Rightarrow> EnvoyListener \<Rightarrow> (EnvoyListener, 'f) decoded" where
  "EnvoyListener_UnmarshalJSON L n input uj =
     EnvoyListener_UnmarshalJSONFFLexer L n FFParse_map_start uj (lx_NewFFLexer L input)"

section \<open>\<open>CDSResult\<close>\<close>

datatype CDSResult_field =
  ffj_t_CDSResultbase | ffj_t_CDSResultno_such_key | ffj_t_CDSResult_Clusters

definition CDSResult_zero :: CDSResult where
  "CDSResult_zero = \<lparr>cds_Clusters = None\<rparr>"

definition CDSResult_key :: "'f fflexer \<Rightarrow> string \<Rightarrow> CDSResult_field" where
  "CDSResult_key L = switch_key ffj_t_CDSResultno_such_key
     [(''clusters'', ffj_t_CDSResult_Clusters)]
     [(lx_EqualFoldRight L ''clusters'', ffj_t_CDSResult_Clusters)]"

definition CDSResult_handle ::
  "'f fflexer \<Rightarrow> nat \<Rightarrow> CDSResult_field \<Rightarrow> FFTok \<Rightarrow> CDSResult \<Rightarrow> 'f
   \<Rightarrow> (CDSResult, 'f) decoded" where
  "CDSResult_handle L n currentKey tok uj fs =
     (case currentKey of
        ffj_t_CDSResult_Clusters \<Rightarrow>
          handle_slice L n (elem_ptr (EnvoyCluster_UnmarshalJSONFFLexer L n) EnvoyCluster_zero)
            (\<lambda>v uj. uj\<lparr>cds_Clusters := v\<rparr>) tok uj fs
      | _ \<Rightarrow> Decoded uj fs)"

definition CDSResult_UnmarshalJSONFFLexer ::
  "'f fflexer \<Rightarrow> nat \<Rightarrow> FFParseState \<Rightarrow> CDSResult \<Rightarrow> 'f \<Rightarrow> (CDSResult, 'f) decoded" where
  "CDSResult_UnmarshalJSONFFLexer L n state uj fs =
     mainparse L (CDSResult_key L) (CDSResult_handle L n)
       ffj_t_CDSResultbase ffj_t_CDSResultno_such_key n state ffj_t_CDSResultbase uj fs"

definition CDSResult_UnmarshalJSON ::
  "'f fflexer \<Rightarrow> nat \<Rightarrow> string \<Rightarrow> CDSResult \<Rightarrow> (CDSResult, 'f) decoded" where
  "CDSResult_UnmarshalJSON L n input uj =
     CDSResult_UnmarshalJSONFFLexer L n FFParse_map_start uj (lx_NewFFLexer L input)"

section \<open>\<open>LDSResult\<close>\<close>

datatype LDSResult_field =
  ffj_t_LDSResultbase | ffj_t_LDSResultno_such_key | ffj_t_LDSResult_Listeners

definition LDSResult_zero :: LDSResult where
  "LDSResult_zero = \<lparr>lds_Listeners = None\<rparr>"

definition LDSResult_key :: "'f fflexer \<Rightarrow> string \<Rightarrow> LDSResult_field" where
  "LDSResult_key L = switch_key ffj_t_LDSResultno_such_key
     [(''listeners'', ffj_t_LDSResult_Listeners)]
     [(lx_EqualFoldRight L ''listeners'', ffj_t_LDSResult_Listeners)]"

definition LDSResult_handle ::
  "'f fflexer \<Rightarrow> nat \<Rightarrow> LDSResult_field \<Rightarrow> FFTok \<Rightarrow> LDSResult \<Rightarrow> 'f
   \<Rightarrow> (LDSResult, 'f) decoded" where
  "LDSResult_handle L n currentKey tok uj fs =
     (case currentKey of
        ffj_t_LDSResult_Listeners \<Rightarrow>
          handle_slice L n (elem_ptr (EnvoyListener_UnmarshalJSONFFLexer L n) EnvoyListener_zero)
            (\<lambda>v uj. uj\<lparr>lds_Listeners := v\<rparr>) tok uj fs
      | _ \<Rightarrow> Decoded uj fs)"

definition LDSResult_UnmarshalJSONFFLexer ::
  "'f fflexer \<Rightarrow> nat \<Rightarrow> FFParseState \<Rightarrow> LDSResult \<Rightarrow> 'f \<Rightarrow> (LDSResult, 'f) decoded" where
  "LDSResult_UnmarshalJSONFFLexer L n state uj fs =
     mainparse L (LDSResult_key L) (LDSResult_handle L n)
       ffj_t_LDSResultbase ffj_t_LDSResultno_such_key n state ffj_t_LDSResultbase uj fs"

definition LDSResult_UnmarshalJSON ::
  "'f fflexer \<Rightarrow> nat \<Rightarrow> string \<Rightarrow> LDSResult \<Rightarrow> (LDSResult, 'f) decoded" where
  "LDSResult_UnmarshalJSON L n input uj =
     LDSResult_UnmarshalJSONFFLexer L n FFParse_map_start uj (lx_NewFFLexer L input)"

section \<open>\<open>SDSResult\<close>\<close>

datatype SDSResult_field =
  ffj_t_SDSResultbase | ffj_t_SDSResultno_such_key | ffj_t_SDSResult_Env |
  ffj_t_SDSResult_Hosts | ffj_t_SDSResult_Service

definition SDSResult_zero :: SDSResult where
  "SDSResult_zero = \<lparr>sds_Env = [], sds_Hosts = None, sds_Service = []\<rparr>"

definition SDSResult_key :: "'f fflexer \<Rightarrow> string \<Rightarrow> SDSResult_field" where
  "SDSResult_key L = switch_key ffj_t_SDSResultno_such_key
     [(''env'', ffj_t_SDSResult_Env), (''hosts'', ffj_t_SDSResult_Hosts),
      (''service'', ffj_t_SDSResult_Service)]
     [(lx_EqualFoldRight L ''service'', ffj_t_SDSResult_Service),
      (lx_EqualFoldRight L ''hosts'', ffj_t_SDSResult_Hosts),
      (lx_SimpleLetterEqualFold L ''env'', ffj_t_SDSResult_Env)]"

definition SDSResult_handle ::
  "'f fflexer \<Rightarrow> nat \<Rightarrow> SDSResult_field \<Rightarrow> FFTok \<Rightarrow> SDSResult \<Rightarrow> 'f
   \<Rightarrow> (SDSResult, 'f) decoded" where
  "SDSResult_handle L n currentKey tok uj fs =
     (case currentKey of
        ffj_t_SDSResult_Env \<Rightarrow>
          handle_string L (\<lambda>v uj. uj\<lparr>sds_Env := v\<rparr>) tok uj fs
      | ffj_t_SDSResult_Hosts \<Rightarrow>
          handle_slice L n (elem_ptr (EnvoyService_UnmarshalJSONFFLexer L n) EnvoyService_zero)
            (\<lambda>v uj. uj\<lparr>sds_Hosts := v\<rparr>) tok uj fs
      | ffj_t_SDSResult_Service \<Rightarrow>
          handle_string L (\<lambda>v uj. uj\<lparr>sds_Service := v\<rparr>) tok uj fs
      | _ \<Rightarrow> Decoded uj fs)"

definition SDSResult_UnmarshalJSONFFLexer ::
  "'f fflexer \<Rightarrow> nat \<Rightarrow> FFParseState \<Rightarrow> SDSResult \<Rightarrow> 'f \<Rightarrow> (SDSResult, 'f) decoded" where
  "SDSResult_UnmarshalJSONFFLexer L n state uj fs =
     mainparse L (SDSResult_key L) (SDSResult_handle L n)
       ffj_t_SDSResultbase ffj_t_SDSResultno_such_key n state ffj_t_SDSResultbase uj fs"

definition SDSResult_UnmarshalJSON ::
  "'f fflexer \<Rightarrow> nat \<Rightarrow> string \<Rightarrow> SDSResult \<Rightarrow> (SDSResult, 'f) decoded" where
  "SDSResult_UnmarshalJSON L n input uj =
     SDSResult_UnmarshalJSONFFLexer L n FFParse_map_start uj (lx_NewFFLexer L input)"

end
