(* ===== verification/FFJsonFuel.thy ===== *)
theory FFJsonFuel
  imports FFJsonDecode
begin

text \<open>
  How much fuel the decoders need: more than the lexer has input left. What a lexer has left is a
  measure given by hypothesis: scanning a token takes some of it; at the end of the input \<open>Scan\<close> gives
  \<open>FFTok_eof\<close>, as often as it is called, and takes nothing; a field that is skipped gives nothing back.
  Nothing is said of what \<open>Scan\<close> leaves behind with \<open>FFTok_error\<close>. For ffjson's lexer the measure is
  the number of bytes that it has not read.
\<close>

definition lexer_ends :: "('f \<Rightarrow> nat) \<Rightarrow> 'f fflexer \<Rightarrow> bool" where
  "lexer_ends left L \<longleftrightarrow>
     (\<forall>fs tok fs'. lx_Scan L fs = (tok, fs') \<longrightarrow> tok \<notin> {FFTok_error, FFTok_eof} \<longrightarrow> left fs' < left fs)
     \<and> (\<forall>fs fs'. lx_Scan L fs = (FFTok_eof, fs') \<longrightarrow> left fs' \<le> left fs)
     \<and> (\<forall>tok fs fs'. lx_SkipField L tok fs = (None, fs') \<longrightarrow> left fs' \<le> left fs)"

lemma scan_ends:
    "lexer_ends left L \<Longrightarrow> lx_Scan L fs = (tok, fs') \<Longrightarrow> tok \<noteq> FFTok_error \<Longrightarrow> tok \<noteq> FFTok_eof \<Longrightarrow> left fs' < left fs"
  and scan_eof: "lexer_ends left L \<Longrightarrow> lx_Scan L fs = (FFTok_eof, fs') \<Longrightarrow> left fs' \<le> left fs"
  and skip_ends: "lexer_ends left L \<Longrightarrow> lx_SkipField L tok fs = (None, fs') \<Longrightarrow> left fs' \<le> left fs"
  by (simp_all add: lexer_ends_def)

text \<open>A result that is not for want of fuel and leaves less than a bound.\<close>

definition settles :: "('f \<Rightarrow> nat) \<Rightarrow> nat \<Rightarrow> ('a, 'f) decoded \<Rightarrow> bool" where
  "settles left b r \<longleftrightarrow>
     (case r of Decoded v fs \<Rightarrow> left fs < b | OutOfFuel \<Rightarrow> False | _ \<Rightarrow> True)"

lemma settles_simps [simp]:
  "settles left b (Decoded v fs) \<longleftrightarrow> left fs < b" "settles left b (Failed e)"
  "settles left b Unreachable" "\<not> settles left b OutOfFuel"
  by (simp_all add: settles_def)

lemma settles_mono: "settles left b r \<Longrightarrow> b \<le> c \<Longrightarrow> settles left c r"
  by (auto simp: settles_def split: decoded.splits)

lemma settles_errors [simp]:
  "settles left b (tokerror L fs)" "settles left b (wrongtokenerror L w tok fs)"
  "settles left b (wantedvalue L tok fs)" "settles left b (cannot_unmarshal L k tok fs)"
  by (simp_all add: tokerror_def wrongtokenerror_def wantedvalue_def cannot_unmarshal_def split: option.split)

text \<open>
  No state of the loop takes the end of the input for a token of its own: a decoder that succeeds has
  read at least one token.
\<close>

lemma mainparse_settles:
  assumes L: "lexer_ends left L"
    and handle: "\<And>key tok uj fs. left fs < m \<Longrightarrow> settles left (Suc (left fs)) (handle key tok uj fs)"
  shows "left fs < n \<Longrightarrow> left fs \<le> m \<Longrightarrow>
    settles left (left fs) (mainparse L key_of handle base no_such_key n state currentKey uj fs)"
proof (induction n arbitrary: state currentKey uj fs)
  case 0
  then show ?case by simp
next
  case (Suc n)
  obtain tok f1 where scan: "lx_Scan L fs = (tok, f1)" by fastforce
  show ?case
  proof (cases "tok = FFTok_error \<or> tok = FFTok_eof")
    case True
    with scan show ?thesis by (auto simp: value_token_def split: FFParseState.split)
  next
    case False
    then have less: "left f1 < left fs" using scan_ends [OF L scan] by simp
    have go: "settles left (left fs) (mainparse L key_of handle base no_such_key n state' key' uj' f2)"
      if "left f2 \<le> left f1" for state' key' uj' f2
      using Suc.IH [of f2 state' key' uj'] that less Suc.prems by (auto elim: settles_mono)
    have sk: "lx_SkipField L tok f1 = (None, f2) \<Longrightarrow> left f2 \<le> left f1" for f2
      by (rule skip_ends [OF L])
    have h: "settles left (Suc (left f1)) (handle currentKey tok uj f1)"
      using handle less Suc.prems by simp
    show ?thesis
    proof (cases state)
      case FFParse_want_value
      obtain e f2 where skip: "lx_SkipField L tok f1 = (e, f2)" by fastforce
      with sk have "e = None \<Longrightarrow> left f2 \<le> left f1" by simp
      then show ?thesis
        using FFParse_want_value scan False less go h skip
        by (cases e; cases "handle currentKey tok uj f1") simp_all
    qed (use scan False less go in simp_all)
  qed
qed

text \<open>An element that begins at the end of the input has to read on, or to fail.\<close>

lemma slice_loop_settles:
  assumes L: "lexer_ends left L"
    and elem: "\<And>tok fs. left fs < m \<Longrightarrow> settles left (Suc (left fs)) (elem tok fs)"
    and eof: "\<And>fs. left fs < m \<Longrightarrow> settles left (left fs) (elem FFTok_eof fs)"
  shows "left fs < n \<Longrightarrow> left fs < m \<Longrightarrow> settles left (Suc (left fs)) (slice_loop L elem n wantVal vs fs)"
proof (induction n arbitrary: wantVal vs fs)
  case 0
  then show ?case by simp
next
  case (Suc n)
  obtain tok f1 where scan: "lx_Scan L fs = (tok, f1)" by fastforce
  have go: "settles left (Suc (left fs)) (slice_loop L elem n w ws f2)" if "left f2 < left fs" for w ws f2
    using Suc.IH [of f2 w ws] that Suc.prems by (auto elim: settles_mono)
  show ?case
  proof (cases "tok = FFTok_error")
    case True
    with scan show ?thesis by simp
  next
    case False
    then have less: "left f1 \<le> left fs \<and> (tok \<noteq> FFTok_eof \<longrightarrow> left f1 < left fs)"
      using scan scan_ends [OF L scan] scan_eof [OF L, of fs f1] by (cases "tok = FFTok_eof") auto
    have "settles left (left fs) (elem tok f1)"
      using elem [of f1 tok] eof [of f1] less Suc.prems
      by (cases "tok = FFTok_eof") (auto elim: settles_mono)
    with scan False less go show ?thesis
      by (cases "elem tok f1") (auto split: option.split)
  qed
qed

lemma handle_string_settles [simp]: "settles left (Suc (left fs)) (handle_string L put tok uj fs)"
  by (simp add: handle_string_def)

lemma handle_int_settles [simp]: "settles left (Suc (left fs)) (handle_int L k put tok uj fs)"
  by (simp add: handle_int_def split: sum.split)

lemma elem_string_settles [simp]:
  "settles left (Suc (left fs)) (elem_string L tok fs)" "settles left b (elem_string L FFTok_eof fs)"
  by (simp_all add: elem_string_def) (simp add: handle_string_def)

lemma handle_ptr_settles:
  assumes "\<And>v. settles left (left fs) (unmarshal FFParse_want_key v fs)"
  shows "settles left (Suc (left fs)) (handle_ptr unmarshal zero get put tok uj fs)"
  using assms [of "case get uj of None \<Rightarrow> zero | Some v \<Rightarrow> v"]
  by (cases "unmarshal FFParse_want_key (case get uj of None \<Rightarrow> zero | Some v \<Rightarrow> v) fs")
    (simp_all add: handle_ptr_def)

lemma elem_ptr_settles:
  assumes "\<And>v. settles left (left fs) (unmarshal FFParse_want_key v fs)"
  shows "settles left (Suc (left fs)) (elem_ptr unmarshal zero tok fs)"
    and "settles left (left fs) (elem_ptr unmarshal zero FFTok_eof fs)"
  using assms [of zero]
  by (cases "unmarshal FFParse_want_key zero fs"; simp add: elem_ptr_def)+

lemma handle_slice_settles:
  assumes "lexer_ends left L"
    and "\<And>tok f. left f \<le> left fs \<Longrightarrow> settles left (Suc (left f)) (elem tok f)"
    and "\<And>f. left f \<le> left fs \<Longrightarrow> settles left (left f) (elem FFTok_eof f)"
    and "left fs < n"
  shows "settles left (Suc (left fs)) (handle_slice L n elem put tok uj fs)"
proof -
  have "settles left (Suc (left fs)) (slice_loop L elem n True [] fs)"
    using slice_loop_settles [where m = "Suc (left fs)" and elem = elem, OF assms(1) _ _ assms(4)] assms(2,3)
    by simp
  then show ?thesis
    by (cases "slice_loop L elem n True [] fs") (simp_all add: handle_slice_def)
qed

lemma map_loop_settles:
  assumes L: "lexer_ends left L"
  shows "left fs < n \<Longrightarrow> settles left (Suc (left fs)) (map_loop L n wantVal m fs)"
proof (induction n arbitrary: wantVal m fs)
  case 0
  then show ?case by simp
next
  case (Suc n)
  obtain tok f1 where scan: "lx_Scan L fs = (tok, f1)" by fastforce
  obtain tok2 f2 where scan2: "lx_Scan L f1 = (tok2, f2)" by fastforce
  obtain tok3 f3 where scan3: "lx_Scan L f2 = (tok3, f3)" by fastforce
  show ?case
  proof (cases "tok = FFTok_error \<or> tok = FFTok_eof")
    case True
    with scan show ?thesis by (auto simp: handle_string_def cannot_unmarshal_def)
  next
    case False
    then have less: "left f1 < left fs" using scan_ends [OF L scan] by simp
    have less2: "tok2 = FFTok_colon \<Longrightarrow> left f2 < left f1" using scan_ends [OF L scan2] by simp
    have less3: "tok3 = FFTok_string \<or> tok3 = FFTok_null \<Longrightarrow> left f3 < left f2"
      using scan_ends [OF L scan3] by auto
    have go: "settles left (Suc (left fs)) (map_loop L n w ws f)" if "left f \<le> left f1" for w ws f
      using Suc.IH [of f w ws] that less Suc.prems by (auto elim: settles_mono)
    from scan scan2 scan3 False less less2 less3 go show ?thesis
      by (auto simp: handle_string_def cannot_unmarshal_def split: decoded.split)
  qed
qed

lemma handle_map_settles:
  assumes "lexer_ends left L" and "left fs < n"
  shows "settles left (Suc (left fs)) (handle_map L n put tok uj fs)"
  using map_loop_settles [OF assms, of True Map.empty]
  by (cases "map_loop L n True Map.empty fs") (simp_all add: handle_map_def)

section \<open>The decoders\<close>

text \<open>A decoder with \<open>n\<close> fuel settles on whatever has less than \<open>n\<close> left.\<close>

definition enough :: "('f \<Rightarrow> nat) \<Rightarrow> nat \<Rightarrow> (FFParseState \<Rightarrow> 'a \<Rightarrow> 'f \<Rightarrow> ('a, 'f) decoded) \<Rightarrow> bool" where
  "enough left n unmarshal \<longleftrightarrow>
     (\<forall>state uj fs. left fs < n \<longrightarrow> settles left (left fs) (unmarshal state uj fs))"

lemma enoughI:
  assumes "lexer_ends left L"
    and "\<And>key tok uj fs. left fs < n \<Longrightarrow> settles left (Suc (left fs)) (handle key tok uj fs)"
    and "\<And>state uj fs. unmarshal state uj fs = mainparse L key_of handle base no_such_key n state base uj fs"
  shows "enough left n unmarshal"
  unfolding enough_def assms(3) using mainparse_settles [OF assms(1) assms(2)] by fastforce

lemma handle_ptr_enough:
  "enough left m unmarshal \<Longrightarrow> left fs < m \<Longrightarrow>
     settles left (Suc (left fs)) (handle_ptr unmarshal zero get put tok uj fs)"
  by (rule handle_ptr_settles) (simp add: enough_def)

lemma handle_ptr_slice_enough:
  "lexer_ends left L \<Longrightarrow> enough left m unmarshal \<Longrightarrow> left fs < m \<Longrightarrow> left fs < n \<Longrightarrow>
     settles left (Suc (left fs)) (handle_slice L n (elem_ptr unmarshal zero) put tok uj fs)"
  by (rule handle_slice_settles) (auto intro: elem_ptr_settles simp: enough_def)

lemma handle_string_slice_enough:
  "lexer_ends left L \<Longrightarrow> left fs < n \<Longrightarrow>
     settles left (Suc (left fs)) (handle_slice L n (elem_string L) put tok uj fs)"
  by (rule handle_slice_settles) simp_all

lemmas fields_settle =
  handle_ptr_enough handle_ptr_slice_enough handle_string_slice_enough handle_map_settles

lemma RouteDecorator_enough:
  assumes "lexer_ends left L"
  shows "enough left n (EnvoyRouteDecorator_UnmarshalJSONFFLexer L n)"
proof (rule enoughI [OF assms _ EnvoyRouteDecorator_UnmarshalJSONFFLexer_def])
  fix key tok uj fs
  assume "left fs < n"
  then show "settles left (Suc (left fs)) (EnvoyRouteDecorator_handle L n key tok uj fs)"
    using assms 
    by (auto simp: EnvoyRouteDecorator_handle_def intro: fields_settle split: EnvoyRouteDecorator_field.split)
qed

lemma TracingConfig_enough:
  assumes "lexer_ends left L"
  shows "enough left n (EnvoyTracingConfig_UnmarshalJSONFFLexer L n)"
proof (rule enoughI [OF assms _ EnvoyTracingConfig_UnmarshalJSONFFLexer_def])
  fix key tok uj fs
  assume "left fs < n"
  then show "settles left (Suc (left fs)) (EnvoyTracingConfig_handle L n key tok uj fs)"
    using assms 
    by (auto simp: EnvoyTracingConfig_handle_def intro: fields_settle split: EnvoyTracingConfig_field.split)
qed

lemma Service_enough:
  assumes "lexer_ends left L"
  shows "enough left n (EnvoyService_UnmarshalJSONFFLexer L n)"
proof (rule enoughI [OF assms _ EnvoyService_UnmarshalJSONFFLexer_def])
  fix key tok uj fs
  assume "left fs < n"
  then show "settles left (Suc (left fs)) (EnvoyService_handle L n key tok uj fs)"
    using assms 
    by (auto simp: EnvoyService_handle_def intro: fields_settle split: EnvoyService_field.split)
qed

lemma Cluster_enough:
  assumes "lexer_ends left L"
  shows "enough left n (EnvoyCluster_UnmarshalJSONFFLexer L n)"
proof (rule enoughI [OF assms _ EnvoyCluster_UnmarshalJSONFFLexer_def])
  fix key tok uj fs
  assume "left fs < n"
  then show "settles left (Suc (left fs)) (EnvoyCluster_handle L n key tok uj fs)"
    using assms 
    by (auto simp: EnvoyCluster_handle_def intro: fields_settle split: EnvoyCluster_field.split)
qed

lemma TCPRoute_enough:
  assumes "lexer_ends left L"
  shows "enough left n (EnvoyTCPRoute_UnmarshalJSONFFLexer L n)"
proof (rule enoughI [OF assms _ EnvoyTCPRoute_UnmarshalJSONFFLexer_def])
  fix key tok uj fs
  assume "left fs < n"
  then show "settles left (Suc (left fs)) (EnvoyTCPRoute_handle L n key tok uj fs)"
    using assms 
    by (auto simp: EnvoyTCPRoute_handle_def intro: fields_settle split: EnvoyTCPRoute_field.split)
qed

lemma Route_enough:
  assumes "lexer_ends left L"
  shows "enough left n (EnvoyRoute_UnmarshalJSONFFLexer L n)"
proof (rule enoughI [OF assms _ EnvoyRoute_UnmarshalJSONFFLexer_def])
  fix key tok uj fs
  assume "left fs < n"
  then show "settles left (Suc (left fs)) (EnvoyRoute_handle L n key tok uj fs)"
    using assms RouteDecorator_enough [OF assms]
    by (auto simp: EnvoyRoute_handle_def intro: fields_settle split: EnvoyRoute_field.split)
qed

lemma HTTPVirtualHost_enough:
  assumes "lexer_ends left L"
  shows "enough left n (EnvoyHTTPVirtualHost_UnmarshalJSONFFLexer L n)"
proof (rule enoughI [OF assms _ EnvoyHTTPVirtualHost_UnmarshalJSONFFLexer_def])
  fix key tok uj fs
  assume "left fs < n"
  then show "settles left (Suc (left fs)) (EnvoyHTTPVirtualHost_handle L n key tok uj fs)"
    using assms Route_enough [OF assms]
    by (auto simp: EnvoyHTTPVirtualHost_handle_def intro: fields_settle split: EnvoyHTTPVirtualHost_field.split)
qed

lemma RouteConfig_enough:
  assumes "lexer_ends left L"
  shows "enough left n (EnvoyRouteConfig_UnmarshalJSONFFLexer L n)"
proof (rule enoughI [OF assms _ EnvoyRouteConfig_UnmarshalJSONFFLexer_def])
  fix key tok uj fs
  assume "left fs < n"
  then show "settles left (Suc (left fs)) (EnvoyRouteConfig_handle L n key tok uj fs)"
    using assms HTTPVirtualHost_enough [OF assms] TCPRoute_enough [OF assms]
    by (auto simp: EnvoyRouteConfig_handle_def intro: fields_settle split: EnvoyRouteConfig_field.split)
qed

lemma EnvoyFilter_enough:
  assumes L: "lexer_ends left L"
  shows "left fs < n \<Longrightarrow> left fs < d \<Longrightarrow>
      settles left (left fs) (EnvoyFilter_UnmarshalJSONFFLexer L n d state uj fs)"
    and "left fs < n \<Longrightarrow> left fs < d \<Longrightarrow>
      settles left (left fs) (EnvoyFilterConfig_UnmarshalJSONFFLexer L n d state config fs)"
proof (induction d arbitrary: state uj config fs)
  case 0
  { case 1 then show ?case by simp next case 2 then show ?case by simp }
next
  case (Suc d)
  have filt: "enough left (min n d) (EnvoyFilter_UnmarshalJSONFFLexer L n d)"
    and config: "enough left (min n d) (EnvoyFilterConfig_UnmarshalJSONFFLexer L n d)"
    using Suc.IH by (simp_all add: enough_def)
  have "settles left (Suc (left f)) (EnvoyFilter_handle L n (EnvoyFilterConfig_UnmarshalJSONFFLexer L n d) key tok v f)"
    if "left f < min n d" for key tok v f
    using handle_ptr_enough [OF config that] by (cases key) (simp_all add: EnvoyFilter_handle_def)
  note * = mainparse_settles [where m = "min n d" and handle =
      "EnvoyFilter_handle L n (EnvoyFilterConfig_UnmarshalJSONFFLexer L n d)", OF L this]
  have "settles left (Suc (left f)) (EnvoyFilterConfig_handle L n (EnvoyFilter_UnmarshalJSONFFLexer L n d) key tok v f)"
    if "left f < min n d" for key tok v f
  proof -
    have "left f < n" using that by simp
    with that show ?thesis
      by (cases key) (simp_all add: EnvoyFilterConfig_handle_def handle_ptr_slice_enough [OF L filt]
          handle_ptr_enough [OF RouteConfig_enough [OF L]] handle_ptr_enough [OF TracingConfig_enough [OF L]])
  qed
  note ** = mainparse_settles [where m = "min n d" and handle =
      "EnvoyFilterConfig_handle L n (EnvoyFilter_UnmarshalJSONFFLexer L n d)", OF L this]
  { case 1 then show ?case using * [of fs n] by simp
  next case 2 then show ?case using ** [of fs n] by simp }
qed

lemma Filter_enough: "lexer_ends left L \<Longrightarrow> enough left n (EnvoyFilter_UnmarshalJSONFFLexer L n n)"
  by (simp add: enough_def EnvoyFilter_enough)

lemma Listener_enough:
  assumes "lexer_ends left L"
  shows "enough left n (EnvoyListener_UnmarshalJSONFFLexer L n)"
proof (rule enoughI [OF assms _ EnvoyListener_UnmarshalJSONFFLexer_def])
  fix key tok uj fs
  assume "left fs < n"
  then show "settles left (Suc (left fs)) (EnvoyListener_handle L n key tok uj fs)"
    using assms Filter_enough [OF assms]
    by (auto simp: EnvoyListener_handle_def intro: fields_settle split: EnvoyListener_field.split)
qed

lemma CDSResult_enough:
  assumes "lexer_ends left L"
  shows "enough left n (CDSResult_UnmarshalJSONFFLexer L n)"
proof (rule enoughI [OF assms _ CDSResult_UnmarshalJSONFFLexer_def])
  fix key tok uj fs
  assume "left fs < n"
  then show "settles left (Suc (left fs)) (CDSResult_handle L n key tok uj fs)"
    using assms Cluster_enough [OF assms]
    by (auto simp: CDSResult_handle_def intro: fields_settle split: CDSResult_field.split)
qed

lemma LDSResult_enough:
  assumes "lexer_ends left L"
  shows "enough left n (LDSResult_UnmarshalJSONFFLexer L n)"
proof (rule enoughI [OF assms _ LDSResult_UnmarshalJSONFFLexer_def])
  fix key tok uj fs
  assume "left fs < n"
  then show "settles left (Suc (left fs)) (LDSResult_handle L n key tok uj fs)"
    using assms Listener_enough [OF assms]
    by (auto simp: LDSResult_handle_def intro: fields_settle split: LDSResult_field.split)
qed

lemma SDSResult_enough:
  assumes "lexer_ends left L"
  shows "enough left n (SDSResult_UnmarshalJSONFFLexer L n)"
proof (rule enoughI [OF assms _ SDSResult_UnmarshalJSONFFLexer_def])
  fix key tok uj fs
  assume "left fs < n"
  then show "settles left (Suc (left fs)) (SDSResult_handle L n key tok uj fs)"
    using assms Service_enough [OF assms]
    by (auto simp: SDSResult_handle_def intro: fields_settle split: SDSResult_field.split)
qed

section \<open>Lexers\<close>

text \<open>A lexer on a list of tokens, which gives \<open>FFTok_eof\<close> once it has given them all.\<close>

definition list_lexer :: "(string \<Rightarrow> (FFTok \<times> string) list) \<Rightarrow> (string \<times> (FFTok \<times> string) list) fflexer" where
  "list_lexer tokenize =
     \<lparr>lx_NewFFLexer = (\<lambda>input. ([], tokenize input)),
      lx_Scan = (\<lambda>(out, ts). case ts of [] \<Rightarrow> (FFTok_eof, ([], [])) | (tok, s) # ts \<Rightarrow> (tok, (s, ts))),
      lx_Output = fst, lx_SkipField = (\<lambda>tok fs. (None, fs)), lx_BigError = (\<lambda>fs. None),
      lx_ToError = (\<lambda>fs. Some ''unexpected end''), lx_WrapErr = (\<lambda>fs err. err),
      lx_tok_String = (\<lambda>tok. ''token''), lx_ParseInt = (\<lambda>s. Inr (of_nat (digits_val 10 0 s))),
      lx_EqualFoldRight = (=), lx_AsciiEqualFold = (=), lx_SimpleLetterEqualFold = (=)\<rparr>"

text \<open>
  A lexer on the bytes of a document, for which \<open>lexer_ends\<close> is a theorem: its measure is the number of
  bytes not read. It reads brackets, strings, numbers and the three words, and drops white space;
  of an escape in a string it keeps the byte after the backslash.
\<close>

fun lex_string :: "string \<Rightarrow> (string \<times> string) option" where
  "lex_string [] = None"
| "lex_string (c # s) =
     (if c = CHR 0x22 then Some ([], s)
      else if c = CHR 0x5C then
        (case s of [] \<Rightarrow> None | d # s' \<Rightarrow> map_option (\<lambda>(out, rest). (d # out, rest)) (lex_string s'))
      else map_option (\<lambda>(out, rest). (c # out, rest)) (lex_string s))"

definition lex_word :: "string \<Rightarrow> FFTok" where
  "lex_word w =
     (if w \<in> {''true'', ''false''} then FFTok_bool
      else if w = ''null'' then FFTok_null
      else if list_all (\<lambda>c. c \<in> set ''-0123456789'') w then FFTok_integer
      else if list_all (\<lambda>c. c \<in> set ''+-.0123456789Ee'') w then FFTok_double
      else FFTok_error)"

definition lex_sign :: "char \<rightharpoonup> FFTok" where
  "lex_sign = map_of [(CHR ''{'', FFTok_left_bracket), (CHR ''}'', FFTok_right_bracket),
     (CHR ''['', FFTok_left_brace), (CHR '']'', FFTok_right_brace), (CHR '','', FFTok_comma), (CHR '':'', FFTok_colon)]"

definition lex_blank :: "char \<Rightarrow> bool" where
  "lex_blank c \<longleftrightarrow> c \<in> {CHR 0x20, CHR 0x09, CHR 0x0A, CHR 0x0D}"

definition lex_ends :: "char \<Rightarrow> bool" where
  "lex_ends c \<longleftrightarrow> lex_blank c \<or> c = CHR 0x22 \<or> lex_sign c \<noteq> None"

definition lex_scan :: "string \<Rightarrow> FFTok \<times> string \<times> string" where
  "lex_scan s =
     (case dropWhile lex_blank s of
        [] \<Rightarrow> (FFTok_eof, [], [])
      | c # rest \<Rightarrow>
          (case lex_sign c of
             Some tok \<Rightarrow> (tok, [c], rest)
           | None \<Rightarrow>
               if c = CHR 0x22 then
                 (case lex_string rest of
                    None \<Rightarrow> (FFTok_error, [], [])
                  | Some (out, rest') \<Rightarrow> (FFTok_string, out, rest'))
               else
                 (let w = c # takeWhile (\<lambda>d. \<not> lex_ends d) rest
                  in (lex_word w, w, dropWhile (\<lambda>d. \<not> lex_ends d) rest))))"

lemma lex_string_length: "lex_string s = Some (out, rest) \<Longrightarrow> length rest < length s"
  by (induction s arbitrary: out rest rule: lex_string.induct)
    (auto split: if_splits list.splits dest!: less_SucI)

lemma lex_scan_length: "lex_scan s = (tok, out, rest) \<Longrightarrow> tok \<noteq> FFTok_eof \<Longrightarrow> length rest < length s"
proof -
  assume scan: "lex_scan s = (tok, out, rest)" and "tok \<noteq> FFTok_eof"
  then obtain c s' where s': "dropWhile lex_blank s = c # s'"
    by (cases "dropWhile lex_blank s") (auto simp: lex_scan_def)
  moreover have "length (dropWhile (\<lambda>d. \<not> lex_ends d) s') \<le> length s'" by (rule length_dropWhile_le)
  ultimately have "length rest \<le> length s'"
    using scan lex_string_length [of s']
    by (auto simp: lex_scan_def Let_def less_imp_le split: option.splits if_splits)
  with s' show ?thesis using length_dropWhile_le [of lex_blank s] by simp
qed

lemma lex_scan_eof: "lex_scan s = (FFTok_eof, out, rest) \<Longrightarrow> length rest \<le> length s"
  using length_dropWhile_le [of "\<lambda>d. \<not> lex_ends d"] lex_string_length lex_scan_length
  by (cases "dropWhile lex_blank s")
    (auto simp: lex_scan_def lex_word_def lex_sign_def Let_def split: option.splits if_splits)

text \<open>What is skipped of an array or object: all up to the bracket that closes it.\<close>

function lex_skip :: "FFTok \<Rightarrow> FFTok \<Rightarrow> nat \<Rightarrow> string \<Rightarrow> string option" where
  "lex_skip ob cb depth s =
     (case lex_scan s of (tok, out, rest) \<Rightarrow>
        if tok = FFTok_eof \<or> tok = FFTok_error then None
        else if tok = ob then lex_skip ob cb (Suc depth) rest
        else if tok = cb then
          (if depth = 0 then Some rest else lex_skip ob cb (depth - 1) rest)
        else lex_skip ob cb depth rest)"
  by pat_completeness auto
termination
  by (relation "measure (\<lambda>(ob, cb, depth, s). length s)") (auto dest!: lex_scan_length [OF sym])

declare lex_skip.simps [simp del]

lemma lex_skip_length: "lex_skip ob cb depth s = Some rest \<Longrightarrow> length rest \<le> length s"
proof (induction ob cb depth s rule: lex_skip.induct)
  case (1 ob cb depth s)
  obtain tok out r where scan: "lex_scan s = (tok, out, r)" by (metis prod_cases3)
  note skip = "1.prems" [unfolded lex_skip.simps [of ob cb depth s] scan, simplified]
  show ?case
  proof (cases "tok = FFTok_eof \<or> tok = FFTok_error")
    case True
    with skip show ?thesis by auto
  next
    case False
    then have "length r < length s" using lex_scan_length [OF scan] by simp
    with skip False "1.IH" [OF scan [symmetric] refl] show ?thesis by (force split: if_splits)
  qed
qed

definition byte_lexer :: "(string \<times> string) fflexer" where
  "byte_lexer =
     \<lparr>lx_NewFFLexer = (\<lambda>input. ([], input)), lx_Scan = (\<lambda>(out, s). lex_scan s), lx_Output = fst,
      lx_SkipField = (\<lambda>tok (out, s).
        let skip = (\<lambda>close. case lex_skip tok close 0 s of
              None \<Rightarrow> (Some ''ffjson: unexpected EOF'', out, s) | Some rest \<Rightarrow> (None, out, rest))
        in if tok = FFTok_left_brace then skip FFTok_right_brace
           else if tok = FFTok_left_bracket then skip FFTok_right_bracket
           else (None, out, s)),
      lx_BigError = (\<lambda>fs. None), lx_ToError = (\<lambda>fs. Some ''invalid token''), lx_WrapErr = (\<lambda>fs err. err),
      lx_tok_String = (\<lambda>tok. if tok = FFTok_eof then ''tok:eof'' else ''token''),
      lx_ParseInt = (\<lambda>s. Inr (of_nat (digits_val 10 0 s))),
      lx_EqualFoldRight = (=), lx_AsciiEqualFold = (=), lx_SimpleLetterEqualFold = (=)\<rparr>"

lemma byte_lexer_ends: "lexer_ends (\<lambda>fs. length (snd fs)) byte_lexer"
  by (auto simp: lexer_ends_def byte_lexer_def Let_def lex_skip_length
      dest: lex_scan_length lex_scan_eof split: if_splits option.splits)

section \<open>Properties\<close>

text \<open>
  C28: The decoders end on every input, a truncated one included: with more fuel than the lexer has
  bytes left, none of the decoders of the three discovery results runs out of it, however deeply
  filters are nested. The lexer may go on giving \<open>FFTok_eof\<close> for ever at the end of the input; no
  loop of the decoders, those over the elements of arrays and maps included, waits for more.
\<close>

theorem decoders_terminate:
  assumes "lexer_ends left L" and "left (lx_NewFFLexer L input) < n"
  shows "CDSResult_UnmarshalJSON L n input c \<noteq> OutOfFuel
    \<and> LDSResult_UnmarshalJSON L n input l \<noteq> OutOfFuel
    \<and> SDSResult_UnmarshalJSON L n input s \<noteq> OutOfFuel"
  using CDSResult_enough [OF assms(1), of n] LDSResult_enough [OF assms(1), of n]
    SDSResult_enough [OF assms(1), of n] assms(2)
  unfolding enough_def CDSResult_UnmarshalJSON_def LDSResult_UnmarshalJSON_def SDSResult_UnmarshalJSON_def
  by (metis settles_simps(4))

lemma decoders_terminate_witness:
  "(\<forall>input. CDSResult_UnmarshalJSON byte_lexer (Suc (length input)) input CDSResult_zero \<noteq> OutOfFuel)
   \<and> LDSResult_UnmarshalJSON byte_lexer 17 ''{\"listeners\":[{'' LDSResult_zero \<noteq> OutOfFuel"
  using decoders_terminate [OF byte_lexer_ends]
  by (simp add: byte_lexer_def)

end
