(* ===== verification/FFJsonRoundTrip.thy ===== *)
theory FFJsonRoundTrip
  imports FFJsonSpec FFJsonFuel
begin

text \<open>
  The decoders read what the encoders write. A document is followed from its JSON value to the
  tokens that the lexer gives for its text, and from the tokens to the object. That the lexer cuts a
  text into the tokens of its value is a hypothesis about ffjson's lexer; the rest is proved of the
  generated code. The contract between a decoder and its callers is the locale \<open>json_decoder\<close>,
  interpreted on the decoder of every struct.
\<close>

section \<open>Tokens\<close>

text \<open>A bracket, comma, colon or null; a string with its text; a number with its value.\<close>

datatype jtoken = Mark FFTok | Text string | Num int64

fun tokens :: "json \<Rightarrow> jtoken list"
  and tokens_list :: "json list \<Rightarrow> jtoken list"
  and tokens_fields :: "(string \<times> json) list \<Rightarrow> jtoken list" where
  "tokens JNull = [Mark FFTok_null]"
| "tokens (JNumber i) = [Num (of_int i)]"
| "tokens (JString s) = [Text s]"
| "tokens (JArray vs) = Mark FFTok_left_brace # tokens_list vs @ [Mark FFTok_right_brace]"
| "tokens (JObject spaced fs) = Mark FFTok_left_bracket # tokens_fields fs @ [Mark FFTok_right_bracket]"
| "tokens_list [] = []"
| "tokens_list (v # vs) = tokens v @ (if vs = [] then [] else [Mark FFTok_comma]) @ tokens_list vs"
| "tokens_fields [] = []"
| "tokens_fields ((k, v) # fs) =
     Text k # Mark FFTok_colon # tokens v @ (if fs = [] then [] else [Mark FFTok_comma]) @ tokens_fields fs"

lemma tokens_nonempty [simp]: "tokens j \<noteq> []"
  by (cases j) simp_all

definition gives :: "'f fflexer \<Rightarrow> jtoken \<Rightarrow> FFTok \<Rightarrow> 'f \<Rightarrow> bool" where
  "gives L t tok fs =
     (case t of
        Mark k \<Rightarrow> tok = k
      | Text s \<Rightarrow> tok = FFTok_string \<and> lx_Output L fs = s
      | Num i \<Rightarrow> tok = FFTok_integer \<and> lx_ParseInt L (lx_Output L fs) = Inr i)"

lemma gives_simps [simp]:
  "gives L (Mark k) tok fs \<longleftrightarrow> tok = k"
  "gives L (Text s) tok fs \<longleftrightarrow> tok = FFTok_string \<and> lx_Output L fs = s"
  "gives L (Num i) tok fs \<longleftrightarrow> tok = FFTok_integer \<and> lx_ParseInt L (lx_Output L fs) = Inr i"
  by (simp_all add: gives_def)

text \<open>The lexer gives these tokens next.\<close>

fun yields :: "'f fflexer \<Rightarrow> jtoken list \<Rightarrow> 'f \<Rightarrow> bool" where
  "yields L [] fs = True"
| "yields L (t # ts) fs = (case lx_Scan L fs of (tok, fs') \<Rightarrow> gives L t tok fs' \<and> yields L ts fs')"

lemma yields_append: "yields L (ts @ us) fs \<Longrightarrow> yields L ts fs"
  by (induction ts arbitrary: fs) (auto split: prod.splits)

text \<open>On the text of a document, the lexer gives the tokens of its value.\<close>

definition lexes :: "'f fflexer \<Rightarrow> string \<Rightarrow> json \<Rightarrow> bool" where
  "lexes L input j = yields L (tokens j) (lx_NewFFLexer L input)"

section \<open>Values\<close>

text \<open>
  The code of a value takes the object from one state to another when the lexer gives the value's
  tokens, and leaves the lexer behind them.
\<close>

definition reads ::
  "'f fflexer \<Rightarrow> (FFTok \<Rightarrow> 'a \<Rightarrow> 'f \<Rightarrow> ('a, 'f) decoded) \<Rightarrow> json \<Rightarrow> 'a \<Rightarrow> 'a \<Rightarrow> bool" where
  "reads L rd j uj uj' \<longleftrightarrow>
     (\<forall>fs ts tok f1. lx_Scan L fs = (tok, f1) \<longrightarrow> yields L (tokens j @ ts) fs \<longrightarrow>
        (\<exists>f2. rd tok uj f1 = Decoded uj' f2 \<and> yields L ts f2))"

lemma readsI:
  assumes "\<And>fs ts tok f1. lx_Scan L fs = (tok, f1) \<Longrightarrow> yields L (tokens j @ ts) fs \<Longrightarrow>
    \<exists>f2. rd tok uj f1 = Decoded uj' f2 \<and> yields L ts f2"
  shows "reads L rd j uj uj'"
  using assms by (simp add: reads_def)

lemma readsE:
  assumes "reads L rd j uj uj'" and "lx_Scan L fs = (tok, f1)" and "yields L (tokens j @ ts) fs"
  obtains f2 where "rd tok uj f1 = Decoded uj' f2" "yields L ts f2"
  using assms unfolding reads_def by blast

lemma scan_value:
  assumes "lx_Scan L fs = (tok, f1)" and "yields L (tokens j @ ts) fs"
  shows "value_token tok"
  using assms by (cases j) (auto simp: value_token_def)

lemma reads_string: "reads L (handle_string L put) (JString s) uj (put s uj)"
  by (rule readsI) (auto simp: handle_string_def)

lemma reads_int: "of_int i = x \<Longrightarrow> reads L (handle_int L kind put) (JNumber i) uj (put x uj)"
  by (rule readsI) (auto simp: handle_int_def)

section \<open>Objects\<close>

text \<open>The fields of an object, read one after the other.\<close>

fun fields_read ::
  "'f fflexer \<Rightarrow> (string \<Rightarrow> 'k) \<Rightarrow> ('k \<Rightarrow> FFTok \<Rightarrow> 'a \<Rightarrow> 'f \<Rightarrow> ('a, 'f) decoded) \<Rightarrow> 'k \<Rightarrow> 'k
   \<Rightarrow> (string \<times> json) list \<Rightarrow> 'a \<Rightarrow> 'a \<Rightarrow> bool" where
  "fields_read L key_of handle base no_such_key [] uj uj' = (uj = uj')"
| "fields_read L key_of handle base no_such_key ((k, j) # fs) uj uj' =
     (key_of k \<noteq> no_such_key \<and> key_of k \<noteq> base
      \<and> (\<exists>u. reads L (handle (key_of k)) j uj u
           \<and> fields_read L key_of handle base no_such_key fs u uj'))"

lemma fields_read_append:
  "fields_read L key_of handle base no_such_key fs uj u \<Longrightarrow>
   fields_read L key_of handle base no_such_key gs u uj' \<Longrightarrow>
   fields_read L key_of handle base no_such_key (fs @ gs) uj uj'"
  by (induction fs arbitrary: uj) (auto, blast)

lemma length_tokens_fields: "fs \<noteq> [] \<Longrightarrow> 4 * length fs \<le> Suc (length (tokens_fields fs))"
proof (induction fs)
  case Nil
  then show ?case by simp
next
  case (Cons f fs)
  obtain k v where f: "f = (k, v)" by fastforce
  have "1 \<le> length (tokens v)" by (cases "tokens v") simp_all
  with Cons f show ?case by (cases "fs = []") simp_all
qed

lemma mainparse_fields:
  assumes "fields_read L key_of handle base no_such_key fs uj uj'" and "fs \<noteq> []"
    and "yields L (tokens_fields fs @ Mark FFTok_right_bracket # ts) f0" and "4 * length fs \<le> n"
  shows "\<exists>f2. mainparse L key_of handle base no_such_key n FFParse_want_key currentKey uj f0 = Decoded uj' f2
    \<and> yields L ts f2"
  using assms
proof (induction fs arbitrary: uj f0 n currentKey)
  case Nil
  then show ?case by simp
next
  case (Cons f fs)
  obtain k j where f: "f = (k, j)" by fastforce
  obtain m where n: "n = Suc (Suc (Suc (Suc m)))" "4 * length fs \<le> m"
    using Cons.prems(4) that [of "n - 4"] by simp
  obtain u where key: "key_of k \<noteq> no_such_key" "key_of k \<noteq> base"
    and rd: "reads L (handle (key_of k)) j uj u"
    and rest: "fields_read L key_of handle base no_such_key fs u uj'"
    using Cons.prems(1) f by auto
  obtain f1 where s1: "lx_Scan L f0 = (FFTok_string, f1)" "lx_Output L f1 = k"
    and y1: "yields L (Mark FFTok_colon # tokens j @ (if fs = [] then [] else [Mark FFTok_comma])
        @ tokens_fields fs @ Mark FFTok_right_bracket # ts) f1"
    using Cons.prems(3) f by (auto split: prod.splits)
  obtain f2 where s2: "lx_Scan L f1 = (FFTok_colon, f2)"
    and y2: "yields L (tokens j @ (if fs = [] then [] else [Mark FFTok_comma])
        @ tokens_fields fs @ Mark FFTok_right_bracket # ts) f2"
    using y1 by (auto split: prod.splits)
  obtain tok f3 where s3: "lx_Scan L f2 = (tok, f3)" by fastforce
  have tok: "value_token tok" "tok \<noteq> FFTok_error"
    using scan_value [OF s3 y2] by (auto simp: value_token_def)
  obtain f4 where h: "handle (key_of k) tok uj f3 = Decoded u f4"
    and y4: "yields L ((if fs = [] then [] else [Mark FFTok_comma])
        @ tokens_fields fs @ Mark FFTok_right_bracket # ts) f4"
    using readsE [OF rd s3 y2] by blast
  show ?case
  proof (cases "fs = []")
    case True
    with y4 rest show ?thesis
      by (auto simp: n s1 s2 s3 tok key h split: prod.splits)
  next
    case False
    then obtain f5 where s5: "lx_Scan L f4 = (FFTok_comma, f5)"
      and y5: "yields L (tokens_fields fs @ Mark FFTok_right_bracket # ts) f5"
      using y4 by (auto split: prod.splits)
    from Cons.IH [OF rest False y5 n(2)] show ?thesis
      by (simp add: n s1 s2 s3 s5 tok key h)
  qed
qed

text \<open>Fuel that is enough for the values of all fields.\<close>

definition fits :: "nat \<Rightarrow> (string \<times> json) list \<Rightarrow> bool" where
  "fits n fs = list_all (\<lambda>(k, j). length (tokens j) \<le> n) fs"

lemma fits_simps [simp]:
  "fits n []" "fits n ((k, j) # fs) \<longleftrightarrow> length (tokens j) \<le> n \<and> fits n fs"
  "fits n (fs @ gs) \<longleftrightarrow> fits n fs \<and> fits n gs"
  by (simp_all add: fits_def)

lemma fits_tokens_fields: "length (tokens_fields fs) \<le> n \<Longrightarrow> fits n fs"
  by (induction fs) auto

lemma fits_object: "length (tokens (JObject spaced fs)) \<le> n \<Longrightarrow> fits n fs"
  by (rule fits_tokens_fields) simp

lemma tokens_fields_append_le:
  "length (tokens_fields fs) \<le> length (tokens_fields (fs @ gs))"
  "length (tokens_fields gs) \<le> length (tokens_fields (fs @ gs))"
  by (induction fs) auto

lemma tokens_fields_inner:
  "length (tokens_fields fs) \<le> length (tokens_fields (as @ bs @ cs @ fs @ gs))"
  by (meson tokens_fields_append_le le_trans)

lemma tokens_list_le: "v \<in> set vs \<Longrightarrow> length (tokens v) \<le> length (tokens_list vs)"
  by (induction vs) auto

text \<open>
  A decoder of objects gives the object, started before the opening bracket of the value or, as
  another decoder calls it, after it.
\<close>

definition decodes ::
  "'f fflexer \<Rightarrow> (FFParseState \<Rightarrow> 'a \<Rightarrow> 'f \<Rightarrow> ('a, 'f) decoded) \<Rightarrow> 'a \<Rightarrow> json \<Rightarrow> 'a \<Rightarrow> bool" where
  "decodes L unmarshal zero j x \<longleftrightarrow>
     (\<exists>spaced fs. j = JObject spaced fs
        \<and> (\<forall>f0 ts. yields L (tokens_fields fs @ Mark FFTok_right_bracket # ts) f0 \<longrightarrow>
             (\<exists>f2. unmarshal FFParse_want_key zero f0 = Decoded x f2 \<and> yields L ts f2))
        \<and> (\<forall>f0 ts. yields L (tokens j @ ts) f0 \<longrightarrow>
             (\<exists>f2. unmarshal FFParse_map_start zero f0 = Decoded x f2 \<and> yields L ts f2)))"

lemma decodesI:
  assumes unmarshal: "\<And>state uj f0. unmarshal state uj f0 =
      mainparse L key_of handle base no_such_key n state base uj f0"
    and j: "j = JObject spaced fs" and "length (tokens j) \<le> n"
    and "fits n fs \<Longrightarrow> fields_read L key_of handle base no_such_key fs zero x"
  shows "decodes L unmarshal zero j x"
proof -
  have len: "length (tokens (JObject spaced fs)) \<le> n" using assms(2,3) by simp
  note read = assms(4) [OF fits_object [OF len]]
  obtain m where m: "n = Suc m" "fs = [] \<or> 4 * length fs \<le> m" "m \<noteq> 0"
    using len length_tokens_fields [of fs] that [of "n - 1"] by (cases "fs = []") simp_all
  have inner: "\<exists>f2. mainparse L key_of handle base no_such_key l FFParse_want_key base zero f0 = Decoded x f2
      \<and> yields L ts f2"
    if y: "yields L (tokens_fields fs @ Mark FFTok_right_bracket # ts) f0" and l: "m \<le> l" for f0 ts l
  proof (cases "fs = []")
    case True
    obtain l' where "l = Suc l'" using l m(3) by (cases l) simp_all
    with True y read show ?thesis by (auto split: prod.splits)
  next
    case False
    with mainparse_fields [OF read False y] l m(2) show ?thesis by simp
  qed
  have "\<exists>f2. unmarshal FFParse_map_start zero f0 = Decoded x f2 \<and> yields L ts f2"
    if "yields L (tokens j @ ts) f0" for f0 ts
    using that inner [of ts _ m] by (auto simp: unmarshal m(1) j split: prod.splits)
  moreover have "\<exists>f2. unmarshal FFParse_want_key zero f0 = Decoded x f2 \<and> yields L ts f2"
    if "yields L (tokens_fields fs @ Mark FFTok_right_bracket # ts) f0" for f0 ts
    unfolding unmarshal by (rule inner [OF that]) (simp add: m(1))
  ultimately show ?thesis
    unfolding decodes_def by (intro exI [of _ spaced] exI [of _ fs] conjI j allI impI)
qed

lemma decodesE:
  assumes "decodes L unmarshal zero j x" and "lx_Scan L fs = (tok, f1)" and "yields L (tokens j @ ts) fs"
  obtains f2 where "tok = FFTok_left_bracket" "unmarshal FFParse_want_key zero f1 = Decoded x f2" "yields L ts f2"
  using assms unfolding decodes_def by (auto split: prod.splits) (metis append.assoc append_Cons append_Nil)

lemma reads_ptr:
  assumes "decodes L unmarshal zero j x" and "get uj = None"
  shows "reads L (handle_ptr unmarshal zero get put) j uj (put (Some x) uj)"
proof (rule readsI)
  fix fs ts tok f1
  assume "lx_Scan L fs = (tok, f1)" and "yields L (tokens j @ ts) fs"
  then obtain f2 where "tok = FFTok_left_bracket" "unmarshal FFParse_want_key zero f1 = Decoded x f2"
      "yields L ts f2"
    by (rule decodesE [OF assms(1)])
  with assms(2) show "\<exists>f2. handle_ptr unmarshal zero get put tok uj f1 = Decoded (put (Some x) uj) f2
      \<and> yields L ts f2"
    by (simp add: handle_ptr_def)
qed

lemma reads_ptr_null: "reads L (handle_ptr unmarshal zero get put) JNull uj (put None uj)"
  by (rule readsI) (auto simp: handle_ptr_def split: prod.splits)

section \<open>Slices and maps\<close>

text \<open>The code of an element gives the element for a value that is neither null nor absent.\<close>

definition elem_reads ::
  "'f fflexer \<Rightarrow> (FFTok \<Rightarrow> 'f \<Rightarrow> ('e option, 'f) decoded) \<Rightarrow> json \<Rightarrow> 'e \<Rightarrow> bool" where
  "elem_reads L elem j x \<longleftrightarrow>
     (\<forall>fs ts tok f1. lx_Scan L fs = (tok, f1) \<longrightarrow> yields L (tokens j @ ts) fs \<longrightarrow>
        (\<exists>f2. elem tok f1 = Decoded (Some x) f2 \<and> yields L ts f2))"

lemma elem_reads_string: "elem_reads L (elem_string L) (JString s) s"
  by (auto simp: elem_reads_def elem_string_def handle_string_def)

lemma elem_reads_ptr:
  assumes "decodes L unmarshal zero j x"
  shows "elem_reads L (elem_ptr unmarshal zero) j (Some x)"
  unfolding elem_reads_def by (auto elim!: decodesE [OF assms] simp: elem_ptr_def)

lemma length_tokens_list: "vs \<noteq> [] \<Longrightarrow> 2 * length vs \<le> Suc (length (tokens_list vs))"
proof (induction vs)
  case Nil
  then show ?case by simp
next
  case (Cons v vs)
  have "1 \<le> length (tokens v)" by (cases "tokens v") simp_all
  with Cons show ?case by (cases "vs = []") simp_all
qed

lemma value_not_end: "value_token tok \<Longrightarrow> tok \<noteq> FFTok_error \<and> tok \<noteq> FFTok_right_brace
    \<and> tok \<noteq> FFTok_right_bracket \<and> tok \<noteq> FFTok_comma"
  by (auto simp: value_token_def)

lemma slice_loop_reads:
  assumes "list_all2 (elem_reads L elem) js xs" and "js \<noteq> []"
    and "yields L (tokens_list js @ Mark FFTok_right_brace # ts) f0" and "2 * length js \<le> n"
  shows "\<exists>f2. slice_loop L elem n wantVal vs f0 = Decoded (vs @ xs) f2 \<and> yields L ts f2"
  using assms
proof (induction js arbitrary: xs wantVal vs f0 n)
  case Nil
  then show ?case by simp
next
  case (Cons j js)
  obtain m where n: "n = Suc (Suc m)" "2 * length js \<le> m"
    using Cons.prems(4) that [of "n - 2"] by simp
  obtain x xs' where xs: "xs = x # xs'" "elem_reads L elem j x" "list_all2 (elem_reads L elem) js xs'"
    using Cons.prems(1) by (auto simp: list_all2_Cons1)
  obtain tok f1 where s1: "lx_Scan L f0 = (tok, f1)" by fastforce
  have y0: "yields L (tokens j @ (if js = [] then [] else [Mark FFTok_comma]) @ tokens_list js
      @ Mark FFTok_right_brace # ts) f0"
    using Cons.prems(3) by simp
  note tok = value_not_end [OF scan_value [OF s1 y0]]
  obtain f2 where e: "elem tok f1 = Decoded (Some x) f2"
    and y2: "yields L ((if js = [] then [] else [Mark FFTok_comma]) @ tokens_list js
      @ Mark FFTok_right_brace # ts) f2"
    using xs(2) s1 y0 unfolding elem_reads_def by blast
  show ?case
  proof (cases "js = []")
    case True
    with y2 xs show ?thesis by (auto simp: n s1 tok e split: prod.splits)
  next
    case False
    then obtain f3 where s3: "lx_Scan L f2 = (FFTok_comma, f3)"
      and y3: "yields L (tokens_list js @ Mark FFTok_right_brace # ts) f3"
      using y2 by (auto split: prod.splits)
    from Cons.IH [OF xs(3) False y3 n(2), of False "vs @ [x]"] show ?thesis
      by (simp add: n s1 s3 tok e xs(1))
  qed
qed

lemma reads_slice:
  assumes "list_all2 (elem_reads L elem) js xs" and "length (tokens (JArray js)) \<le> n"
  shows "reads L (handle_slice L n elem put) (JArray js) uj (put (Some xs) uj)"
proof (rule readsI)
  fix fs ts tok f1
  assume s: "lx_Scan L fs = (tok, f1)" and y: "yields L (tokens (JArray js) @ ts) fs"
  then have tok: "tok = FFTok_left_brace"
    and y1: "yields L (tokens_list js @ Mark FFTok_right_brace # ts) f1"
    by simp_all
  have "\<exists>f2. slice_loop L elem n True [] f1 = Decoded xs f2 \<and> yields L ts f2"
  proof (cases "js = []")
    case True
    obtain m where "n = Suc m" using assms(2) by (cases n) simp_all
    with True y1 assms(1) show ?thesis by (auto split: prod.splits)
  next
    case False
    then have "2 * length js \<le> n" using length_tokens_list assms(2) by fastforce
    with slice_loop_reads [OF assms(1) False y1, of n True "[]"] show ?thesis by simp
  qed
  then show "\<exists>f2. handle_slice L n elem put tok uj f1 = Decoded (put (Some xs) uj) f2 \<and> yields L ts f2"
    by (auto simp: handle_slice_def tok)
qed

lemma reads_slice_null: "reads L (handle_slice L n elem put) JNull uj (put None uj)"
  by (rule readsI) (auto simp: handle_slice_def split: prod.splits)

lemma reads_strings:
  assumes "length (tokens (strs_json sl)) \<le> n"
  shows "reads L (handle_slice L n (elem_string L) put) (strs_json sl) uj (put sl uj)"
proof (cases sl)
  case None
  then show ?thesis by (simp add: strs_json_def reads_slice_null)
next
  case (Some vs)
  have "list_all2 (elem_reads L (elem_string L)) (map JString vs) vs"
    by (simp add: list_all2_map1 elem_reads_string list.rel_refl)
  with Some assms show ?thesis by (simp add: strs_json_def reads_slice)
qed

text \<open>A map: every pair is stored, the later ones over the earlier.\<close>

definition pairs_json :: "(string \<times> string) list \<Rightarrow> (string \<times> json) list" where
  "pairs_json kvs = map (\<lambda>(k, v). (k, JString v)) kvs"

definition store_pairs :: "(string \<rightharpoonup> string) \<Rightarrow> (string \<times> string) list \<Rightarrow> (string \<rightharpoonup> string)" where
  "store_pairs m kvs = foldl (\<lambda>m (k, v). m(k \<mapsto> v)) m kvs"

lemma map_loop_reads:
  assumes "kvs \<noteq> []" and "2 * length kvs \<le> n"
    and "yields L (tokens_fields (pairs_json kvs) @ Mark FFTok_right_bracket # ts) f0"
  shows "\<exists>f2. map_loop L n wantVal m f0 = Decoded (store_pairs m kvs) f2 \<and> yields L ts f2"
  using assms
proof (induction kvs arbitrary: n wantVal m f0)
  case Nil
  then show ?case by simp
next
  case (Cons kv kvs)
  obtain k v where kv: "kv = (k, v)" by fastforce
  obtain l where n: "n = Suc (Suc l)" "2 * length kvs \<le> l"
    using Cons.prems(2) that [of "n - 2"] by simp
  obtain f1 f2 f3 where s: "lx_Scan L f0 = (FFTok_string, f1)" "lx_Output L f1 = k"
      "lx_Scan L f1 = (FFTok_colon, f2)" "lx_Scan L f2 = (FFTok_string, f3)" "lx_Output L f3 = v"
    and y: "yields L ((if kvs = [] then [] else [Mark FFTok_comma]) @ tokens_fields (pairs_json kvs)
      @ Mark FFTok_right_bracket # ts) f3"
    using Cons.prems(3) by (auto simp: kv pairs_json_def split: prod.splits)
  show ?case
  proof (cases "kvs = []")
    case True
    with y show ?thesis
      by (auto simp: n s kv handle_string_def store_pairs_def pairs_json_def split: prod.splits)
  next
    case False
    then obtain f4 where s4: "lx_Scan L f3 = (FFTok_comma, f4)"
      and y4: "yields L (tokens_fields (pairs_json kvs) @ Mark FFTok_right_bracket # ts) f4"
      using y by (auto split: prod.splits)
    from Cons.IH [OF False n(2) y4, of False "m(k \<mapsto> v)"] show ?thesis
      by (simp add: n s s4 kv handle_string_def store_pairs_def del: fun_upd_apply)
  qed
qed

lemma store_listed:
  "store_pairs acc (map (\<lambda>k. (k, the (m k))) ks) = (\<lambda>k. if k \<in> set ks then Some (the (m k)) else acc k)"
  by (induction ks arbitrary: acc) (auto simp: store_pairs_def fun_eq_iff)

lemma store_all: "set ks = dom m \<Longrightarrow> store_pairs Map.empty (map (\<lambda>k. (k, the (m k))) ks) = m"
  by (auto simp: store_listed fun_eq_iff)

text \<open>The order in which Go visits a map has all of its keys.\<close>

definition visits_all :: "((string \<rightharpoonup> string) \<Rightarrow> string list) \<Rightarrow> (string \<rightharpoonup> string) option \<Rightarrow> bool" where
  "visits_all ord tags = (case tags of None \<Rightarrow> True | Some m \<Rightarrow> set (ord m) = dom m)"

lemma reads_map:
  assumes "visits_all ord tags" and "length (tokens (tags_json ord tags)) \<le> n"
  shows "reads L (handle_map L n put) (tags_json ord tags) uj (put tags uj)"
proof (rule readsI)
  fix fs ts tok f1
  assume s: "lx_Scan L fs = (tok, f1)" and y: "yields L (tokens (tags_json ord tags) @ ts) fs"
  show "\<exists>f2. handle_map L n put tok uj f1 = Decoded (put tags uj) f2 \<and> yields L ts f2"
  proof (cases tags)
    case None
    with s y show ?thesis by (simp add: tags_json_def handle_map_def)
  next
    case (Some m)
    let ?kvs = "map (\<lambda>k. (k, the (m k))) (ord m)"
    have json: "tags_json ord tags = JObject True (pairs_json ?kvs)"
      by (simp add: Some tags_json_def pairs_json_def comp_def)
    have tok: "tok = FFTok_left_bracket"
      and y1: "yields L (tokens_fields (pairs_json ?kvs) @ Mark FFTok_right_bracket # ts) f1"
      using s y by (simp_all add: json)
    have "\<exists>f2. map_loop L n True Map.empty f1 = Decoded (store_pairs Map.empty ?kvs) f2 \<and> yields L ts f2"
    proof (cases "?kvs = []")
      case True
      obtain l where "n = Suc l" using assms(2) by (cases n) (simp_all add: json)
      with True y1 show ?thesis by (auto simp: pairs_json_def store_pairs_def split: prod.splits)
    next
      case False
      then have "pairs_json ?kvs \<noteq> []" by (simp add: pairs_json_def)
      from length_tokens_fields [OF this] assms(2) have "2 * length ?kvs \<le> n"
        by (simp add: json pairs_json_def)
      with False y1 show ?thesis by (intro map_loop_reads)
    qed
    moreover have "store_pairs Map.empty ?kvs = m"
      using assms(1) Some by (intro store_all) (simp add: visits_all_def)
    ultimately show ?thesis by (auto simp: handle_map_def tok Some)
  qed
qed

lemma last_map:
  "visits_all ord tags \<Longrightarrow> length (tokens (tags_json ord tags)) \<le> n \<Longrightarrow> put tags uj = u \<Longrightarrow>
   reads L (handle_map L n put) (tags_json ord tags) uj u"
  using reads_map [of ord tags n L put uj] by simp

section \<open>Fields that may be left out\<close>

text \<open>The code of a field as a function of three arguments, and the choice of the field.\<close>

named_theorems decoder_simps \<open>keys and code of the fields\<close>

declare switch_key_def [decoder_simps]

text \<open>Rules that take the state of the object through the next field.\<close>

lemma next_string:
  "P (put s uj) \<Longrightarrow> \<exists>u. reads L (handle_string L put) (JString s) uj u \<and> P u"
  and last_string: "put s uj = u \<Longrightarrow> reads L (handle_string L put) (JString s) uj u"
  using reads_string [of L put s uj] by blast+

lemma next_int:
  "P (put x uj) \<Longrightarrow> \<exists>u. reads L (handle_int L kind put) (JNumber (sint x)) uj u \<and> P u"
  using reads_int [of "sint x" x L kind put uj] by auto

lemma next_strings:
  "length (tokens (strs_json sl)) \<le> n \<Longrightarrow> P (put sl uj) \<Longrightarrow>
   \<exists>u. reads L (handle_slice L n (elem_string L) put) (strs_json sl) uj u \<and> P u"
  using reads_strings [of sl n L put uj] by blast

lemmas next_field = next_string last_string next_int next_strings

lemma fields_read_str:
  assumes "key_of k \<noteq> no_such_key" and "key_of k \<noteq> base"
    and "handle (key_of k) = handle_string L put" and "put [] uj = uj"
  shows "fields_read L key_of handle base no_such_key (str_field k v) uj (put v uj)"
  using assms reads_string [of L put v uj] by (auto simp: str_field_def)

lemma fields_read_strs:
  assumes "key_of k \<noteq> no_such_key" and "key_of k \<noteq> base"
    and "handle (key_of k) = handle_slice L n (elem_string L) put" and "put None uj = uj"
    and "sl \<noteq> Some []" and "fits n (strs_field k sl)"
  shows "fields_read L key_of handle base no_such_key (strs_field k sl) uj (put sl uj)"
proof (cases "slice_len sl = 0")
  case True
  with assms(5) have "sl = None" by (auto simp: slice_len_def split: option.splits)
  with assms(4) show ?thesis by (simp add: strs_field_def slice_len_def)
next
  case False
  with assms have "length (tokens (strs_json sl)) \<le> n" by (simp add: strs_field_def)
  from reads_strings [OF this] assms False show ?thesis by (auto simp: strs_field_def)
qed

section \<open>The contract\<close>

lemma omitted_str:
  assumes "handle (key_of k) = handle_string L put" and "key_of k \<noteq> no_such_key \<and> key_of k \<noteq> base"
    and "put [] uj = uj" and "fields_read L key_of handle base no_such_key gs (put v uj) uj'"
  shows "fields_read L key_of handle base no_such_key (str_field k v @ gs) uj uj'"
  using assms by (blast intro: fields_read_append fields_read_str)

lemma omitted_strs:
  assumes "handle (key_of k) = handle_slice L n (elem_string L) put"
    and "key_of k \<noteq> no_such_key \<and> key_of k \<noteq> base"
    and "put None uj = uj" and "sl \<noteq> Some []" and "fits n (strs_field k sl)"
    and "fields_read L key_of handle base no_such_key gs (put sl uj) uj'"
  shows "fields_read L key_of handle base no_such_key (strs_field k sl @ gs) uj uj'"
  using assms by (blast intro: fields_read_append fields_read_strs)

lemmas last_omitted_str = omitted_str [where gs = "[]", unfolded append_Nil2]
  and last_omitted_strs = omitted_strs [where gs = "[]", unfolded append_Nil2]

locale json_decoder =
  fixes dec :: "'f fflexer \<Rightarrow> nat \<Rightarrow> FFParseState \<Rightarrow> 'a \<Rightarrow> 'f \<Rightarrow> ('a, 'f) decoded"
    and zero :: 'a
    and ok :: "'a \<Rightarrow> bool"
    and val :: "'a \<Rightarrow> json"
  assumes dec_val: "ok x \<Longrightarrow> length (tokens (val x)) \<le> n \<Longrightarrow> decodes L (dec L n) zero (val x) x"
begin

lemma decode_document:
  assumes "lexes L text (val x)" and "ok x" and "length (tokens (val x)) \<le> n"
  shows "\<exists>fs. dec L n FFParse_map_start zero (lx_NewFFLexer L text) = Decoded x fs"
  using dec_val [OF assms(2,3), of L] assms(1) unfolding decodes_def lexes_def by (metis append_Nil2)

lemma reads_ptrs:
  assumes "no_nil ok sl" and "length (tokens (ptrs_json val sl)) \<le> n"
  shows "reads L (handle_slice L n (elem_ptr (dec L n) zero) put) (ptrs_json val sl) uj (put sl uj)"
proof (cases sl)
  case None
  then show ?thesis by (simp add: ptrs_json_def reads_slice_null)
next
  case (Some vs)
  let ?js = "map (\<lambda>v. val (the v)) vs"
  have le: "length (tokens j) \<le> n" if "j \<in> set ?js" for j
    using tokens_list_le [OF that] assms(2) Some by (simp add: ptrs_json_def)
  have "elem_reads L (elem_ptr (dec L n) zero) (val (the v)) v" if v: "v \<in> set vs" for v
  proof -
    obtain x where x: "v = Some x" "ok x"
      using assms(1) Some v by (auto simp: no_nil_def list_all_iff)
    have "length (tokens (val x)) \<le> n" using le [of "val x"] x(1) v by force
    from elem_reads_ptr [OF dec_val [OF x(2) this]] x(1) show ?thesis by simp
  qed
  then have "list_all2 (elem_reads L (elem_ptr (dec L n) zero)) ?js vs"
    by (simp add: list_all2_map1 list.rel_refl_strong)
  with Some assms(2) show ?thesis by (simp add: ptrs_json_def reads_slice)
qed

lemma fields_read_ptrs:
  assumes "key_of k \<noteq> no_such_key" and "key_of k \<noteq> base"
    and "handle (key_of k) = handle_slice L n (elem_ptr (dec L n) zero) put" and "put None uj = uj"
    and "sl \<noteq> Some []" and "no_nil ok sl" and "fits n (ptrs_field k val sl)"
  shows "fields_read L key_of handle base no_such_key (ptrs_field k val sl) uj (put sl uj)"
proof (cases "slice_len sl = 0")
  case True
  with assms(5) have "sl = None" by (auto simp: slice_len_def split: option.splits)
  with assms(4) show ?thesis by (simp add: ptrs_field_def slice_len_def)
next
  case False
  with assms have "length (tokens (ptrs_json val sl)) \<le> n" by (simp add: ptrs_field_def)
  from reads_ptrs [OF assms(6) this] assms False show ?thesis by (auto simp: ptrs_field_def)
qed

lemma fields_read_ptr:
  assumes "key_of k \<noteq> no_such_key" and "key_of k \<noteq> base"
    and "handle (key_of k) = handle_ptr (dec L n) zero get put" and "get uj = None" and "put None uj = uj"
    and "\<And>x. v = Some x \<Longrightarrow> ok x" and "fits n (ptr_field k val v)"
  shows "fields_read L key_of handle base no_such_key (ptr_field k val v) uj (put v uj)"
proof (cases v)
  case None
  with assms(5) show ?thesis by (simp add: ptr_field_def)
next
  case (Some x)
  with assms have "decodes L (dec L n) zero (val x) x" by (intro dec_val) (simp_all add: ptr_field_def)
  then have "reads L (handle_ptr (dec L n) zero get put) (val x) uj (put (Some x) uj)"
    using assms(4) by (rule reads_ptr)
  with assms(1-3) Some show ?thesis by (auto simp: ptr_field_def)
qed

lemma next_ptrs:
  "no_nil ok sl \<Longrightarrow> length (tokens (ptrs_json val sl)) \<le> n \<Longrightarrow> P (put sl uj) \<Longrightarrow>
   \<exists>u. reads L (handle_slice L n (elem_ptr (dec L n) zero) put) (ptrs_json val sl) uj u \<and> P u"
  and last_ptrs: "no_nil ok sl \<Longrightarrow> length (tokens (ptrs_json val sl)) \<le> n \<Longrightarrow> put sl uj = u \<Longrightarrow>
   reads L (handle_slice L n (elem_ptr (dec L n) zero) put) (ptrs_json val sl) uj u"
  using reads_ptrs [of sl n L put uj] by blast+

lemma omitted_ptrs:
  assumes "handle (key_of k) = handle_slice L n (elem_ptr (dec L n) zero) put"
    and "key_of k \<noteq> no_such_key \<and> key_of k \<noteq> base"
    and "put None uj = uj" and "sl \<noteq> Some []" and "no_nil ok sl" and "fits n (ptrs_field k val sl)"
    and "fields_read L key_of handle base no_such_key gs (put sl uj) uj'"
  shows "fields_read L key_of handle base no_such_key (ptrs_field k val sl @ gs) uj uj'"
  using assms by (blast intro: fields_read_append fields_read_ptrs)

lemma omitted_ptr:
  assumes "handle (key_of k) = handle_ptr (dec L n) zero get put"
    and "key_of k \<noteq> no_such_key \<and> key_of k \<noteq> base"
    and "get uj = None" and "put None uj = uj" and "\<And>x. v = Some x \<Longrightarrow> ok x" and "fits n (ptr_field k val v)"
    and "fields_read L key_of handle base no_such_key gs (put v uj) uj'"
  shows "fields_read L key_of handle base no_such_key (ptr_field k val v @ gs) uj uj'"
proof (rule fields_read_append)
  show "fields_read L key_of handle base no_such_key (ptr_field k val v) uj (put v uj)"
    by (rule fields_read_ptr [where get = get]) (use assms in auto)
qed (rule assms(7))

lemmas last_omitted_ptrs = omitted_ptrs [where gs = "[]", unfolded append_Nil2]
  and last_omitted_ptr = omitted_ptr [where gs = "[]", unfolded append_Nil2]

end

section \<open>The contract holds of every decoder\<close>

lemmas [decoder_simps] =
  EnvoyRouteDecorator_key_def EnvoyRouteDecorator_handle_def [abs_def]
  EnvoyTracingConfig_key_def EnvoyTracingConfig_handle_def [abs_def]
  EnvoyService_key_def EnvoyService_handle_def [abs_def]
  EnvoyCluster_key_def EnvoyCluster_handle_def [abs_def]
  EnvoyTCPRoute_key_def EnvoyTCPRoute_handle_def [abs_def]
  EnvoyRoute_key_def EnvoyRoute_handle_def [abs_def]
  EnvoyHTTPVirtualHost_key_def EnvoyHTTPVirtualHost_handle_def [abs_def]
  EnvoyRouteConfig_key_def EnvoyRouteConfig_handle_def [abs_def]
  EnvoyFilter_key_def EnvoyFilter_handle_def [abs_def]
  EnvoyFilterConfig_key_def EnvoyFilterConfig_handle_def [abs_def]
  EnvoyListener_key_def EnvoyListener_handle_def [abs_def]
  CDSResult_key_def CDSResult_handle_def [abs_def]
  LDSResult_key_def LDSResult_handle_def [abs_def]
  SDSResult_key_def SDSResult_handle_def [abs_def]

interpretation cluster_dec: json_decoder EnvoyCluster_UnmarshalJSONFFLexer EnvoyCluster_zero "\<lambda>_. True" cluster_json
proof (unfold_locales, goal_cases)
  case (1 x n L)
  show ?case
    by (rule decodesI, rule EnvoyCluster_UnmarshalJSONFFLexer_def, rule cluster_json_def, rule 1)
      (simp add: decoder_simps, intro next_field, simp add: EnvoyCluster_zero_def)
qed

interpretation tracing_dec: json_decoder EnvoyTracingConfig_UnmarshalJSONFFLexer EnvoyTracingConfig_zero "\<lambda>_. True" tracing_json
proof (unfold_locales, goal_cases)
  case (1 x n L)
  show ?case
    by (rule decodesI, rule EnvoyTracingConfig_UnmarshalJSONFFLexer_def, rule tracing_json_def, rule 1)
      (simp add: decoder_simps, intro next_field, simp add: EnvoyTracingConfig_zero_def)
qed

interpretation decorator_dec: json_decoder EnvoyRouteDecorator_UnmarshalJSONFFLexer EnvoyRouteDecorator_zero "\<lambda>_. True" decorator_json
proof (unfold_locales, goal_cases)
  case (1 x n L)
  show ?case
    by (rule decodesI, rule EnvoyRouteDecorator_UnmarshalJSONFFLexer_def, rule decorator_json_def, rule 1)
      (rule last_omitted_str, simp add: decoder_simps, simp_all add: decoder_simps EnvoyRouteDecorator_zero_def)
qed

interpretation route_dec: json_decoder EnvoyRoute_UnmarshalJSONFFLexer EnvoyRoute_zero "\<lambda>_. True" route_json
proof (unfold_locales, goal_cases)
  case (1 x n L)
  show ?case
    by (rule decodesI, rule EnvoyRoute_UnmarshalJSONFFLexer_def, rule route_json_def, rule 1)
      (simp add: decoder_simps, intro next_field, rule decorator_dec.last_omitted_ptr, simp add: decoder_simps,
       simp_all add: decoder_simps EnvoyRoute_zero_def)
qed

text \<open>An empty slice whose field is left out comes back as a nil one.\<close>

definition tcp_route_kept :: "EnvoyTCPRoute \<Rightarrow> bool" where
  "tcp_route_kept r \<longleftrightarrow> tcp_DestinationIPList r \<noteq> Some [] \<and> tcp_SourceIPList r \<noteq> Some []
     \<and> tcp_SourcePorts r \<noteq> Some []"

interpretation tcp_route_dec: json_decoder EnvoyTCPRoute_UnmarshalJSONFFLexer EnvoyTCPRoute_zero tcp_route_kept tcp_route_json
proof (unfold_locales, goal_cases)
  case (1 x n L)
  then have kept: "tcp_DestinationIPList x \<noteq> Some []" "tcp_SourceIPList x \<noteq> Some []" "tcp_SourcePorts x \<noteq> Some []"
    by (simp_all add: tcp_route_kept_def)
  note simps = decoder_simps EnvoyTCPRoute_zero_def kept
  show ?case
    by (rule decodesI, rule EnvoyTCPRoute_UnmarshalJSONFFLexer_def, rule tcp_route_json_def, rule 1)
      (simp add: simps, intro next_field,
       rule omitted_strs, simp add: simps, simp_all add: simps,
       rule omitted_str, simp add: simps, simp_all add: simps,
       rule omitted_strs, simp add: simps, simp_all add: simps,
       rule last_omitted_strs, simp add: simps, simp_all add: simps)
qed

interpretation vhost_dec: json_decoder EnvoyHTTPVirtualHost_UnmarshalJSONFFLexer EnvoyHTTPVirtualHost_zero
  vhost_ok vhost_json
proof (unfold_locales, goal_cases)
  case (1 x n L)
  then have "no_nil (\<lambda>_. True) (vh_Routes x)" by (simp add: vhost_ok_def)
  then show ?case
    by - (rule decodesI, rule EnvoyHTTPVirtualHost_UnmarshalJSONFFLexer_def, rule vhost_json_def, rule 1,
       simp add: decoder_simps, intro next_field route_dec.last_ptrs, simp_all add: EnvoyHTTPVirtualHost_zero_def)
qed

definition route_config_kept :: "EnvoyRouteConfig \<Rightarrow> bool" where
  "route_config_kept c \<longleftrightarrow> no_nil vhost_ok (rc_VirtualHosts c) \<and> no_nil tcp_route_kept (rc_Routes c)
     \<and> rc_VirtualHosts c \<noteq> Some [] \<and> rc_Routes c \<noteq> Some []"

interpretation route_config_dec: json_decoder EnvoyRouteConfig_UnmarshalJSONFFLexer EnvoyRouteConfig_zero
  route_config_kept route_config_json
proof (unfold_locales, goal_cases)
  case (1 x n L)
  then have kept: "no_nil vhost_ok (rc_VirtualHosts x)" "no_nil tcp_route_kept (rc_Routes x)"
      "rc_VirtualHosts x \<noteq> Some []" "rc_Routes x \<noteq> Some []"
    by (simp_all add: route_config_kept_def)
  note simps = decoder_simps EnvoyRouteConfig_zero_def kept
  show ?case
    by (rule decodesI, rule EnvoyRouteConfig_UnmarshalJSONFFLexer_def, rule route_config_json_def, rule 1)
      (rule vhost_dec.omitted_ptrs, simp add: simps, simp_all add: simps,
       rule tcp_route_dec.last_omitted_ptrs, simp add: simps, simp_all add: simps)
qed

text \<open>Filters hold configurations, which may hold filters again.\<close>

fun filter_kept :: "EnvoyFilter \<Rightarrow> bool"
  and config_kept :: "EnvoyFilterConfig \<Rightarrow> bool"
  and filters_kept :: "EnvoyFilter option list \<Rightarrow> bool" where
  "filter_kept (EnvoyFilter name config) = (case config of None \<Rightarrow> True | Some c \<Rightarrow> config_kept c)"
| "config_kept (EnvoyFilterConfig codec prefix route filters tracing) =
     ((case route of None \<Rightarrow> True | Some r \<Rightarrow> route_config_kept r)
      \<and> (case filters of None \<Rightarrow> True | Some vs \<Rightarrow> vs \<noteq> [] \<and> filters_kept vs))"
| "filters_kept [] = True"
| "filters_kept (v # vs) = ((case v of None \<Rightarrow> False | Some f \<Rightarrow> filter_kept f) \<and> filters_kept vs)"

lemma filter_decodes:
  fixes L :: "'f fflexer"
  shows "filter_kept f \<Longrightarrow> length (tokens (filter_json f)) \<le> d \<Longrightarrow> d \<le> n \<Longrightarrow>
    decodes L (EnvoyFilter_UnmarshalJSONFFLexer L n d) EnvoyFilter_zero (filter_json f) f"
  and "config_kept c \<Longrightarrow> length (tokens (config_json c)) \<le> d \<Longrightarrow> d \<le> n \<Longrightarrow>
    decodes L (EnvoyFilterConfig_UnmarshalJSONFFLexer L n d) EnvoyFilterConfig_zero (config_json c) c"
  and "filters_kept vs \<Longrightarrow> length (tokens_list (filters_json vs)) \<le> d \<Longrightarrow> d \<le> n \<Longrightarrow>
    list_all2 (elem_reads L (elem_ptr (EnvoyFilter_UnmarshalJSONFFLexer L n d) EnvoyFilter_zero))
      (filters_json vs) vs"
proof (induction f and c and vs arbitrary: d and d and d rule: filter_json_config_json_filters_json.induct)
  case (1 name config)
  then obtain e where d: "d = Suc e" by (cases d) simp_all
  have config: "\<exists>u. reads L (handle_ptr (EnvoyFilterConfig_UnmarshalJSONFFLexer L n e) EnvoyFilterConfig_zero
      flt_Config (\<lambda>v uj. EnvoyFilter (flt_Name uj) v))
      (case config of None \<Rightarrow> JNull | Some c \<Rightarrow> config_json c) (EnvoyFilter name None) u
      \<and> u = EnvoyFilter name config"
  proof (cases config)
    case None
    then show ?thesis
      using reads_ptr_null [of L _ _ _ "\<lambda>v uj. EnvoyFilter (flt_Name uj) v" "EnvoyFilter name None"] by auto
  next
    case (Some c)
    with 1 d have "decodes L (EnvoyFilterConfig_UnmarshalJSONFFLexer L n e) EnvoyFilterConfig_zero (config_json c) c"
      by auto
    from reads_ptr [OF this, of flt_Config "EnvoyFilter name None" "\<lambda>v uj. EnvoyFilter (flt_Name uj) v"] Some
    show ?thesis by auto
  qed
  show ?case
    unfolding d
    by (rule decodesI, rule EnvoyFilter_UnmarshalJSONFFLexer.simps(2), rule filter_json.simps)
      (use 1 in simp, simp add: decoder_simps EnvoyFilter_zero_def, intro next_field, use config in simp)
next
  case (2 codec prefix route filters tracing)
  then obtain e where d: "d = Suc e" by (cases d) simp_all
  let ?put = "\<lambda>v uj. EnvoyFilterConfig (cfg_CodecType uj) (cfg_StatPrefix uj) (cfg_RouteConfig uj) v (cfg_Tracing uj)"
  let ?filters = "case filters of None \<Rightarrow> []
    | Some vs \<Rightarrow> if vs = [] then [] else [(''filters'', JArray (filters_json vs))]"
  have filters: "fields_read L (EnvoyFilterConfig_key L)
      (EnvoyFilterConfig_handle L n (EnvoyFilter_UnmarshalJSONFFLexer L n e))
      ffj_t_EnvoyFilterConfigbase ffj_t_EnvoyFilterConfigno_such_key ?filters u (EnvoyFilterConfig codec prefix route filters None)"
    if "fits n ?filters" "length (tokens_fields ?filters) \<le> e" "u = EnvoyFilterConfig codec prefix route None None"
    for u
  proof (cases filters)
    case None
    with that show ?thesis by simp
  next
    case (Some vs)
    with 2 that d have "list_all2 (elem_reads L (elem_ptr (EnvoyFilter_UnmarshalJSONFFLexer L n e) EnvoyFilter_zero))
        (filters_json vs) vs" and vs: "vs \<noteq> []"
      by auto
    then have "reads L (handle_slice L n (elem_ptr (EnvoyFilter_UnmarshalJSONFFLexer L n e) EnvoyFilter_zero) ?put)
        (JArray (filters_json vs)) (EnvoyFilterConfig codec prefix route None None)
        (?put (Some vs) (EnvoyFilterConfig codec prefix route None None))"
      using that(1) Some by (intro reads_slice) simp_all
    with Some vs that(3) show ?thesis by (simp add: decoder_simps)
  qed
  have tokens: "length (tokens_fields ?filters) \<le> e"
    using 2(3) [unfolded d config_json.simps tokens.simps] 2(4) tokens_fields_inner [of ?filters]
    by (simp del: tokens_fields.simps) (meson le_trans Suc_leD)
  note simps = decoder_simps EnvoyFilterConfig_zero_def
  show ?case
    unfolding d
    by (rule decodesI, rule EnvoyFilterConfig_UnmarshalJSONFFLexer.simps(2), rule config_json.simps)
      (use 2 in simp,
       rule omitted_str, simp add: simps, simp add: simps, simp add: simps,
       rule omitted_str, simp add: simps, simp add: simps, simp add: simps,
       rule route_config_dec.omitted_ptr, simp add: simps, simp add: simps, simp add: simps, simp add: simps,
       use 2 in simp, simp,
       rule fields_read_append, rule filters, simp, rule tokens, simp add: simps,
       rule tracing_dec.last_omitted_ptr, simp add: simps, simp_all add: simps)
next
  case 3
  then show ?case by simp
next
  case (4 v vs)
  then obtain f where f: "v = Some f" "filter_kept f" "filters_kept vs" by (cases v) auto
  with 4 have "decodes L (EnvoyFilter_UnmarshalJSONFFLexer L n d) EnvoyFilter_zero (filter_json f) f"
    by simp
  from elem_reads_ptr [OF this] f 4 show ?case by simp
qed

lemma filters_all: "filters_kept vs \<longleftrightarrow> list_all (\<lambda>v. v \<noteq> None \<and> filter_kept (the v)) vs"
  by (induction vs) (auto split: option.splits)

interpretation filter_dec: json_decoder "\<lambda>L n. EnvoyFilter_UnmarshalJSONFFLexer L n n" EnvoyFilter_zero
  filter_kept filter_json
  by unfold_locales (rule filter_decodes(1), simp_all)

definition listener_kept :: "EnvoyListener \<Rightarrow> bool" where
  "listener_kept l = no_nil filter_kept (ls_Filters l)"

interpretation listener_dec: json_decoder EnvoyListener_UnmarshalJSONFFLexer EnvoyListener_zero
  listener_kept listener_json
proof (unfold_locales, goal_cases)
  case (1 x n L)
  then have "no_nil filter_kept (ls_Filters x)" by (simp add: listener_kept_def)
  then show ?case
    by - (rule decodesI, rule EnvoyListener_UnmarshalJSONFFLexer_def, rule listener_json_def, rule 1,
       simp add: decoder_simps, intro next_field filter_dec.last_ptrs, simp_all add: EnvoyListener_zero_def)
qed

interpretation service_dec: json_decoder EnvoyService_UnmarshalJSONFFLexer EnvoyService_zero
  "\<lambda>v. visits_all ord (svc_Tags v)" "service_json ord" for ord
proof (unfold_locales, goal_cases)
  case (1 x n L)
  show ?case
    by (rule decodesI, rule EnvoyService_UnmarshalJSONFFLexer_def, rule service_json_def, rule 1)
      (simp add: decoder_simps, intro next_field last_map, rule 1, simp_all add: EnvoyService_zero_def)
qed

section \<open>The documents of the discovery services\<close>

interpretation cds_dec: json_decoder CDSResult_UnmarshalJSONFFLexer CDSResult_zero
  "\<lambda>r. no_nil (\<lambda>_. True) (cds_Clusters r)" cds_json
proof (unfold_locales, goal_cases)
  case (1 x n L)
  show ?case
    by (rule decodesI, rule CDSResult_UnmarshalJSONFFLexer_def, rule cds_json_def, rule 1)
      (simp add: decoder_simps, intro next_field cluster_dec.last_ptrs, rule 1, simp_all add: CDSResult_zero_def)
qed

interpretation lds_dec: json_decoder LDSResult_UnmarshalJSONFFLexer LDSResult_zero
  "\<lambda>r. no_nil listener_kept (lds_Listeners r)" lds_json
proof (unfold_locales, goal_cases)
  case (1 x n L)
  show ?case
    by (rule decodesI, rule LDSResult_UnmarshalJSONFFLexer_def, rule lds_json_def, rule 1)
      (simp add: decoder_simps, intro next_field listener_dec.last_ptrs, rule 1, simp_all add: LDSResult_zero_def)
qed

interpretation sds_dec: json_decoder SDSResult_UnmarshalJSONFFLexer SDSResult_zero
  "\<lambda>r. no_nil (\<lambda>v. visits_all ord (svc_Tags v)) (sds_Hosts r)" "sds_json ord" for ord
proof (unfold_locales, goal_cases)
  case (1 x n L)
  show ?case
    by (rule decodesI, rule SDSResult_UnmarshalJSONFFLexer_def, rule sds_json_def, rule 1)
      (simp add: decoder_simps, intro next_field service_dec.next_ptrs, rule 1,
       simp_all add: SDSResult_zero_def last_string)
qed

text \<open>Objects that come back as they were are objects that the encoders write.\<close>

lemma no_nil_mono: "no_nil P sl \<Longrightarrow> (\<And>x. P x \<Longrightarrow> Q x) \<Longrightarrow> no_nil Q sl"
  by (auto simp: no_nil_def list_all_iff split: option.splits)

lemma route_config_kept_ok: "route_config_kept c \<Longrightarrow> route_config_ok c"
  by (auto simp: route_config_kept_def route_config_ok_def intro: no_nil_mono)

lemma filter_kept_ok:
  "filter_kept f \<Longrightarrow> filter_ok f" "config_kept c \<Longrightarrow> config_ok c" "filters_kept vs \<Longrightarrow> filters_ok vs"
  by (induction f and c and vs rule: filter_kept_config_kept_filters_kept.induct)
    (auto simp: route_config_kept_ok split: option.splits)

lemma listener_kept_ok: "listener_kept l \<Longrightarrow> listener_ok l"
  unfolding listener_kept_def listener_ok_def by (erule no_nil_mono) (rule filter_kept_ok)

text \<open>A null element ends the loop at once, in front of the rest of the array.\<close>

lemma slice_loop_null:
  assumes "list_all2 (elem_reads L elem) js xs" and "\<And>f. elem FFTok_null f = Decoded None f"
    and "yields L (tokens_list (js @ [JNull]) @ ts) f0" and "2 * length js < n"
  shows "\<exists>f2. slice_loop L elem n wantVal vs f0 = Decoded (vs @ xs) f2 \<and> yields L ts f2"
  using assms(1,3,4)
proof (induction js arbitrary: xs wantVal vs f0 n)
  case Nil
  then obtain m where "n = Suc m" by (cases n) simp_all
  with Nil assms(2) show ?case by (auto split: prod.splits)
next
  case (Cons j js)
  obtain m where n: "n = Suc (Suc m)" "2 * length js < m"
    using Cons.prems(3) that [of "n - 2"] by simp
  obtain x xs' where xs: "xs = x # xs'" "elem_reads L elem j x" "list_all2 (elem_reads L elem) js xs'"
    using Cons.prems(1) by (auto simp: list_all2_Cons1)
  obtain tok f1 where s1: "lx_Scan L f0 = (tok, f1)" by fastforce
  have y0: "yields L (tokens j @ Mark FFTok_comma # tokens_list (js @ [JNull]) @ ts) f0"
    using Cons.prems(2) by simp
  note tok = value_not_end [OF scan_value [OF s1 y0]]
  obtain f2 f3 where e: "elem tok f1 = Decoded (Some x) f2" and s3: "lx_Scan L f2 = (FFTok_comma, f3)"
    and y3: "yields L (tokens_list (js @ [JNull]) @ ts) f3"
    using xs(2) s1 y0 unfolding elem_reads_def by (fastforce split: prod.splits)
  from Cons.IH [OF xs(3) y3 n(2), of False "vs @ [x]"] show ?case
    by (simp add: n s1 s3 tok e xs(1))
qed

lemma tokens_list_snoc_null: "length (tokens_list vs) < length (tokens_list (vs @ [JNull]))"
  by (induction vs) auto

section \<open>Properties\<close>

text \<open>
  C9: The generated decoders undo the generated encoders. For each of the three discovery results: what
  the encoder writes, the decoder reads back as the same object, if no slice has a nil element, no
  slice whose field is left out when empty is an empty one that is not nil, the lexer cuts the text
  into the tokens of its value, and there is as much fuel as tokens.
\<close>

theorem documents_round_trip:
  assumes "fflib_ok F"
  shows "(no_nil (\<lambda>_. True) (cds_Clusters c) \<longrightarrow> lexes L (render (jstr F) (cds_json c)) (cds_json c) \<longrightarrow>
      length (tokens (cds_json c)) \<le> n \<longrightarrow>
      (\<exists>text fs. CDSResult_MarshalJSON F (Some c) = Inr text
         \<and> CDSResult_UnmarshalJSON L n text CDSResult_zero = Decoded c fs))
    \<and> (no_nil (\<lambda>v. visits_all ord (svc_Tags v)) (sds_Hosts s) \<longrightarrow>
      lexes L (render (jstr F) (sds_json ord s)) (sds_json ord s) \<longrightarrow> length (tokens (sds_json ord s)) \<le> n \<longrightarrow>
      (\<exists>text fs. SDSResult_MarshalJSON ord F (Some s) = Inr text
         \<and> SDSResult_UnmarshalJSON L n text SDSResult_zero = Decoded s fs))
    \<and> (no_nil listener_kept (lds_Listeners l) \<longrightarrow> lexes L (render (jstr F) (lds_json l)) (lds_json l) \<longrightarrow>
      length (tokens (lds_json l)) \<le> n \<longrightarrow>
      (\<exists>text fs. LDSResult_MarshalJSON F (Some l) = Inr text
         \<and> LDSResult_UnmarshalJSON L n text LDSResult_zero = Decoded l fs))"
proof -
  note defs = CDSResult_MarshalJSON_def CDSResult_UnmarshalJSON_def SDSResult_MarshalJSON_def
    SDSResult_UnmarshalJSON_def LDSResult_MarshalJSON_def LDSResult_UnmarshalJSON_def
  have "no_nil (\<lambda>v. visits_all ord (svc_Tags v)) (sds_Hosts s) \<Longrightarrow> no_nil (\<lambda>_. True) (sds_Hosts s)"
    by (erule no_nil_mono) simp
  moreover have "no_nil listener_kept (lds_Listeners l) \<Longrightarrow> lds_ok l"
    unfolding lds_ok_def by (erule no_nil_mono) (rule listener_kept_ok)
  ultimately show ?thesis
    unfolding defs
    using cds.MarshalJSON_text [OF assms, of c] sds.MarshalJSON_text [OF assms, of s ord]
      lds.MarshalJSON_text [OF assms, of l] cds_dec.decode_document [of L _ c n]
      sds_dec.decode_document [of L _ ord s n] lds_dec.decode_document [of L _ l n]
    by simp
qed

text \<open>A lexer for one document: the tokens of a value, whatever the input.\<close>

fun lexed :: "jtoken \<Rightarrow> FFTok \<times> string" where
  "lexed (Mark k) = (k, [])"
| "lexed (Text s) = (FFTok_string, s)"
| "lexed (Num i) = (FFTok_integer, fmt_d (sint i))"

definition document_lexer :: "json \<Rightarrow> (string \<times> (FFTok \<times> string) list) fflexer" where
  "document_lexer j = list_lexer (\<lambda>_. map lexed (tokens j))"

text \<open>It gives the tokens back where its reader of integers reads the numbers.\<close>

lemma list_lexer_yields:
  assumes "\<And>i. Num i \<in> set ts \<Longrightarrow> of_nat (digits_val 10 0 (fmt_d (sint i))) = i"
  shows "yields (list_lexer tokenize) ts (out, map lexed ts)"
  using assms by (induction ts arbitrary: out) (force simp: list_lexer_def gives_def split: jtoken.split)+

definition sample_clusters :: CDSResult where
  "sample_clusters = \<lparr>cds_Clusters = Some [Some sample_cluster, Some sample_cluster]\<rparr>"

lemma documents_round_trip_witness:
  "\<exists>text fs. CDSResult_MarshalJSON list_fflib (Some sample_clusters) = Inr text
     \<and> CDSResult_UnmarshalJSON (document_lexer (cds_json sample_clusters)) 49 text CDSResult_zero
       = Decoded sample_clusters fs"
proof -
  note json = sample_clusters_def sample_cluster_def cds_json_def ptrs_json_def cluster_json_def
  have "of_nat (digits_val 10 0 (fmt_d 500)) = (500 :: int64)" by code_simp
  then have "lexes (document_lexer (cds_json sample_clusters)) s (cds_json sample_clusters)" for s
    unfolding lexes_def document_lexer_def
    using list_lexer_yields [of "tokens (cds_json sample_clusters)"]
    by (simp add: json list_lexer_def)
  moreover have "length (tokens (cds_json sample_clusters)) \<le> 49" "no_nil (\<lambda>_. True) (cds_Clusters sample_clusters)"
    by (simp_all add: json no_nil_def)
  ultimately show ?thesis
    using documents_round_trip [OF list_fflib_ok, of sample_clusters "document_lexer (cds_json sample_clusters)" 49]
    by blast
qed

text \<open>
  C36: A null in an array of objects makes the decoder refuse the document: the code of the element jumps
  back to the loop of the enclosing object, which wants a comma or a closing brace and finds the
  closing bracket. So a list of clusters that ends with null is no document of the cluster service
  for the decoder, although the nil pointers it would give are values of the Go type.
\<close>

theorem null_element_refused:
  assumes "lexes L input (JObject spaced [(''clusters'', JArray (map cluster_json cs @ [JNull]))])"
    and "length (tokens (JObject spaced [(''clusters'', JArray (map cluster_json cs @ [JNull]))])) \<le> n"
  shows "\<exists>fs. CDSResult_UnmarshalJSON L n input uj = wrongtokenerror L FFTok_comma FFTok_right_brace fs"
proof -
  let ?elem = "elem_ptr (EnvoyCluster_UnmarshalJSONFFLexer L n) EnvoyCluster_zero"
  let ?array = "map cluster_json cs @ [JNull]"
  obtain m where n: "n = Suc (Suc (Suc (Suc (Suc m))))"
    using assms(2) that [of "n - 5"] by simp
  obtain f1 f2 f3 f4 where s: "lx_Scan L (lx_NewFFLexer L input) = (FFTok_left_bracket, f1)"
      "lx_Scan L f1 = (FFTok_string, f2)" "lx_Output L f2 = ''clusters''"
      "lx_Scan L f2 = (FFTok_colon, f3)" "lx_Scan L f3 = (FFTok_left_brace, f4)"
    and y: "yields L (tokens_list ?array @ [Mark FFTok_right_brace, Mark FFTok_right_bracket]) f4"
    using assms(1) by (auto simp: lexes_def split: prod.splits)
  have fits: "elem_reads L ?elem (cluster_json c) (Some c)" if "c \<in> set cs" for c
  proof (rule elem_reads_ptr, rule cluster_dec.dec_val)
    show "length (tokens (cluster_json c)) \<le> n"
      using tokens_list_le [of "cluster_json c" ?array] that assms(2) by force
  qed simp
  have elems: "list_all2 (elem_reads L ?elem) (map cluster_json cs) (map Some cs)"
    by (simp add: list_all2_map1 list_all2_map2 list.rel_refl_strong fits)
  have "2 * length cs < n"
    using length_tokens_list [of ?array] assms(2) by simp
  with slice_loop_null [OF elems _ y, of n True "[]"]
  obtain f5 where "slice_loop L ?elem n True [] f4 = Decoded (map Some cs) f5"
      "yields L [Mark FFTok_right_brace, Mark FFTok_right_bracket] f5"
    by (auto simp: elem_ptr_def)
  then obtain f6 where "slice_loop L ?elem n True [] f4 = Decoded (map Some cs) f5"
      "lx_Scan L f5 = (FFTok_right_brace, f6)"
    by (auto split: prod.splits)
  moreover define H where "H = CDSResult_handle L n"
  ultimately have "H ffj_t_CDSResult_Clusters FFTok_left_brace uj f4 = Decoded (uj\<lparr>cds_Clusters := Some (map Some cs)\<rparr>) f5"
    "lx_Scan L f5 = (FFTok_right_brace, f6)"
    by (simp_all add: CDSResult_handle_def handle_slice_def)
  then have "mainparse L (CDSResult_key L) H ffj_t_CDSResultbase ffj_t_CDSResultno_such_key n FFParse_map_start
      ffj_t_CDSResultbase uj (lx_NewFFLexer L input) = wrongtokenerror L FFTok_comma FFTok_right_brace f6"
    by (simp add: n s CDSResult_key_def switch_key_def value_token_def)
  then have "CDSResult_UnmarshalJSON L n input uj = wrongtokenerror L FFTok_comma FFTok_right_brace f6"
    by (simp add: CDSResult_UnmarshalJSON_def CDSResult_UnmarshalJSONFFLexer_def H_def)
  then show ?thesis by blast
qed

lemma null_element_refused_witness:
  "\<exists>err. CDSResult_UnmarshalJSON (document_lexer (JObject False [(''clusters'', JArray [JNull])])) 7 [] CDSResult_zero
     = Failed err"
proof -
  have "lexes (document_lexer (JObject False [(''clusters'', JArray [JNull])])) []
      (JObject False [(''clusters'', JArray [JNull])])"
    unfolding lexes_def document_lexer_def
    using list_lexer_yields [of "tokens (JObject False [(''clusters'', JArray [JNull])])"]
    by (simp add: list_lexer_def)
  with null_element_refused [of "document_lexer (JObject False [(''clusters'', JArray [JNull])])" "[]" False "[]" 7]
  show ?thesis by (auto simp: wrongtokenerror_def)
qed

end
