(* ===== verification/Spec2Isabelle.thy ===== *)
theory Spec2Isabelle
  imports EnvoyApi Resync ShimStop ServerHost RegistrarLock UdpProgress UdpTraffic FFJsonRoundTrip
begin

text \<open>
  A verification development for \<open>envoy-docker-shim\<close>, which lets Envoy take the place of Docker's
  \<open>docker-proxy\<close>. Docker starts one \<^emph>\<open>shim\<close> (\<open>cmd/envoy-docker-shim\<close>) for every published port. A
  TCP shim looks up the labels of the port's container, registers the port with the \<^emph>\<open>server\<close>
  (\<open>cmd/envoy-docker-server\<close>) over gRPC, blocks, and deregisters it on a signal; a UDP shim forwards
  the datagrams itself. The server keeps the registrations in the \<^emph>\<open>registrar\<close> and serves them as
  JSON to Envoy, which polls for hosts, clusters and listeners (\<open>internal/envoyhttp\<close>).

  \<^bold>\<open>Theories and sources.\<close>

  \<^item> \<open>GoPrelude\<close>, \<open>GoNet\<close>, \<open>GoJson\<close>, \<open>GoFlag\<close>: what the program uses of Go's standard library: errors,
    slices, \<open>fmt\<close>, \<open>net.IP\<close> with its parser and printer, \<open>encoding/json\<close> for a map of strings,
    \<open>strconv\<close> and \<open>flag\<close>. \<open>GoFlag\<close> has the flags of \<open>main.go\<close>.
  \<^item> \<open>ShimRpc\<close>: \<open>internal/shimrpc/shimrpc.pb.go\<close>: messages, client stub, server handler, and what the file
    registers with gRPC and the protobuf runtime.
  \<^item> \<open>Registrar\<close>: \<open>internal/envoyhttp/registrar.go\<close> as a state machine of whole calls; \<open>RegistrarLock\<close>:
    the same methods as goroutines that interleave under the \<open>RWMutex\<close>.
  \<^item> \<open>EnvoyObjects\<close>: the structs of \<open>envoy_api_objects.go\<close>. \<open>FFJsonEncode\<close> and \<open>FFJsonDecode\<close>: the
    generated code of \<open>envoy_api_objects_ffjson.go\<close>, struct by struct; what its decoders share is in
    \<open>FFJsonLexer\<close>. \<open>FFJsonSpec\<close>: the JSON value of every object as its struct tags describe it, and that
    the encoders write it. \<open>FFJsonFuel\<close>: the decoders end. \<open>FFJsonRoundTrip\<close>: they undo the encoders.
  \<^item> \<open>EnvoyApi\<close>: \<open>envoy_api.go\<close>: conversions, handlers, responses, routes.
  \<^item> \<open>DockerClient\<close>, \<open>EnvoyProxy\<close>, \<open>UdpProxy\<close>, \<open>ShimMain\<close>: \<open>docker.go\<close>, \<open>envoy_proxy.go\<close>, \<open>udp_proxy.go\<close>,
    and \<open>main.go\<close> with \<open>proxy.go\<close>, of the shim. \<open>UdpProgress\<close>: the UDP proxy can always be shut down.
    \<open>UdpTraffic\<close>: it passes datagrams on as they are.
  \<^item> \<open>ShimWorld\<close>: a shim and the registrar together, undisturbed. \<open>ShimSignals\<close>: the goroutines of many
    shims, their stop signals, the server's requests and restarts as interleaved steps. \<open>ShimStop\<close>: when a
    signalled shim ends, and the call that keeps it from ending.
  \<^item> \<open>Resync\<close>: the script \<open>scripts/resync\<close>, from the process table to the commands it runs.
  \<^item> \<open>ServerMain\<close>: \<open>main.go\<close> of the server, its three goroutines as steps. \<open>ServerHost\<close>: servers that are
    started and end on one host, and the socket files that they share and leave behind.
  \<^item> This theory: the properties that span components.

  \<^bold>\<open>How the code is rendered.\<close> A struct is a record (the two that refer to each other are a
  datatype), a Go \<open>int\<close> or \<open>int64\<close> a 64-bit word and an \<open>int32\<close> a 32-bit word, so that every conversion
  is a \<open>scast\<close>; a string is its bytes; a nil slice, map or pointer is \<open>None\<close>. A function that changes
  state takes and returns it; one that can panic, end the process or block gives an \<open>outcome\<close>; one that
  returns an error gives a sum or an option. The order in which Go visits a map is an argument, here
  called \<open>ks\<close> or \<open>ord\<close>. Sleeping is recorded in the world it happens in.

  \<^bold>\<open>Goroutines.\<close> \<open>RegistrarLock.sh_step\<close>, \<open>UdpProxy.udp_step\<close>, \<open>ShimSignals.sys_step\<close> and
  \<open>ServerHost.host_step\<close> are step relations: one step is one operation of one goroutine (taking a lock,
  a critical section, one read, one write, sending a request, serving one, listening, removing a
  file), and every interleaving is an execution. Their invariants are proved
  by rule induction over the reachable states, and the liveness properties by a measure that some
  enabled step always lowers: \<open>udp_can_shut_down\<close> and \<open>calls_can_return\<close> say that the goroutines can end
  from wherever they are; \<open>stop_signal_ends\<close> is about every infinite execution that is fair to the stop
  goroutine, in which a call comes back only when the server has answered it or its connection has
  broken. \<open>undisturbed_shim\<close> ties the steps of a shim to its sequential functions.

  \<^bold>\<open>Interfaces.\<close> \<open>Registrar\<close> states the contracts that others rely on as locales, \<open>register_service\<close> (what
  a look-up returns after requests) and \<open>entry_source\<close> with its extension (what an iteration visits),
  and interprets them on the code's \<open>Register\<close>, \<open>GetEntry\<close> and \<open>EachEntry\<close>; \<open>EnvoyApi\<close>, \<open>ShimWorld\<close>,
  \<open>ShimSignals\<close> and this theory reason with their facts. \<open>json_encoder\<close> in \<open>FFJsonSpec\<close> and \<open>json_decoder\<close> in \<open>FFJsonRoundTrip\<close> are the
  contracts between a generated encoder or decoder and its callers, interpreted on that of every
  struct.

  \<^bold>\<open>Fuel.\<close> The loops of the decoders have fuel: \<open>n\<close> bounds the rounds of each loop, and \<open>d\<close> how deep a
  filter's configuration may hold filters, for which the callers give \<open>n\<close> too. \<open>decoders_terminate\<close> shows
  that more fuel than the lexer has left to read is enough for every input, for lexers that, as ffjson's
  does, give \<open>FFTok_eof\<close> at the end of the input as often as they are asked (\<open>lexer_ends\<close>, which
  \<open>byte_lexer\<close>, a lexer on bytes, is shown to satisfy); \<open>documents_round_trip\<close> that as much fuel as a
  document has tokens is enough to read it. Everything else is total without fuel.

  \<^bold>\<open>What stands for code outside the repository.\<close> Arguments, with what is relied on as named hypotheses:
  ffjson's buffer and printers (\<open>fflib\<close>, with \<open>fflib_ok\<close>) and its lexer (\<open>fflexer\<close>, with \<open>lexer_ends\<close> and
  \<open>lexes\<close>); gorilla's router (\<open>router_matches\<close>); the Docker client (\<open>docker\<close>, \<open>discoverer\<close>); gRPC (\<open>grpc\<close>,
  \<open>invoke\<close>, with \<open>delivers\<close>); the protobuf runtime (\<open>proto\<close>); the shell (\<open>eval\<close>, with \<open>runs_shim\<close>) and the
  rows of \<open>ps\<close> (\<open>ps_table\<close>); listening on a UDP port (\<open>listen\<close>); \<open>envconfig\<close>; the handlers of \<open>pprof\<close>; the clock
  (\<open>now\<close>); the lower case of letters beyond ASCII. Each property with such a hypothesis has a
  witness that applies it to a concrete implementation.

  \<^bold>\<open>What the properties show.\<close> The three discovery services agree with each other and with the last
  registration of every name, and a port that Docker publishes is found by Envoy's three queries. A shim
  registers and deregisters exactly its own entry, and what happens when it cannot register; the
  resynchronisation script restores the entries of all TCP shims. In every interleaving the registrar
  knows only what shims asked for, a signalled shim ends unless a call to the server hangs, and one that
  had finished registering leaves nothing behind. A server listens where the shims dial, and removes its
  socket on a signal. The registrar refines a map of last requests, and its concurrent methods are
  linearizable and never stuck. Encoders write what the struct tags say, decoders read it back and
  always end. The UDP proxy keeps clients apart and passes on what it reads, in order; its table is
  exact, its critical sections exclude each other, and it can always be shut down. Command line,
  requests, names, addresses and error bodies have their round trips and bounds. Some properties state
  flaws that the code has: the reload flag is fatal for UDP, entries of equal ports on different
  addresses collide, a nil element truncates the JSON, a null element is refused, a dial may outlive
  \<open>Close\<close>, a signal during the registration may leave the entry behind, a call has no deadline, and a
  server that did not end by a signal leaves a socket at which no later one can listen.

  \<^bold>\<open>Not modelled.\<close> Log lines and the help text of the flags; the text in the compressed descriptor of
  \<open>shimrpc.pb.go\<close>, whose bytes the model has; the wire format of the messages, which is the protobuf
  library's; other programs that make or remove files at the socket paths, and two names of one file; the
  redirections of \<open>net/http\<close> for paths that are not clean; timing (a deadline is an error that a read may give, a timeout an argument of the
  dialling); the partly filled object that a failing decoder leaves behind, which its callers drop;
  the preference of a \<open>RWMutex\<close> for waiting writers (there are more interleavings here than in Go); what the shell makes of a line with special characters, which the
  resynchronisation would also run; tests and examples.
\<close>

section \<open>What Envoy is told\<close>

text \<open>
  C1: The three discovery services agree with each other and with the history of requests. Whatever
  requests the registrar has served, and in whatever orders Go visits its map: the cluster and
  listener services answer with the JSON of a list of clusters and one of listeners; no cluster is
  reported twice; every cluster that a listener refers to is reported; and asking the registration
  service for a reported cluster gives status 200 with the backend of the entry that the last
  request for that name registered.
\<close>

theorem discovery_consistent:
  assumes "fflib_ok L" and "r = registrar_run reqs NewRegistrar"
    and "range_order (entries r) ks" and "range_order (entries r) ks'"
  shows "\<exists>clusters listeners.
      clustersHandler L ks r params fresh_response =
        json_response 200 (render (jstr L) (cds_json \<lparr>cds_Clusters = Some (map Some clusters)\<rparr>))
      \<and> listenersHandler L ks' r params' fresh_response =
        json_response 200 (render (jstr L) (lds_json \<lparr>lds_Listeners = Some (map Some listeners)\<rparr>))
      \<and> distinct (map cl_Name clusters)
      \<and> (\<forall>l \<in> set listeners. set (listener_clusters l) \<subseteq> cl_Name ` set clusters)
      \<and> (\<forall>c \<in> set clusters. \<exists>e. registered_by reqs (cl_Name c) e
           \<and> registrationHandler L ord now r [''service'' \<mapsto> cl_ServiceName c] fresh_response =
               json_response 200 (render (jstr L) (sds_json ord
                 \<lparr>sds_Env = [], sds_Hosts = Some [Some (host_of now e)], sds_Service = cl_Name c\<rparr>)))"
proof -
  let ?clusters = "map cluster_of (source.listed ks r)"
  let ?listeners = "map EnvoyListenerFromEntry (source.listed ks' r)"
  have inv: "registrar_inv r"
    using assms(2) registrar_inv_run [OF registrar_inv_new] by simp
  have same: "set (source.listed ks' r) = set (source.listed ks r)"
    using source.set_listed [OF assms(3)] source.set_listed [OF assms(4)] by simp
  have "set (listener_clusters l) \<subseteq> cl_Name ` set ?clusters" if "l \<in> set ?listeners" for l
    using that same by (auto simp: listener_clusters_from_entry cluster_of_def image_image)
  moreover have "distinct (map cl_Name ?clusters)"
    using source.listed_distinct [OF inv assms(3)] by (simp add: comp_def cluster_of_def)
  moreover have "\<exists>e. registered_by reqs (cl_Name c) e
      \<and> registrationHandler L ord now r [''service'' \<mapsto> cl_ServiceName c] fresh_response =
          json_response 200 (render (jstr L) (sds_json ord
            \<lparr>sds_Env = [], sds_Hosts = Some [Some (host_of now e)], sds_Service = cl_Name c\<rparr>))"
    if c: "c \<in> set ?clusters" for c
  proof -
    obtain e where e: "e \<in> set (source.listed ks r)" "c = cluster_of e"
      using c unfolding set_map by blast
    then have get: "GetEntry r (SvcName e) = Some e"
      using source.get_listed [OF inv assms(3)] by simp
    then have "registered_by reqs (SvcName e) e"
      by (simp add: assms(2) registrar_run_fold registrar.lookup_after)
    with e get show ?thesis
      by (auto simp: registration_response [OF assms(1)] cluster_of_def)
  qed
  ultimately show ?thesis
    by (intro exI [of _ ?clusters] exI [of _ ?listeners])
      (simp add: clusters_response [OF assms(1)] listeners_response [OF assms(1)] clusters_listed
        listeners_listed comp_def)
qed

lemma discovery_consistent_witness:
  "\<exists>clusters listeners.
      clustersHandler list_fflib [request_name (sample_request ''10.0.0.1'')]
          (registrar_run [sample_request ''10.0.0.1''] NewRegistrar) Map.empty fresh_response =
        json_response 200 (render (jstr list_fflib) (cds_json \<lparr>cds_Clusters = Some (map Some clusters)\<rparr>))
      \<and> (\<forall>l \<in> set listeners. set (listener_clusters l) \<subseteq> cl_Name ` set clusters)"
  using discovery_consistent [OF list_fflib_ok refl sample_registrar(2) sample_registrar(2)] by blast

text \<open>
  C7: A list of clusters or listeners is a snapshot. However the requests of the registrar interleave: the
  entries that a complete iteration has given to its handler, and so the documents made of them, are
  those of the registrar at one moment between the start and the end of the iteration; no entry is
  missing, doubled or of another moment.
\<close>

theorem lists_are_snapshots:
  assumes "sh_reachable s" and "(c, n, d, ks, es) \<in> set (sh_listed s)" and "fflib_ok L"
  shows "let r = registrar_run (take n (sh_history s)) NewRegistrar in
      c \<le> n \<and> n \<le> d \<and> d \<le> length (sh_history s)
      \<and> clustersHandler L ks r params fresh_response = json_response 200 (render (jstr L)
          (cds_json \<lparr>cds_Clusters = Some (map (\<lambda>e. Some (cluster_of e)) es)\<rparr>))
      \<and> listenersHandler L ks r params fresh_response = json_response 200 (render (jstr L)
          (lds_json \<lparr>lds_Listeners = Some (map (\<lambda>e. Some (EnvoyListenerFromEntry e)) es)\<rparr>))
      \<and> distinct (map SvcName es) \<and> (\<forall>e. e \<in> set es \<longleftrightarrow> GetEntry r (SvcName e) = Some e)"
proof -
  let ?r = "registrar_run (take n (sh_history s)) NewRegistrar"
  have listed: "c \<le> n \<and> n \<le> d \<and> d \<le> length (sh_history s) \<and> range_order (entries ?r) ks
      \<and> es = source.listed ks ?r"
    using sh_inv_reachable [OF assms(1)] assms(2)
    by (fastforce simp: sh_inv_def results_ok_def registrar_at_def)
  then have es: "es = source.listed ks ?r" and order: "range_order (entries ?r) ks" by simp_all
  have inv: "registrar_inv ?r" by (rule registrar_inv_run [OF registrar_inv_new])
  have "e \<in> set es \<longleftrightarrow> GetEntry ?r (SvcName e) = Some e" for e
    using source.set_listed [OF order] source.get_listed [OF inv order] es by blast
  moreover have "distinct (map SvcName es)"
    using source.listed_distinct [OF inv order] es by simp
  ultimately show ?thesis
    using listed
    by (simp add: clusters_response [OF assms(3)] listeners_response [OF assms(3)] clusters_listed
        listeners_listed Let_def)
qed

lemma lists_are_snapshots_witness:
  "clustersHandler list_fflib [''web-8080''] (registrar_run [demo_request] NewRegistrar) Map.empty fresh_response =
     json_response 200 (render (jstr list_fflib)
       (cds_json \<lparr>cds_Clusters = Some [Some (cluster_of (RequestToEntry demo_request))]\<rparr>))"
  using lists_are_snapshots [OF demo_listing _ list_fflib_ok, of 1 1 1 "[''web-8080'']" "[RequestToEntry demo_request]"]
  by (simp add: demo_listing_def demo_registered_simps Let_def)

section \<open>What Envoy reads\<close>

lemma listener_from_entry_kept: "listener_kept (EnvoyListenerFromEntry e)"
  by (simp add: listener_kept_def EnvoyListenerFromEntry_def http_filter_def tcp_filter_def no_nil_def
      route_config_kept_def vhost_ok_def tcp_route_kept_def Let_def)

lemma listeners_kept: "no_nil listener_kept (EnvoyListenersFromRegistrar ks r)"
  by (simp add: listeners_listed no_nil_map_Some listener_from_entry_kept list_all_iff)

text \<open>
  C27: The documents that the discovery services send can be read back with the repository's own
  decoders: decoding the body of a response gives the very list of clusters, the list of listeners
  and the host that the handler made from the registrar's entries, provided that the lexer cuts the
  body into the tokens of its JSON value.
\<close>

theorem served_documents_decode:
  assumes "fflib_ok F" and "GetEntry r name = Some e" and "ord Map.empty = []"
  shows "let cds = \<lparr>cds_Clusters = EnvoyClustersFromRegistrar ks r\<rparr>;
      lds = \<lparr>lds_Listeners = EnvoyListenersFromRegistrar ks r\<rparr>;
      sds = \<lparr>sds_Env = [], sds_Hosts = Some [Some (host_of now e)], sds_Service = name\<rparr>
    in (lexes L (render (jstr F) (cds_json cds)) (cds_json cds) \<longrightarrow> length (tokens (cds_json cds)) \<le> n \<longrightarrow>
        (\<exists>fs. CDSResult_UnmarshalJSON L n (resp_Body (clustersHandler F ks r params fresh_response)) CDSResult_zero
           = Decoded cds fs))
      \<and> (lexes L (render (jstr F) (lds_json lds)) (lds_json lds) \<longrightarrow> length (tokens (lds_json lds)) \<le> n \<longrightarrow>
        (\<exists>fs. LDSResult_UnmarshalJSON L n (resp_Body (listenersHandler F ks r params fresh_response)) LDSResult_zero
           = Decoded lds fs))
      \<and> (lexes L (render (jstr F) (sds_json ord sds)) (sds_json ord sds) \<longrightarrow> length (tokens (sds_json ord sds)) \<le> n \<longrightarrow>
        (\<exists>fs. SDSResult_UnmarshalJSON L n
            (resp_Body (registrationHandler F ord now r [''service'' \<mapsto> name] fresh_response)) SDSResult_zero
           = Decoded sds fs))"
proof -
  have body: "resp_Body (json_response 200 b) = b" for b
    by (simp add: json_response_def)
  have "no_nil (\<lambda>_. True) (EnvoyClustersFromRegistrar ks r)"
    by (simp add: clusters_listed no_nil_map_Some list_all_iff)
  moreover have "no_nil (\<lambda>v. visits_all ord (svc_Tags v)) (Some [Some (host_of now e)])"
    using assms(3) by (simp add: no_nil_def visits_all_def host_of_def)
  ultimately show ?thesis
    using listeners_kept [of ks r]
    unfolding CDSResult_UnmarshalJSON_def LDSResult_UnmarshalJSON_def SDSResult_UnmarshalJSON_def Let_def
    by (intro conjI impI; simp only: clusters_response [OF assms(1)] listeners_response [OF assms(1)]
        registration_response [OF assms(1)] assms(2) body fun_upd_same option.case)
      (rule cds_dec.decode_document lds_dec.decode_document sds_dec.decode_document; simp)+
qed

lemma served_documents_decode_witness:
  "\<exists>fs. CDSResult_UnmarshalJSON (document_lexer (cds_json \<lparr>cds_Clusters = Some []\<rparr>)) 7
      (resp_Body (clustersHandler list_fflib [] (registrar_run [sample_request ''10.0.0.1''] NewRegistrar)
         Map.empty fresh_response)) CDSResult_zero
    = Decoded \<lparr>cds_Clusters = Some []\<rparr> fs"
proof -
  let ?r = "registrar_run [sample_request ''10.0.0.1''] NewRegistrar"
  have empty: "EnvoyClustersFromRegistrar [] ?r = Some []"
    by (simp add: clusters_listed)
  have "lexes (document_lexer (cds_json \<lparr>cds_Clusters = Some []\<rparr>)) s (cds_json \<lparr>cds_Clusters = Some []\<rparr>)" for s
    unfolding lexes_def document_lexer_def
    using list_lexer_yields [of "tokens (cds_json \<lparr>cds_Clusters = Some []\<rparr>)"]
    by (simp add: list_lexer_def cds_json_def ptrs_json_def)
  moreover have "length (tokens (cds_json \<lparr>cds_Clusters = Some []\<rparr>)) \<le> 7"
    by (simp add: cds_json_def ptrs_json_def)
  moreover obtain e where "GetEntry ?r (request_name (sample_request ''10.0.0.1'')) = Some e"
    by (simp add: GetEntry_def entries_Register sample_request_actions)
  note served_documents_decode [where L = "document_lexer (cds_json \<lparr>cds_Clusters = Some []\<rparr>)" and ks = "[]" and n = 7
      and ord = "\<lambda>_. []" and params = Map.empty and name = "request_name (sample_request ''10.0.0.1'')",
      OF list_fflib_ok this refl, unfolded Let_def empty, THEN conjunct1]
  ultimately show ?thesis by blast
qed

section \<open>From Docker to Envoy\<close>

text \<open>
  What gorilla's router documents, for the routes of the API: a path without variables is taken by
  the first route with that path and method; a variable takes one segment, which is neither empty
  nor a dot segment.
\<close>

definition router_matches ::
  "(Route list \<Rightarrow> string \<Rightarrow> string \<Rightarrow> (Route \<times> (string \<rightharpoonup> string)) option) \<Rightarrow> bool" where
  "router_matches router \<longleftrightarrow>
     (\<forall>name. name \<notin> {[], ''.'', ''..''} \<and> CHR ''/'' \<notin> set name \<longrightarrow>
        router HttpMux ''GET'' (''/registration/'' @ name) =
          Some (\<lparr>route_Path = ''/registration/{service}'', route_Handler = Registration, route_Method = ''GET''\<rparr>,
                [''service'' \<mapsto> name]))
     \<and> router HttpMux ''GET'' ''/clusters'' =
          Some (\<lparr>route_Path = ''/clusters'', route_Handler = Clusters, route_Method = ''GET''\<rparr>, Map.empty)
     \<and> router HttpMux ''GET'' ''/listeners'' =
          Some (\<lparr>route_Path = ''/listeners'', route_Handler = Listeners, route_Method = ''GET''\<rparr>, Map.empty)"

lemma serve_registration:
  assumes "router_matches router" and "name \<notin> {[], ''.'', ''..''}" and "CHR ''/'' \<notin> set name"
  shows "serveHttp router L ord ks now r ''GET'' (''/v1/registration/'' @ name) =
    Some (registrationHandler L ord now r [''service'' \<mapsto> name] fresh_response)"
proof -
  have "StripPrefix ''/v1'' (''/v1/registration/'' @ name) = Some (''/registration/'' @ name)"
    by (simp add: StripPrefix_def)
  moreover have "router HttpMux ''GET'' (''/registration/'' @ name) =
      Some (\<lparr>route_Path = ''/registration/{service}'', route_Handler = Registration, route_Method = ''GET''\<rparr>,
            [''service'' \<mapsto> name])"
    using assms unfolding router_matches_def by blast
  ultimately show ?thesis by (simp add: serveHttp_def serve_def wrap_def)
qed

lemma serve_lists:
  assumes "router_matches router"
  shows "serveHttp router L ord ks now r ''GET'' ''/v1/clusters'' =
      Some (clustersHandler L ks r Map.empty fresh_response)"
    and "serveHttp router L ord ks now r ''GET'' ''/v1/listeners'' =
      Some (listenersHandler L ks r Map.empty fresh_response)"
proof -
  have "StripPrefix ''/v1'' ''/v1/clusters'' = Some ''/clusters''"
    "StripPrefix ''/v1'' ''/v1/listeners'' = Some ''/listeners''"
    by (simp_all add: StripPrefix_def)
  with assms show "serveHttp router L ord ks now r ''GET'' ''/v1/clusters'' =
      Some (clustersHandler L ks r Map.empty fresh_response)"
    and "serveHttp router L ord ks now r ''GET'' ''/v1/listeners'' =
      Some (listenersHandler L ks r Map.empty fresh_response)"
    by (simp_all add: router_matches_def serveHttp_def serve_def wrap_def)
qed

lemma SvcName_segment: "SvcName e \<notin> {[], ''.'', ''..''}"
proof -
  have "CHR ''-'' \<in> set (SvcName e)" by (simp add: SvcName_def Let_def)
  then show ?thesis by auto
qed

text \<open>
  C2: What Docker publishes, Envoy finds. After a shim has been started for a TCP port, in a world that
  works, the server's HTTP interface answers: under the port's service name with status 200 and the
  container's address and port as the only host; and its lists of clusters and of listeners have the
  port's cluster and the listener that binds the published address and sends traffic to that cluster.
\<close>

theorem published_port_discovered:
  assumes "shim_world G dockerClient labels view put" and "ip_wf host" and "ip_wf container"
    and "int32_range (Port host)" and "int32_range (Port container)"
    and "fflib_ok L" and "router_matches router"
    and "CHR ''/'' \<notin> set (SvcName (shim_backend host container (labels (Port host))))"
  shows "let e = shim_backend host container (labels (Port host)) in \<exists>x'.
      main G dockerClient listen (docker_args ''tcp'' host container) w =
        (Finished Blocks, ''0'' @ [CHR 0x0A], w\<lparr>slept := slept w @ [Second], outside := x'\<rparr>)
      \<and> serveHttp router L ord ks now (view x') ''GET'' (''/v1/registration/'' @ SvcName e) =
          Some (json_response 200 (render (jstr L) (sds_json ord
            \<lparr>sds_Env = [], sds_Hosts = Some [Some (host_of now e)], sds_Service = SvcName e\<rparr>)))
      \<and> (range_order (entries (view x')) ks \<longrightarrow> (\<exists>clusters listeners.
          serveHttp router L ord ks now (view x') ''GET'' ''/v1/clusters'' =
            Some (json_response 200 (render (jstr L) (cds_json \<lparr>cds_Clusters = Some (map Some clusters)\<rparr>)))
          \<and> serveHttp router L ord ks now (view x') ''GET'' ''/v1/listeners'' =
            Some (json_response 200 (render (jstr L) (lds_json \<lparr>lds_Listeners = Some (map Some listeners)\<rparr>)))
          \<and> cluster_of e \<in> set clusters \<and> EnvoyListenerFromEntry e \<in> set listeners))"
proof -
  let ?e = "shim_backend host container (labels (Port host))"
  obtain x' where run: "Run G (docker_proxy dockerClient host container False) w =
      (Blocks, w\<lparr>slept := slept w @ [Second], outside := x'\<rparr>)"
    and x': "view x' = snd (Register (shim_request host container (labels (Port host)) RegistrarRequest_REGISTER) (view (outside w)))"
    using Run_delivers(1) [OF assms(1-3), of w] by blast
  have get: "GetEntry (view x') (SvcName ?e) = Some ?e"
    by (simp add: x' Register_shim_request [OF assms(2-5)])
  have sds: "serveHttp router L ord ks now (view x') ''GET'' (''/v1/registration/'' @ SvcName ?e) =
      Some (json_response 200 (render (jstr L) (sds_json ord
        \<lparr>sds_Env = [], sds_Hosts = Some [Some (host_of now ?e)], sds_Service = SvcName ?e\<rparr>)))"
    unfolding serve_registration [OF assms(7) SvcName_segment assms(8)]
    by (simp add: registration_response [OF assms(6)] get)
  have lists: "\<exists>clusters listeners.
      serveHttp router L ord ks now (view x') ''GET'' ''/v1/clusters'' =
        Some (json_response 200 (render (jstr L) (cds_json \<lparr>cds_Clusters = Some (map Some clusters)\<rparr>)))
      \<and> serveHttp router L ord ks now (view x') ''GET'' ''/v1/listeners'' =
        Some (json_response 200 (render (jstr L) (lds_json \<lparr>lds_Listeners = Some (map Some listeners)\<rparr>)))
      \<and> cluster_of ?e \<in> set clusters \<and> EnvoyListenerFromEntry ?e \<in> set listeners"
    if "range_order (entries (view x')) ks"
  proof -
    have "?e \<in> set (source.listed ks (view x'))"
      using source.set_listed [OF that] get by blast
    then show ?thesis
      by (intro exI [of _ "map cluster_of (source.listed ks (view x'))"]
          exI [of _ "map EnvoyListenerFromEntry (source.listed ks (view x'))"])
        (simp add: serve_lists [OF assms(7)] clusters_response [OF assms(6)] listeners_response [OF assms(6)]
          clusters_listed listeners_listed comp_def)
  qed
  from run have "main G dockerClient listen (docker_args ''tcp'' host container) w =
      (Finished Blocks, ''0'' @ [CHR 0x0A], w\<lparr>slept := slept w @ [Second], outside := x'\<rparr>)"
    by (simp add: main_def main_start_tcp [OF assms(2,3)])
  with sds lists show ?thesis unfolding Let_def by blast
qed

text \<open>A router for the routes of the API.\<close>

definition demo_router :: "Route list \<Rightarrow> string \<Rightarrow> string \<Rightarrow> (Route \<times> (string \<rightharpoonup> string)) option" where
  "demo_router routes verb path =
     (if verb \<noteq> ''GET'' then None
      else if take 14 path = ''/registration/'' then Some (routes ! 0, [''service'' \<mapsto> drop 14 path])
      else if path = ''/clusters'' then Some (routes ! 2, Map.empty)
      else if path = ''/listeners'' then Some (routes ! 4, Map.empty)
      else None)"

lemma demo_router: "router_matches demo_router"
  by (simp add: router_matches_def demo_router_def HttpMux_def)

lemma published_port_discovered_witness:
  "\<exists>x'. serveHttp demo_router list_fflib (\<lambda>_. []) [] ''now'' x' ''GET''
      (''/v1/registration/'' @ SvcName (shim_backend sample_host sample_container demo_settings)) =
    Some (json_response 200 (render (jstr list_fflib) (sds_json (\<lambda>_. [])
      \<lparr>sds_Env = [],
       sds_Hosts = Some [Some (host_of ''now'' (shim_backend sample_host sample_container demo_settings))],
       sds_Service = SvcName (shim_backend sample_host sample_container demo_settings)\<rparr>)))"
proof -
  have name: "SvcName (shim_backend sample_host sample_container demo_settings) = ''web-dev-32768''"
    by (simp add: SvcName_def shim_backend_def demo_settings_def canonical_def sample_host_def)
      (simp add: fmt_d_def nat_str.simps digit_char_def)
  have "CHR ''/'' \<notin> set (SvcName (shim_backend sample_host sample_container demo_settings))"
    unfolding name by simp
  from published_port_discovered [OF demo_world sample_wf sample_ports list_fflib_ok demo_router this,
      of Inr "\<lparr>outside = NewRegistrar, slept = []\<rparr>" "\<lambda>_. []" "[]" "''now''"]
  show ?thesis unfolding Let_def by blast
qed

section \<open>Where the shim and the server meet\<close>

lemma shim_dials:
  assumes "main_start dockerClient listen args = (Returns (Envoy p), out)"
  shows "px_ServerAddr p = ShimSocketPath"
  using assms
  by (auto simp: main_start_def NewProxy_def NewEnvoyProxy_def assert_TCPAddr_def made_envoy_def Let_def
      split: outcome.splits prod.splits sum.splits if_splits Addr.splits option.splits)

lemma default_socket:
  "cfg_GrpcAddr (sv_config sv) = cfg_GrpcAddr (process_config None api) \<Longrightarrow> path_of sv = ShimSocketPath"
  "socket_file ShimSocketPath"
  by (simp_all add: default_path ShimSocketPath_def socket_file_def)

text \<open>
  C39: The shim and the server meet at one socket. Take any reachable state of the host and any TCP shim,
  whatever its command line. A connection that the shim dials reaches a server only if that server is
  alive and has listened at the path that the shim has built in. A server that was started without
  settings, alone at that path, can always come up there, and the shim's connections reach it from
  then on, until it ends or a signal comes. But when it ends without a signal, killed or because the
  HTTP interface could not listen, its socket stays, and no server that is started after it is ever
  reached by a shim, however often it is restarted, as long as none of them is signalled.
\<close>

theorem server_and_shim_meet:
  assumes "host_reachable h" and "main_start dockerClient listen args = (Returns (Envoy p), out)"
  shows "(dial h (px_ServerAddr p) = Some q \<longrightarrow>
        (\<exists>sv. h_servers h q = Some sv \<and> sv_end sv = None \<and> sv_grpc sv = G_Serve ShimSocketPath
           \<and> path_of sv = ShimSocketPath))
    \<and> (h_servers h pid = Some sv \<and> cfg_GrpcAddr (sv_config sv) = cfg_GrpcAddr (process_config None api)
        \<and> only_at h pid ShimSocketPath \<and> sv_signal sv = S_Wait \<longrightarrow>
        (sv_end sv = None \<and> sv_grpc sv = G_Listen \<longrightarrow> (\<exists>h'. host_step h h' \<and> dial h' (px_ServerAddr p) = Some pid))
        \<and> (sv_end sv = None \<and> sv_grpc sv = G_Serve path \<longrightarrow> dial h (px_ServerAddr p) = Some pid)
        \<and> (sv_end sv \<noteq> None \<and> sv_grpc sv = G_Serve path \<longrightarrow>
            (\<forall>h'. host_step\<^sup>*\<^sup>* h h' \<and> no_signal ShimSocketPath pid h' \<longrightarrow> dial h' (px_ServerAddr p) = None)))"
proof -
  note p = shim_dials [OF assms(2)] and inv = host_inv_reachable [OF assms(1)]
  have "\<exists>sv. h_servers h q = Some sv \<and> sv_end sv = None \<and> sv_grpc sv = G_Serve ShimSocketPath \<and> path_of sv = ShimSocketPath"
    if "dial h ShimSocketPath = Some q"
    using that file_owner [OF inv, of ShimSocketPath]
    by (auto simp: dial_def split: option.splits if_splits)
  moreover
  { assume sv: "h_servers h pid = Some sv" "cfg_GrpcAddr (sv_config sv) = cfg_GrpcAddr (process_config None api)"
      "only_at h pid ShimSocketPath" "sv_signal sv = S_Wait"
    note path = default_socket(1) [OF sv(2)]
    have files: "socket_inv pid ShimSocketPath sv (h_files h)"
      by (rule socket_inv_reachable [OF assms(1) sv(1) path [symmetric] sv(3) default_socket(2)])
    have serves: "path = ShimSocketPath" if "sv_grpc sv = G_Serve path"
      using inv sv(1) that path unfolding host_inv_def by auto
    have up: "\<exists>h'. host_step h h' \<and> dial h' ShimSocketPath = Some pid" if "sv_end sv = None" "sv_grpc sv = G_Listen"
    proof -
      have "h_files h (path_of sv) = None" using files that(2) path by (simp add: socket_inv_def Let_def)
      with host_server [OF sv(1) that(1) srv_grpc [OF grpc_listens [OF that(2) refl]]] path that(1) default_socket(2)
      show ?thesis by (intro exI conjI) (assumption, simp add: dial_def bind_socket_def)
    qed
    have left: "stale_inv pid ShimSocketPath h" if "sv_end sv \<noteq> None" "sv_grpc sv = G_Serve path"
      using files that sv(1,3,4) by (auto simp: stale_inv_def socket_inv_def only_at_def)
    have reached: "dial h ShimSocketPath = Some pid" if "sv_end sv = None" "sv_grpc sv = G_Serve path"
      using files that serves [OF that(2)] sv(1,4) by (simp add: dial_def socket_inv_def)
    note up left reached }
  ultimately show ?thesis unfolding p using stale_inv_steps [OF _ assms(1)] stale_inv_dial by blast
qed

text \<open>The HTTP interface of a server fails; the server that takes its place is not reached.\<close>

lemma server_and_shim_meet_witness:
  "\<exists>h sv. host_reachable h \<and> h_servers h 0 = Some sv \<and> sv_end sv = Some (Exits 1)
     \<and> (\<forall>h'. host_step\<^sup>*\<^sup>* h h' \<and> no_signal ShimSocketPath 0 h' \<longrightarrow> dial h' ShimSocketPath = None)"
proof -
  let ?sv = "\<lambda>end. (server_main (Inr (None, None)))\<lparr>sv_grpc := G_Serve ShimSocketPath, sv_signal := S_Wait, sv_end := end\<rparr>"
  let ?h = "\<lambda>end. demo_host None (G_Serve ShimSocketPath) S_Wait end [ShimSocketPath \<mapsto> 0]"
  have "server_step 0 (?sv None, [ShimSocketPath \<mapsto> 0]) (?sv (Some (Exits 1)), [ShimSocketPath \<mapsto> 0])"
    using srv_http [OF http_fails [of "?sv None"]] by (simp add: server_main_def)
  moreover have "host_reachable (?h None)"
    by (rule demo_host_up) (simp_all add: default_path ShimSocketPath_def socket_file_def)
  ultimately have reachable: "host_reachable (?h (Some (Exits 1)))" using host_next demo_host_step by blast
  have sv: "h_servers (?h (Some (Exits 1))) 0 = Some (?sv (Some (Exits 1)))" by (simp add: demo_host_def)
  have "only_at (?h (Some (Exits 1))) 0 ShimSocketPath" by (simp add: only_at_def demo_host_def)
  moreover have "cfg_GrpcAddr (sv_config (?sv (Some (Exits 1)))) = cfg_GrpcAddr (process_config None None)"
    by (simp add: server_main_def)
  moreover note meet = server_and_shim_meet [OF reachable
      main_start_tcp(2) [OF sample_wf, of "\<lambda>port (x :: unit). (Inl ''none'', x)" Inr], THEN conjunct2, rule_format,
      OF conjI [OF sv]]
  ultimately show ?thesis
    using reachable sv by (intro exI [of _ "?h (Some (Exits 1))"] exI [of _ "?sv (Some (Exits 1))"])
      (auto simp: docker_proxy_def)
qed

section \<open>Requests\<close>

text \<open>
  C29: The entry that the registrar makes of a shim's request has the shim's addresses, in their
  16-byte form, and the container's labels unchanged; a port survives if and only if it fits an
  \<open>int32\<close>, and is cut to its low 32 bits otherwise.
\<close>

theorem request_round_trip:
  assumes "ip_wf (px_frontendAddr p)" and "ip_wf (px_backendAddr p)"
  shows "let e = RequestToEntry (RequestWithSettings p settings) in
      IP (entry_FrontendAddr e) = To16 (IP (px_frontendAddr p))
      \<and> IP (entry_BackendAddr e) = To16 (IP (px_backendAddr p))
      \<and> entry_ServiceName e = set_ServiceName settings
      \<and> entry_EnvironmentName e = set_EnvironmentName settings
      \<and> entry_ProxyMode e = set_ProxyMode settings
      \<and> (Port (entry_FrontendAddr e) = Port (px_frontendAddr p) \<longleftrightarrow> int32_range (Port (px_frontendAddr p)))
      \<and> (Port (entry_BackendAddr e) = Port (px_backendAddr p) \<longleftrightarrow> int32_range (Port (px_backendAddr p)))
      \<and> take_bit 32 (sint (Port (entry_FrontendAddr e))) = take_bit 32 (sint (Port (px_frontendAddr p)))"
proof -
  have "take_bit 32 (sint (scast (scast q :: int32) :: int64)) = take_bit 32 (sint q)" for q :: int64
  proof -
    have "take_bit 32 (sint (scast q :: int32)) = take_bit 32 (sint q)"
      by (simp add: signed_scast_eq take_bit_signed_take_bit)
    then show ?thesis by simp
  qed
  with assms show ?thesis
    by (simp add: RequestToEntry_def RequestWithSettings_def ip_wf_def ParseIP_IP_String scast_scast_iff Let_def)
qed

lemma request_round_trip_witness:
  "Port (entry_FrontendAddr (RequestToEntry (RequestWithSettings
     (docker_proxy (\<lambda>port (x :: unit). (Inr demo_settings, x)) \<lparr>IP = [10, 0, 0, 1], Port = 0x100000050\<rparr>
        sample_container False) demo_settings))) \<noteq> 0x100000050"
proof -
  let ?p = "docker_proxy (\<lambda>port (x :: unit). (Inr demo_settings, x)) \<lparr>IP = [10, 0, 0, 1], Port = 0x100000050\<rparr>
    sample_container False"
  have "ip_wf (px_frontendAddr ?p)" "ip_wf (px_backendAddr ?p)"
    by (simp_all add: docker_proxy_def canonical_def ip_wf_def To16_def v4InV6Prefix_def sample_container_def)
  from request_round_trip [OF this, of demo_settings] show ?thesis
    by (simp add: Let_def docker_proxy_def canonical_def int32_range_def)
qed

end
